(* ===== verification/Orisun_Prelude.thy ===== *)
theory Orisun_Prelude
  imports
    Complex_Main
    "HOL-Library.AList"
    "HOL-Library.Char_ord"
    "HOL-Library.List_Lexorder"
    "HOL-Library.Product_Lexorder"
    "HOL-Library.Multiset"
    "HOL-Library.Sublist"
    "HOL-Library.Word"
begin

text \<open>
  What every component shares: the collections of simp rules, Go's \<open>int64\<close>, results that are a
  value or an \<open>error\<close>, Go maps, and the parts of \<open>strconv\<close> and \<open>strings\<close> the program calls.

  \<^item> A Go \<open>string\<close> is a list of bytes, so it is HOL's \<open>string\<close>; \<open>len\<close> is \<open>length\<close> and \<open><\<close> is the
    bytewise lexicographic order.
  \<^item> An \<open>int64\<close> is an \<open>int\<close>; where the code computes with one, the wrap-around is written with
    \<open>wrap64\<close>, and \<open>in_int64\<close> is the range.
  \<^item> A Go map is an association list with distinct keys. The order of the list stands for the
    order in which \<open>range\<close> visits the map, so a statement about every such list covers every
    iteration order.
\<close>

named_theorems go_simps \<open>evaluation of the Go library functions on literals\<close>
named_theorems api_defs \<open>unfolding of the handlers of the public API\<close>

section \<open>Fixed width integers\<close>

type_synonym int64 = int

definition max_int64 :: int where
  "max_int64 = 9223372036854775807"

definition min_int64 :: int where
  "min_int64 = - 9223372036854775808"

definition in_int64 :: "int \<Rightarrow> bool" where
  "in_int64 i \<longleftrightarrow> min_int64 \<le> i \<and> i \<le> max_int64"

text \<open>Two's complement addition keeps the low 64 bits.\<close>

definition wrap64 :: "int \<Rightarrow> int64" where
  "wrap64 i = (i + 9223372036854775808) mod 18446744073709551616 - 9223372036854775808"

lemma wrap64_id [simp]: "in_int64 i \<Longrightarrow> wrap64 i = i"
  by (simp add: wrap64_def in_int64_def min_int64_def max_int64_def)

lemma in_int64_wrap64 [simp]: "in_int64 (wrap64 i)"
proof -
  have "0 \<le> (i + 9223372036854775808) mod 18446744073709551616"
    and "(i + 9223372036854775808) mod 18446744073709551616 < 18446744073709551616"
    by simp_all
  then show ?thesis
    by (simp add: wrap64_def in_int64_def min_int64_def max_int64_def)
qed

lemma wrap64_signed: "wrap64 i = sint (word_of_int i :: 64 word)"
proof -
  have "(uint (word_of_int i :: 64 word) + 9223372036854775808) mod 18446744073709551616
      = (i + 9223372036854775808) mod 18446744073709551616"
    by (simp add: uint_word_of_int mod_add_left_eq)
  then show ?thesis
    by (simp add: wrap64_def sint_uint signed_take_bit_eq_take_bit_shift take_bit_eq_mod)
qed

section \<open>Lists used as Go maps\<close>

text \<open>\<open>distinct_keys m\<close> is what makes an association list a Go map.\<close>

abbreviation distinct_keys :: "('k \<times> 'v) list \<Rightarrow> bool" where
  "distinct_keys m \<equiv> distinct (map fst m)"

abbreviation has_key :: "('k \<times> 'v) list \<Rightarrow> 'k \<Rightarrow> bool" where
  "has_key m k \<equiv> map_of m k \<noteq> None"

section \<open>Results: a value or an error\<close>

text \<open>
  A Go function with results \<open>(T, error)\<close> returns \<open>Inl err\<close> or \<open>Inr t\<close>. \<open>bindR\<close> is the idiom
  \<open>if err != nil { return ..., err }\<close>; \<open>mapR\<close> is a loop over a slice that stops at the first error.
\<close>

definition bindR :: "'e + 'a \<Rightarrow> ('a \<Rightarrow> 'e + 'b) \<Rightarrow> 'e + 'b" where
  "bindR m f = (case m of Inl e \<Rightarrow> Inl e | Inr x \<Rightarrow> f x)"

fun mapR :: "('a \<Rightarrow> 'e + 'b) \<Rightarrow> 'a list \<Rightarrow> 'e + 'b list" where
  "mapR f [] = Inr []"
| "mapR f (x # xs) = bindR (f x) (\<lambda>y. bindR (mapR f xs) (\<lambda>ys. Inr (y # ys)))"

lemma bindR_simps [simp]:
  "bindR (Inl e) f = Inl e"
  "bindR (Inr x) f = f x"
  by (simp_all add: bindR_def)

lemma bindR_Inr_iff [simp]: "bindR m f = Inr y \<longleftrightarrow> (\<exists>x. m = Inr x \<and> f x = Inr y)"
  by (cases m) simp_all

lemma bindR_Inl_iff: "bindR m f = Inl e \<longleftrightarrow> m = Inl e \<or> (\<exists>x. m = Inr x \<and> f x = Inl e)"
  by (cases m) simp_all

lemma bindR_cong [fundef_cong]:
  "m = m' \<Longrightarrow> (\<And>x. m' = Inr x \<Longrightarrow> f x = f' x) \<Longrightarrow> bindR m f = bindR m' f'"
  by (cases m') simp_all

definition map_errorR :: "('e \<Rightarrow> 'f) \<Rightarrow> 'e + 'a \<Rightarrow> 'f + 'a" where
  "map_errorR f m = (case m of Inl e \<Rightarrow> Inl (f e) | Inr x \<Rightarrow> Inr x)"

lemma map_errorR_simps [simp]:
  "map_errorR f (Inl e) = Inl (f e)"
  "map_errorR f (Inr x) = Inr x"
  by (simp_all add: map_errorR_def)

lemma map_errorR_Inr_iff [simp]: "map_errorR f m = Inr x \<longleftrightarrow> m = Inr x"
  by (cases m) simp_all

lemma map_errorR_Inl_iff: "map_errorR f m = Inl e \<longleftrightarrow> (\<exists>d. m = Inl d \<and> e = f d)"
  by (cases m) auto

lemma mapR_Inr_iff: "mapR f xs = Inr ys \<longleftrightarrow> list_all2 (\<lambda>x y. f x = Inr y) xs ys"
  by (induction xs arbitrary: ys) (auto simp: list_all2_Cons1)

lemma mapR_length: "mapR f xs = Inr ys \<Longrightarrow> length ys = length xs"
  by (simp add: mapR_Inr_iff list_all2_lengthD)

lemma mapR_map_Inr [simp]: "mapR (\<lambda>x. Inr (f x)) xs = Inr (map f xs)"
  by (induction xs) simp_all

lemma mapR_Inr_set: "mapR f xs = Inr ys \<Longrightarrow> x \<in> set xs \<Longrightarrow> \<exists>y\<in>set ys. f x = Inr y"
  by (induction xs arbitrary: ys) auto

lemma mapR_cong [fundef_cong]:
  "xs = ys \<Longrightarrow> (\<And>x. x \<in> set ys \<Longrightarrow> f x = g x) \<Longrightarrow> mapR f xs = mapR g ys"
  by (induction ys arbitrary: xs) auto

lemma mapR_Inr_range: "mapR f xs = Inr ys \<Longrightarrow> y \<in> set ys \<Longrightarrow> \<exists>x\<in>set xs. f x = Inr y"
  by (induction xs arbitrary: ys) auto

text \<open>\<open>forR\<close> is a loop over a slice whose body only checks.\<close>

fun forR :: "('a \<Rightarrow> 'e + unit) \<Rightarrow> 'a list \<Rightarrow> 'e + unit" where
  "forR f [] = Inr ()"
| "forR f (x # xs) = bindR (f x) (\<lambda>_. forR f xs)"

lemma forR_ok: "forR f xs = Inr () \<longleftrightarrow> list_all (\<lambda>x. f x = Inr ()) xs"
  by (induction xs) auto

lemma forR_error: "forR f xs = Inl e \<Longrightarrow> \<exists>x\<in>set xs. f x = Inl e"
  by (induction xs) (auto simp: bindR_Inl_iff)

section \<open>Calls that act on a state and may fail\<close>

definition bindS ::
    "('s \<Rightarrow> 's \<times> ('e + 'a)) \<Rightarrow> ('a \<Rightarrow> 's \<Rightarrow> 's \<times> ('e + 'b)) \<Rightarrow> 's \<Rightarrow> 's \<times> ('e + 'b)" where
  "bindS m f st = (case m st of (st', Inl err) \<Rightarrow> (st', Inl err) | (st', Inr x) \<Rightarrow> f x st')"

definition liftS :: "'e + 'a \<Rightarrow> 's \<Rightarrow> 's \<times> ('e + 'a)" where
  "liftS res st = (st, res)"

definition map_errorS :: "('e \<Rightarrow> 'f) \<Rightarrow> ('s \<Rightarrow> 's \<times> ('e + 'a)) \<Rightarrow> 's \<Rightarrow> 's \<times> ('f + 'a)" where
  "map_errorS f m st = (case m st of (st', res) \<Rightarrow> (st', map_errorR f res))"

lemma liftS_iff [simp]: "liftS res st = (st', res') \<longleftrightarrow> st' = st \<and> res = res'"
  by (auto simp: liftS_def)

lemma map_errorS_Inr_iff [simp]: "map_errorS f m st = (st', Inr x) \<longleftrightarrow> m st = (st', Inr x)"
  by (auto simp: map_errorS_def split: prod.splits)

lemma bindS_Inr_iff:
  "bindS m f st = (st', Inr y) \<longleftrightarrow> (\<exists>st1 x. m st = (st1, Inr x) \<and> f x st1 = (st', Inr y))"
  by (auto simp: bindS_def split: prod.splits sum.splits)

lemma bindS_Inl_iff:
  "bindS m f st = (st', Inl e) \<longleftrightarrow> m st = (st', Inl e) \<or> (\<exists>st1 x. m st = (st1, Inr x) \<and> f x st1 = (st', Inl e))"
  by (auto simp: bindS_def split: prod.splits sum.splits)

lemma bindS_lift [simp]: "bindS (liftS (Inr x)) f = f x" "bindS (liftS (Inl e)) f = liftS (Inl e)"
  by (simp_all add: fun_eq_iff bindS_def liftS_def)

section \<open>Go maps\<close>

text \<open>
  A Go map is an association list with distinct keys; assignment is \<^const>\<open>AList.update\<close>. The order of
  the list stands for the unspecified iteration order.
\<close>

lemma distinct_keys_update [simp]: "distinct_keys m \<Longrightarrow> distinct_keys (AList.update k v m)"
  by (rule distinct_update)

lemma map_of_update [simp]: "map_of (AList.update k v m) = (map_of m)(k \<mapsto> v)"
  by (rule update_conv')

lemma update_new_key: "\<not> has_key m k \<Longrightarrow> AList.update k v m = m @ [(k, v)]"
  by (induction m) (auto split: if_splits)

section \<open>Decimal text: strconv\<close>

definition is_digit :: "char \<Rightarrow> bool" where
  "is_digit c \<longleftrightarrow> CHR ''0'' \<le> c \<and> c \<le> CHR ''9''"

definition digit_value :: "char \<Rightarrow> nat" where
  "digit_value c = of_char c - 48"

definition digit_char :: "nat \<Rightarrow> char" where
  "digit_char d = char_of (48 + d)"

fun nat_digits :: "nat \<Rightarrow> string" where
  "nat_digits n =
     (if n < 10 then [digit_char n] else nat_digits (n div 10) @ [digit_char (n mod 10)])"

declare nat_digits.simps [simp del]

definition digits_value :: "string \<Rightarrow> nat" where
  "digits_value s = foldl (\<lambda>acc c. 10 * acc + digit_value c) 0 s"

text \<open>\<open>strconv.FormatInt(i, 10)\<close> and \<open>fmt\<close>'s \<open>%d\<close>.\<close>

definition FormatInt :: "int \<Rightarrow> string" where
  "FormatInt i = (if i < 0 then CHR ''-'' # nat_digits (nat (- i)) else nat_digits (nat i))"

text \<open>\<open>strconv.ParseInt(s, 10, 64)\<close>: \<open>None\<close> is a syntax or range error.\<close>

definition ParseInt :: "string \<Rightarrow> int64 option" where
  "ParseInt s =
     (let neg = (case s of c # _ \<Rightarrow> c = CHR ''-'' | [] \<Rightarrow> False);
          body = (case s of c # cs \<Rightarrow> if c = CHR ''-'' \<or> c = CHR ''+'' then cs else s | [] \<Rightarrow> s);
          v = int (digits_value body)
      in if body = [] \<or> \<not> list_all is_digit body then None
         else if neg then (if v \<le> 9223372036854775808 then Some (- v) else None)
         else (if v \<le> max_int64 then Some v else None))"

lemma of_char_bound: "(of_char c :: nat) < 256"
  by simp

lemma is_digit_of_char: "is_digit c \<longleftrightarrow> 48 \<le> (of_char c :: nat) \<and> (of_char c :: nat) \<le> 57"
  by (simp add: is_digit_def less_eq_char_def)

lemma digit_char_inverse [simp]: "d < 10 \<Longrightarrow> digit_value (digit_char d) = d"
  by (simp add: digit_value_def digit_char_def)

lemma is_digit_digit_char [simp]: "d < 10 \<Longrightarrow> is_digit (digit_char d)"
  by (simp add: is_digit_of_char digit_char_def)

lemma nat_digits_nonempty [simp]: "nat_digits n \<noteq> []"
  by (subst nat_digits.simps) simp

lemma nat_digits_all: "list_all is_digit (nat_digits n)"
proof (induction n rule: nat_digits.induct)
  case (1 n)
  then show ?case by (subst nat_digits.simps) (auto simp: list_all_iff)
qed

lemma digits_value_snoc [simp]: "digits_value (s @ [c]) = 10 * digits_value s + digit_value c"
  by (simp add: digits_value_def)

lemma digits_value_nat_digits [simp]: "digits_value (nat_digits n) = n"
proof (induction n rule: nat_digits.induct)
  case (1 n)
  show ?case
  proof (cases "n < 10")
    case True
    then show ?thesis
      by (subst nat_digits.simps) (simp add: digits_value_def)
  next
    case False
    then show ?thesis
      using 1 by (subst nat_digits.simps) simp
  qed
qed

lemma nat_digits_inject [simp]: "nat_digits m = nat_digits n \<longleftrightarrow> m = n"
  by (metis digits_value_nat_digits)

lemma digit_not_sign: "is_digit c \<Longrightarrow> c \<noteq> CHR ''-'' \<and> c \<noteq> CHR ''+'' \<and> c \<noteq> CHR '':''"
  by (auto simp: is_digit_of_char)

lemma nat_digits_Cons: "\<exists>c cs. nat_digits n = c # cs \<and> is_digit c"
proof -
  obtain c cs where "nat_digits n = c # cs"
    by (meson list.exhaust nat_digits_nonempty)
  then show ?thesis using nat_digits_all [of n] by simp
qed

lemma ParseInt_FormatInt [simp]: "in_int64 i \<Longrightarrow> ParseInt (FormatInt i) = Some i"
proof (cases "i < 0")
  case True
  assume "in_int64 i"
  with True show ?thesis
    using nat_digits_all [of "nat (- i)"]
    by (auto simp: ParseInt_def FormatInt_def in_int64_def min_int64_def)
next
  case False
  assume "in_int64 i"
  moreover obtain c cs where "nat_digits (nat i) = c # cs" "is_digit c"
    using nat_digits_Cons by blast
  ultimately show ?thesis
    using False nat_digits_all [of "nat i"] digits_value_nat_digits [of "nat i"]
      digit_not_sign [of c]
    by (auto simp: ParseInt_def FormatInt_def in_int64_def simp del: digits_value_nat_digits)
qed

lemma nat_digits_not_minus [simp]: "nat_digits n \<noteq> CHR ''-'' # s" "CHR ''-'' # s \<noteq> nat_digits n"
  using nat_digits_Cons [of n] digit_not_sign [of "CHR ''-''"] by auto

lemma FormatInt_inject: "FormatInt i = FormatInt j \<longleftrightarrow> i = j"
  by (auto simp: FormatInt_def)

lemma ParseInt_in_int64: "ParseInt s = Some i \<Longrightarrow> in_int64 i"
  by (auto simp: ParseInt_def Let_def in_int64_def min_int64_def max_int64_def
      split: if_splits list.splits)

section \<open>Text: strings\<close>

text \<open>\<open>strings.Split(s, sep)\<close> for a separator of one byte.\<close>

fun split_byte :: "char \<Rightarrow> string \<Rightarrow> string list" where
  "split_byte c [] = [[]]"
| "split_byte c (x # xs) =
     (if x = c then [] # split_byte c xs
      else (case split_byte c xs of [] \<Rightarrow> [[x]] | y # ys \<Rightarrow> (x # y) # ys))"

lemma split_byte_nonempty [simp]: "split_byte c s \<noteq> []"
  by (induction s) (auto split: list.splits)

lemma split_byte_none [simp]: "c \<notin> set s \<Longrightarrow> split_byte c s = [s]"
  by (induction s) auto

lemma split_byte_append [simp]:
  "c \<notin> set a \<Longrightarrow> split_byte c (a @ c # b) = a # split_byte c b"
  by (induction a) auto

text \<open>\<open>strings.Join(parts, sep)\<close>.\<close>

fun join :: "string \<Rightarrow> string list \<Rightarrow> string" where
  "join sep [] = []"
| "join sep [x] = x"
| "join sep (x # y # xs) = x @ sep @ join sep (y # xs)"

lemma join_Cons: "ps \<noteq> [] \<Longrightarrow> join sep (p # ps) = p @ sep @ join sep ps"
  by (cases ps) simp_all

lemma join_split_byte: "join [c] (split_byte c s) = s"
proof (induction s)
  case (Cons x s)
  obtain y ys where "split_byte c s = y # ys"
    by (meson list.exhaust split_byte_nonempty)
  with Cons show ?case by (cases ys) auto
qed simp

lemma split_byte_eq_pair:
  "split_byte c s = [a, b] \<longleftrightarrow> s = a @ c # b \<and> c \<notin> set a \<and> c \<notin> set b"
proof
  have fresh: "p \<in> set (split_byte c t) \<Longrightarrow> c \<notin> set p" for p t
    by (induction t arbitrary: p) (auto split: if_splits list.splits)
  assume split: "split_byte c s = [a, b]"
  have "a @ c # b = s" using join_split_byte [of c s, unfolded split] by simp
  moreover have "c \<notin> set a" "c \<notin> set b" by (rule fresh [of _ s], simp add: split)+
  ultimately show "s = a @ c # b \<and> c \<notin> set a \<and> c \<notin> set b" by blast
next
  assume "s = a @ c # b \<and> c \<notin> set a \<and> c \<notin> set b"
  then show "split_byte c s = [a, b]" by simp
qed

text \<open>\<open>strings.ReplaceAll(s, old, new)\<close> for \<open>old\<close> of one byte.\<close>

definition replace_byte :: "char \<Rightarrow> string \<Rightarrow> string \<Rightarrow> string" where
  "replace_byte c r s = concat (map (\<lambda>x. if x = c then r else [x]) s)"

text \<open>
  \<open>strings.TrimSpace\<close>: the white space of Unicode as byte sequences, dropped at both ends.
\<close>

definition spaces :: "string list" where
  "spaces = map (map char_of)
     [[9], [10], [11], [12], [13], [32], [194, 133], [194, 160], [225, 154, 128 :: nat],
      [226, 128, 128], [226, 128, 129], [226, 128, 130], [226, 128, 131], [226, 128, 132],
      [226, 128, 133], [226, 128, 134], [226, 128, 135], [226, 128, 136], [226, 128, 137],
      [226, 128, 138], [226, 128, 168], [226, 128, 169], [226, 128, 175], [226, 129, 159],
      [227, 128, 128]]"

function trim_left :: "string list \<Rightarrow> string \<Rightarrow> string" where
  "trim_left ws s =
     (case find (\<lambda>w. w \<noteq> [] \<and> prefix w s) ws of
        None \<Rightarrow> s | Some w \<Rightarrow> trim_left ws (drop (length w) s))"
  by pat_completeness auto
termination
proof (relation "measure (\<lambda>(ws, s). length s)", simp)
  fix ws :: "string list" and s w :: string
  assume "find (\<lambda>w. w \<noteq> [] \<and> prefix w s) ws = Some w"
  then have "w \<noteq> []" "prefix w s" by (auto simp: find_Some_iff)
  then have "0 < length w" "length w \<le> length s" by (auto dest: prefix_length_le)
  then have "length s - length w < length s" by linarith
  then show "((ws, drop (length w) s), ws, s) \<in> measure (\<lambda>(ws, s). length s)" by simp
qed

declare trim_left.simps [simp del]

definition TrimSpace :: "string \<Rightarrow> string" where
  "TrimSpace s = rev (trim_left (map rev spaces) (rev (trim_left spaces s)))"

end
