(* ===== verification/Status_Code.thy ===== *)
theory Status_Code
  imports Orisun_Prelude
begin

text \<open>
  Errors of the program: \<^verbatim>\<open>internal/statuscode\<close> (transport-neutral codes) and
  \<^verbatim>\<open>internal/grpcstatus\<close> (the translation at the gRPC boundary).

  A Go \<open>error\<close> is a \<open>goerror\<close>. A formatted message is represented by its format string: the
  interpolated arguments of \<open>fmt.Errorf\<close> are not part of the model, its \<open>%w\<close> operand is.
\<close>

datatype Code = OK | Unknown | Canceled | InvalidArgument | DeadlineExceeded | NotFound
  | AlreadyExists | PermissionDenied | Unauthenticated | Unavailable | Unimplemented
  | FailedPrecondition | Internal

text \<open>The canonical codes of \<^verbatim>\<open>google.golang.org/grpc/codes\<close> the translation targets.\<close>

datatype grpc_code = GCanceled | GUnknown | GInvalidArgument | GDeadlineExceeded | GNotFound
  | GAlreadyExists | GPermissionDenied | GUnauthenticated | GUnavailable | GUnimplemented
  | GFailedPrecondition | GInternal

text \<open>
  \<open>Coded\<close> is \<open>*statuscode.Error\<close>, \<open>PlainError\<close> an \<open>errors.New\<close> or unwrapping \<open>fmt.Errorf\<close> value,
  \<open>WrapError\<close> a \<open>fmt.Errorf\<close> value with a \<open>%w\<close> operand, \<open>CtxCanceled\<close> and \<open>CtxDeadline\<close> the two
  sentinel errors of package \<open>context\<close>, \<open>GrpcError\<close> a status of the gRPC library.
\<close>

datatype goerror =
    Coded Code string
  | PlainError string
  | WrapError string goerror
  | CtxCanceled
  | CtxDeadline
  | GrpcError grpc_code string

type_synonym 'a result = "goerror + 'a"

fun error_text :: "goerror \<Rightarrow> string" where
  "error_text (Coded c m) = m"
| "error_text (PlainError m) = m"
| "error_text (WrapError m e) = m @ error_text e"
| "error_text CtxCanceled = ''context canceled''"
| "error_text CtxDeadline = ''context deadline exceeded''"
| "error_text (GrpcError c m) = m"

text \<open>\<open>errors.Is(err, target)\<close> for the sentinels, and \<open>errors.As(err, &coded)\<close>.\<close>

fun error_is :: "goerror \<Rightarrow> goerror \<Rightarrow> bool" where
  "error_is (WrapError m e) t \<longleftrightarrow> WrapError m e = t \<or> error_is e t"
| "error_is e t \<longleftrightarrow> e = t"

fun error_as :: "goerror \<Rightarrow> (Code \<times> string) option" where
  "error_as (Coded c m) = Some (c, m)"
| "error_as (WrapError m e) = error_as e"
| "error_as _ = None"

definition FromError :: "goerror \<Rightarrow> Code \<times> string \<times> bool" where
  "FromError err =
     (case error_as err of
        None \<Rightarrow> (Unknown, error_text err, False)
      | Some (code, message) \<Rightarrow> (code, message, True))"

definition CodeOf :: "goerror option \<Rightarrow> Code" where
  "CodeOf err =
     (case err of
        None \<Rightarrow> OK
      | Some e \<Rightarrow> (let (code, _, ok) = FromError e in if \<not> ok then Unknown else code))"

definition FromContextError :: "goerror \<Rightarrow> goerror" where
  "FromContextError err =
     (if error_is err CtxCanceled then Coded Canceled (error_text CtxCanceled)
      else if error_is err CtxDeadline then Coded DeadlineExceeded (error_text CtxDeadline)
      else Coded Unknown (error_text err))"

fun grpcCode :: "Code \<Rightarrow> grpc_code" where
  "grpcCode Canceled = GCanceled"
| "grpcCode InvalidArgument = GInvalidArgument"
| "grpcCode DeadlineExceeded = GDeadlineExceeded"
| "grpcCode NotFound = GNotFound"
| "grpcCode AlreadyExists = GAlreadyExists"
| "grpcCode PermissionDenied = GPermissionDenied"
| "grpcCode Unauthenticated = GUnauthenticated"
| "grpcCode Unavailable = GUnavailable"
| "grpcCode Unimplemented = GUnimplemented"
| "grpcCode FailedPrecondition = GFailedPrecondition"
| "grpcCode Internal = GInternal"
| "grpcCode _ = GUnknown"

definition grpc_FromError :: "goerror option \<Rightarrow> goerror option" where
  "grpc_FromError err =
     (case err of
        None \<Rightarrow> None
      | Some e \<Rightarrow>
          (let (code, message, ok) = FromError e
           in if \<not> ok then Some e else Some (GrpcError (grpcCode code) message)))"

section \<open>What the codes mean to a caller\<close>

abbreviation coded :: "Code \<Rightarrow> goerror \<Rightarrow> bool" where
  "coded c e \<equiv> CodeOf (Some e) = c"

lemma CodeOf_simps [simp]:
  "CodeOf None = OK"
  "CodeOf (Some (Coded c m)) = c"
  "CodeOf (Some (PlainError m)) = Unknown"
  "CodeOf (Some (WrapError m e)) = CodeOf (Some e)"
  "CodeOf (Some CtxCanceled) = Unknown"
  "CodeOf (Some CtxDeadline) = Unknown"
  by (simp_all add: CodeOf_def FromError_def split: option.split)

lemma grpcCode_inj:
  "grpcCode a = grpcCode b \<longleftrightarrow> a = b \<or> (a \<in> {OK, Unknown} \<and> b \<in> {OK, Unknown})"
  by (cases a; cases b) simp_all

end
