(* ===== verification/Query_Predicates.thy ===== *)
theory Query_Predicates
  imports Status_Code
begin

text \<open>
  Content queries: tags, criteria (conjunctions of tags) and queries (disjunctions of criteria),
  with the validation and the durable encoding of \<^verbatim>\<open>orisun/query_predicates.go\<close>.

  \<open>eventstore.Tag\<close>, \<open>orisun.Tag\<close> and \<open>orisun.ReadTag\<close> have the same three flds and are one
  record. A pointer that may be nil is an option.
\<close>

section \<open>JSON values\<close>

text \<open>
  A JSON document as decoded with \<open>UseNumber\<close>: a number is its token, an object the list of its
  members in document order.
\<close>

datatype json =
    JNull
  | JBool bool
  | JNum string
  | JStr string
  | JArr "json list"
  | JObj "(string \<times> json) list"

section \<open>Tags, criteria, queries\<close>

record Tag =
  Tag_Key :: string
  Tag_Value :: string
  Tag_Operator :: string

type_synonym ReadTag = Tag

record Criterion =
  Criterion_Tags :: "Tag option list"

record Query =
  Query_Criteria :: "Criterion option list"

record ReadCriterion =
  ReadCriterion_Tags :: "ReadTag list"

record TagPredicate =
  TagPredicate_Operator :: string
  TagPredicate_Value :: string

definition CanonicalTagOperator :: "string \<Rightarrow> string result" where
  "CanonicalTagOperator operator =
     (if operator = '''' \<or> operator = ''eq'' then Inr ''eq''
      else if operator \<in> {''ne'', ''gt'', ''gte'', ''lt'', ''lte''} then Inr operator
      else Inl (PlainError ''unsupported tag operator %q''))"

definition TagSQLOperator :: "string \<Rightarrow> string result" where
  "TagSQLOperator operator =
     bindR (CanonicalTagOperator operator) (\<lambda>op. Inr
       (case map_of [(''eq'', ''=''), (''ne'', ''<>''), (''gt'', ''>''), (''gte'', ''>=''),
                     (''lt'', ''<''), (''lte'', ''<='')] op of
          Some sql \<Rightarrow> sql | None \<Rightarrow> ''''))"

definition ValidateTag :: "string \<Rightarrow> string \<Rightarrow> string \<Rightarrow> unit result" where
  "ValidateTag key val operator =
     (if key = '''' then Inl (Coded InvalidArgument ''tag key cannot be empty'')
      else if CHR 0x00 \<in> set key \<or> CHR 0x00 \<in> set val
      then Inl (Coded InvalidArgument ''tag key and value cannot contain NUL'')
      else (case CanonicalTagOperator operator of
              Inl err \<Rightarrow> Inl (Coded InvalidArgument (error_text err))
            | Inr _ \<Rightarrow> Inr ()))"

abbreviation ValidTag :: "Tag \<Rightarrow> bool" where
  "ValidTag t \<equiv> ValidateTag (Tag_Key t) (Tag_Value t) (Tag_Operator t) = Inr ()"

definition ValidateQuery_criterion :: "Criterion option \<Rightarrow> unit result" where
  "ValidateQuery_criterion criterion =
     (case criterion of
        None \<Rightarrow> Inl (Coded InvalidArgument ''criterion cannot be nil'')
      | Some c \<Rightarrow>
          forR (\<lambda>tag. case tag of
                  None \<Rightarrow> Inl (Coded InvalidArgument ''tag cannot be nil'')
                | Some t \<Rightarrow> ValidateTag (Tag_Key t) (Tag_Value t) (Tag_Operator t))
               (Criterion_Tags c))"

definition ValidateQuery :: "Query option \<Rightarrow> unit result" where
  "ValidateQuery query =
     (case query of None \<Rightarrow> Inr () | Some q \<Rightarrow> forR ValidateQuery_criterion (Query_Criteria q))"

definition ValidateReadCriteria :: "ReadCriterion list \<Rightarrow> unit result" where
  "ValidateReadCriteria criteria =
     forR (\<lambda>criterion.
             forR (\<lambda>t. ValidateTag (Tag_Key t) (Tag_Value t) (Tag_Operator t))
                  (ReadCriterion_Tags criterion))
          criteria"

section \<open>The durable encoding of a criterion\<close>

text \<open>
  The dynamic type \<open>any\<close> of an encoded field: a string, a \<open>[]TagPredicate\<close> held in memory, or
  what a JSON decoder produced.
\<close>

datatype encoded_field =
    FString string
  | FPredicates "TagPredicate list"
  | FJson json

type_synonym encoded_criterion = "(string \<times> encoded_field) list"

definition EncodeCriterion_add ::
    "(string \<times> TagPredicate list) list \<Rightarrow> ReadTag \<Rightarrow> (string \<times> TagPredicate list) list" where
  "EncodeCriterion_add flds tag =
     (let op = (if Tag_Operator tag = '''' then ''eq'' else Tag_Operator tag);
          previous = (case map_of flds (Tag_Key tag) of None \<Rightarrow> [] | Some ps \<Rightarrow> ps)
      in AList.update (Tag_Key tag)
           (previous @ [\<lparr>TagPredicate_Operator = op, TagPredicate_Value = Tag_Value tag\<rparr>]) flds)"

fun encode_predicates :: "TagPredicate list \<Rightarrow> encoded_field" where
  "encode_predicates [p] =
     (if TagPredicate_Operator p = ''eq'' then FString (TagPredicate_Value p) else FPredicates [p])"
| "encode_predicates ps = FPredicates ps"

definition EncodeCriterion :: "ReadTag list \<Rightarrow> encoded_criterion" where
  "EncodeCriterion tags =
     map (\<lambda>(key, predicates). (key, encode_predicates predicates))
       (foldl EncodeCriterion_add [] tags)"

definition EncodeReadCriteria :: "ReadCriterion list \<Rightarrow> encoded_criterion list" where
  "EncodeReadCriteria criteria = map (\<lambda>criterion. EncodeCriterion (ReadCriterion_Tags criterion)) criteria"

text \<open>
  \<open>EncodeQueryCriteria\<close> dereferences every criterion and tag pointer: \<open>None\<close> is the panic on a nil
  one. A nil query encodes to a nil slice.
\<close>

definition query_read_criteria :: "Query \<Rightarrow> ReadCriterion list option" where
  "query_read_criteria query =
     those (map (\<lambda>criterion.
              case criterion of
                None \<Rightarrow> None
              | Some c \<Rightarrow> map_option (\<lambda>tags. \<lparr>ReadCriterion_Tags = tags\<rparr>) (those (Criterion_Tags c)))
            (Query_Criteria query))"

definition EncodeQueryCriteria :: "Query option \<Rightarrow> encoded_criterion list option" where
  "EncodeQueryCriteria query =
     (case query of
        None \<Rightarrow> Some []
      | Some q \<Rightarrow> map_option EncodeReadCriteria (query_read_criteria q))"

text \<open>
  \<open>redecode\<close> stands for \<^verbatim>\<open>goccy/go-json\<close>: it marshals a decoded value and unmarshals the text
  into a \<open>[]TagPredicate\<close>.
\<close>

definition DecodeTagPredicates ::
    "(json \<Rightarrow> TagPredicate list result) \<Rightarrow> encoded_field \<Rightarrow> TagPredicate list result" where
  "DecodeTagPredicates redecode val =
     (case val of
        FString text \<Rightarrow> Inr [\<lparr>TagPredicate_Operator = ''eq'', TagPredicate_Value = text\<rparr>]
      | FPredicates predicates \<Rightarrow> Inr predicates
      | FJson j \<Rightarrow>
          (case redecode j of
             Inl err \<Rightarrow> Inl (WrapError ''invalid tag predicates: '' err)
           | Inr predicates \<Rightarrow>
               if length predicates = 0 then Inl (PlainError ''tag predicates cannot be empty'')
               else Inr predicates))"

definition decode_predicate :: "string \<Rightarrow> TagPredicate \<Rightarrow> ReadTag result" where
  "decode_predicate key predicate =
     bindR (ValidateTag key (TagPredicate_Value predicate) (TagPredicate_Operator predicate)) (\<lambda>_.
       Inr \<lparr>Tag_Key = key, Tag_Value = TagPredicate_Value predicate,
            Tag_Operator = (if TagPredicate_Operator predicate = ''eq'' then ''''
                            else TagPredicate_Operator predicate)\<rparr>)"

text \<open>The keys are collected and sorted; \<open>flds[key]\<close> is a lookup of a present key.\<close>

definition DecodeCriterion ::
    "(json \<Rightarrow> TagPredicate list result) \<Rightarrow> encoded_criterion \<Rightarrow> ReadTag list result" where
  "DecodeCriterion redecode flds =
     (let keys = sort (map fst flds)
      in bindR (mapR (\<lambda>key.
             bindR (DecodeTagPredicates redecode (the (map_of flds key)))
               (mapR (decode_predicate key))) keys)
           (\<lambda>tags. Inr (concat tags)))"

section \<open>Validation, characterised\<close>

definition operators :: "string set" where
  "operators = {'''', ''eq'', ''ne'', ''gt'', ''gte'', ''lt'', ''lte''}"

lemma CanonicalTagOperator_ok:
  "CanonicalTagOperator op = Inr c \<longleftrightarrow> op \<in> operators \<and> c = (if op = '''' then ''eq'' else op)"
  by (auto simp: CanonicalTagOperator_def operators_def)

lemma CanonicalTagOperator_error:
  "op \<notin> operators \<Longrightarrow> \<exists>e. CanonicalTagOperator op = Inl e"
  by (auto simp: CanonicalTagOperator_def operators_def)

lemma ValidateTag_ok:
  "ValidateTag k v op = Inr () \<longleftrightarrow>
     k \<noteq> [] \<and> CHR 0x00 \<notin> set k \<and> CHR 0x00 \<notin> set v \<and> op \<in> operators"
  using CanonicalTagOperator_ok [of op "if op = [] then ''eq'' else op"]
    CanonicalTagOperator_error [of op]
  by (auto simp: ValidateTag_def split: sum.splits)

lemma ValidateTag_error_code: "ValidateTag k v op = Inl e \<Longrightarrow> coded InvalidArgument e"
  by (auto simp: ValidateTag_def split: if_splits sum.splits)

lemma ValidateReadCriteria_ok:
  "ValidateReadCriteria cs = Inr () \<longleftrightarrow> (\<forall>c\<in>set cs. \<forall>t\<in>set (ReadCriterion_Tags c). ValidTag t)"
  by (simp add: ValidateReadCriteria_def forR_ok list_all_iff)

lemma those_Some_iff: "those xs = Some ys \<longleftrightarrow> xs = map Some ys"
  by (induction xs arbitrary: ys) (auto split: option.splits)

lemma ValidateQuery_criterion_ok:
  "ValidateQuery_criterion c = Inr () \<longleftrightarrow>
     (\<exists>tags. c = Some \<lparr>Criterion_Tags = map Some tags\<rparr> \<and> list_all ValidTag tags)"
proof (cases c)
  case (Some crit)
  obtain ts where crit: "crit = \<lparr>Criterion_Tags = ts\<rparr>" by (cases crit) auto
  have "list_all (\<lambda>x. (case x of None \<Rightarrow> Inl (Coded InvalidArgument ''tag cannot be nil'')
              | Some t \<Rightarrow> ValidateTag (Tag_Key t) (Tag_Value t) (Tag_Operator t)) = Inr ()) ts
        \<longleftrightarrow> (\<exists>tags. ts = map Some tags \<and> list_all ValidTag tags)"
    by (induction ts) (auto simp: Cons_eq_map_conv split: option.splits)
  then show ?thesis
    using Some crit by (simp add: ValidateQuery_criterion_def forR_ok)
qed (simp add: ValidateQuery_criterion_def)

text \<open>A query that \<open>ValidateQuery\<close> accepts has no nil pointer: \<open>EncodeQueryCriteria\<close> cannot panic.\<close>

lemma ValidateQuery_no_panic:
  assumes "ValidateQuery q = Inr ()"
  shows "\<exists>enc. EncodeQueryCriteria q = Some enc"
proof (cases q)
  case (Some query)
  then have "\<forall>c\<in>set (Query_Criteria query). ValidateQuery_criterion c = Inr ()"
    using assms by (simp add: ValidateQuery_def forR_ok list_all_iff)
  then have "\<exists>cs. query_read_criteria query = Some cs"
    unfolding query_read_criteria_def
  proof (induction "Query_Criteria query" arbitrary: query)
    case (Cons c cs)
    from Cons(2) have "c \<in> set (Query_Criteria query)" by (metis list.set_intros(1))
    with Cons.prems obtain tags where c: "c = Some \<lparr>Criterion_Tags = map Some tags\<rparr>"
      by (auto simp: ValidateQuery_criterion_ok)
    have tags: "those (map Some tags) = Some tags" by (simp add: those_Some_iff)
    from Cons(1) [of "\<lparr>Query_Criteria = cs\<rparr>"] Cons(2) Cons.prems
    have "\<exists>rs. those (map (\<lambda>criterion. case criterion of None \<Rightarrow> None
       | Some c \<Rightarrow> map_option (\<lambda>tags. \<lparr>ReadCriterion_Tags = tags\<rparr>) (those (Criterion_Tags c))) cs)
       = Some rs" by (metis Query.select_convs(1) list.set_intros(2))
    then show ?case using c tags by (auto simp flip: Cons(2))
  qed simp
  then show ?thesis using Some by (auto simp: EncodeQueryCriteria_def)
qed (simp add: EncodeQueryCriteria_def)

lemma query_read_criteria_valid:
  assumes "ValidateQuery (Some q) = Inr ()" "query_read_criteria q = Some cs" "c \<in> set cs"
  shows "list_all ValidTag (ReadCriterion_Tags c)"
proof -
  let ?f = "\<lambda>criterion. case criterion of None \<Rightarrow> None
     | Some c \<Rightarrow> map_option (\<lambda>tags. \<lparr>ReadCriterion_Tags = tags\<rparr>) (those (Criterion_Tags c))"
  from assms(2) have "map ?f (Query_Criteria q) = map Some cs"
    by (simp add: query_read_criteria_def those_Some_iff)
  moreover have "Some c \<in> set (map Some cs)" using assms(3) by simp
  ultimately have "Some c \<in> set (map ?f (Query_Criteria q))" by simp
  then obtain oc where oc: "oc \<in> set (Query_Criteria q)" "?f oc = Some c" by auto
  moreover from oc(1) assms(1) have "ValidateQuery_criterion oc = Inr ()"
    by (simp add: ValidateQuery_def forR_ok list_all_iff)
  ultimately show ?thesis
    by (auto simp: ValidateQuery_criterion_ok those_Some_iff list_all_iff split: option.splits)
qed

section \<open>Encoding then decoding a criterion\<close>

definition predicate_of :: "ReadTag \<Rightarrow> TagPredicate" where
  "predicate_of t = \<lparr>TagPredicate_Operator = (if Tag_Operator t = '''' then ''eq'' else Tag_Operator t),
     TagPredicate_Value = Tag_Value t\<rparr>"

definition canonical_tag :: "ReadTag \<Rightarrow> ReadTag" where
  "canonical_tag t = t\<lparr>Tag_Operator := (if Tag_Operator t = ''eq'' then '''' else Tag_Operator t)\<rparr>"

abbreviation tags_with_key :: "string \<Rightarrow> ReadTag list \<Rightarrow> ReadTag list" where
  "tags_with_key k tags \<equiv> filter (\<lambda>t. Tag_Key t = k) tags"

lemma grouped_fields:
  "map_of (foldl EncodeCriterion_add [] tags) k =
     (if tags_with_key k tags = [] then None else Some (map predicate_of (tags_with_key k tags)))"
  by (induction tags rule: rev_induct)
    (auto simp: EncodeCriterion_add_def predicate_of_def Let_def split: option.splits if_splits)

lemma grouped_keys:
  "distinct_keys (foldl EncodeCriterion_add [] tags) \<and>
   fst ` set (foldl EncodeCriterion_add [] tags) = Tag_Key ` set tags"
  by (induction tags rule: rev_induct)
    (simp_all add: EncodeCriterion_add_def Let_def dom_update)

lemma EncodeCriterion_lookup:
  "map_of (EncodeCriterion tags) k =
     (if tags_with_key k tags = [] then None
      else Some (encode_predicates (map predicate_of (tags_with_key k tags))))"
  by (simp add: EncodeCriterion_def map_of_map grouped_fields)

lemma EncodeCriterion_keys:
  "distinct_keys (EncodeCriterion tags)"
  "fst ` set (EncodeCriterion tags) = Tag_Key ` set tags"
  using grouped_keys [of tags]
  by (simp_all add: EncodeCriterion_def comp_def case_prod_unfold image_image)

lemma DecodeTagPredicates_encode [simp]:
  "DecodeTagPredicates redecode (encode_predicates ps) = Inr ps"
proof (cases ps rule: encode_predicates.cases)
  case (1 p)
  then show ?thesis by (cases p) (simp add: DecodeTagPredicates_def)
qed (simp_all add: DecodeTagPredicates_def)

lemma decode_predicate_of:
  "decode_predicate (Tag_Key t) (predicate_of t) =
     (case ValidateTag (Tag_Key t) (Tag_Value t) (Tag_Operator t) of
        Inl e \<Rightarrow> Inl e | Inr _ \<Rightarrow> Inr (canonical_tag t))"
  by (cases t) (auto simp: decode_predicate_def predicate_of_def canonical_tag_def ValidateTag_def
      CanonicalTagOperator_def split: sum.splits)

lemma mapR_cong_Inr: "\<forall>x\<in>set xs. f x = Inr (g x) \<Longrightarrow> mapR f xs = Inr (map g xs)"
  by (induction xs) auto

lemma mapR_map [simp]: "mapR f (map g xs) = mapR (\<lambda>x. f (g x)) xs"
  by (induction xs) simp_all

lemma mapR_decode_group:
  assumes "\<forall>t\<in>set ts. Tag_Key t = k \<and> ValidTag t"
  shows "mapR (decode_predicate k) (map predicate_of ts) = Inr (map canonical_tag ts)"
  unfolding mapR_map
proof (rule mapR_cong_Inr, rule ballI)
  fix t assume "t \<in> set ts"
  then show "decode_predicate k (predicate_of t) = Inr (canonical_tag t)"
    using assms decode_predicate_of [of t] by auto
qed

lemma sorted_same_key: "sorted (map f (filter (\<lambda>x. f x = k) xs))"
  by (induction xs) auto

lemma concat_groups:
  assumes "set ks = Tag_Key ` set tags" "distinct ks" "sorted ks"
  shows "sort_key Tag_Key tags = concat (map (\<lambda>k. tags_with_key k tags) ks)"
proof (rule properties_for_sort_key)
  have count: "count (mset (concat (map (\<lambda>k. tags_with_key k tags) l))) t =
      (if Tag_Key t \<in> set l then count (mset tags) t else 0)" if "distinct l" for l t
    using that by (induction l) (auto simp: count_mset_0_iff)
  show "mset (concat (map (\<lambda>k. tags_with_key k tags) ks)) = mset tags"
    by (rule multiset_eqI) (use assms in \<open>auto simp: count count_mset_0_iff\<close>)
  have filt: "filter (\<lambda>x. k = Tag_Key x) (concat (map (\<lambda>k. tags_with_key k tags) l)) =
      (if k \<in> set l then tags_with_key k tags else [])" if "distinct l" for l k
    using that by (induction l) (auto simp: filter_empty_conv intro: filter_cong)
  fix t assume "t \<in> set (concat (map (\<lambda>k. tags_with_key k tags) ks))"
  then show "filter (\<lambda>x. Tag_Key t = Tag_Key x) (concat (map (\<lambda>k. tags_with_key k tags) ks)) =
      filter (\<lambda>x. Tag_Key t = Tag_Key x) tags"
    using assms by (auto simp: filt intro: filter_cong)
next
  have "sorted (map Tag_Key (concat (map (\<lambda>k. tags_with_key k tags) l)))" if "sorted l" for l
    using that by (induction l) (auto simp: sorted_append sorted_same_key)
  then show "sorted (map Tag_Key (concat (map (\<lambda>k. tags_with_key k tags) ks)))"
    using assms by blast
qed

lemma DecodeCriterion_EncodeCriterion:
  assumes "list_all ValidTag tags"
  shows "DecodeCriterion redecode (EncodeCriterion tags) =
           Inr (map canonical_tag (sort_key Tag_Key tags))"
proof -
  let ?ks = "sort (map fst (EncodeCriterion tags))"
  have ks: "set ?ks = Tag_Key ` set tags" "distinct ?ks" "sorted ?ks"
    using EncodeCriterion_keys [of tags] by auto
  have "mapR (\<lambda>key. bindR (DecodeTagPredicates redecode (the (map_of (EncodeCriterion tags) key)))
          (mapR (decode_predicate key))) ?ks =
        Inr (map (\<lambda>k. map canonical_tag (tags_with_key k tags)) ?ks)"
  proof (rule mapR_cong_Inr, rule ballI)
    fix k assume "k \<in> set ?ks"
    then have "tags_with_key k tags \<noteq> []" using ks(1) by (auto simp: filter_empty_conv)
    then show "bindR (DecodeTagPredicates redecode (the (map_of (EncodeCriterion tags) k)))
        (mapR (decode_predicate k)) = Inr (map canonical_tag (tags_with_key k tags))"
      using assms
      by (subst mapR_decode_group [symmetric])
        (auto simp: EncodeCriterion_lookup list_all_iff simp del: mapR_map)
  qed
  then show ?thesis
    by (simp add: DecodeCriterion_def concat_groups [OF ks] map_concat comp_def)
qed

text \<open>
  C25. The durable encoding of a criterion loses nothing: decoding the encoding of valid tags gives them
  back, in the order of their keys and with their operators in canonical form.
\<close>

theorem criterion_encoding_roundtrip:
  assumes "list_all ValidTag tags"
  shows "DecodeCriterion redecode (EncodeCriterion tags) = Inr (map canonical_tag (sort_key Tag_Key tags))"
  by (rule DecodeCriterion_EncodeCriterion [OF assms])

definition example_tags :: "ReadTag list" where
  "example_tags =
     [\<lparr>Tag_Key = ''total'', Tag_Value = ''10'', Tag_Operator = ''gt''\<rparr>,
      \<lparr>Tag_Key = ''id'', Tag_Value = ''7'', Tag_Operator = ''eq''\<rparr>,
      \<lparr>Tag_Key = ''total'', Tag_Value = ''20'', Tag_Operator = ''lte''\<rparr>]"

theorem criterion_encoding_roundtrip_witness:
  "list_all ValidTag example_tags \<and>
   DecodeCriterion (\<lambda>_. Inr []) (EncodeCriterion example_tags) =
     Inr (map canonical_tag (sort_key Tag_Key example_tags))"
proof -
  have "list_all ValidTag example_tags" by code_simp
  then show ?thesis using criterion_encoding_roundtrip [of example_tags "\<lambda>_. Inr []"] by blast
qed

end
