(* ===== verification/Event_Data.thy ===== *)
theory Event_Data
  imports Query_Predicates
begin

text \<open>
  Event documents: \<^verbatim>\<open>internal/eventdata\<close> (\<open>ParseObject\<close>, \<open>WithFields\<close>,
  \<open>WithoutStorageEnvelope\<close>, \<open>IsReservedKey\<close>) and the preparation of events for saving in
  \<^verbatim>\<open>orisun/eventstore_core.go\<close> and \<^verbatim>\<open>orisun/eventstore.go\<close>.

  A Go string or byte slice that is read as JSON text is represented by what it parses to
  (\<open>Json\<close>), or is \<open>NotJson\<close> (the empty string is \<open>NotJson []\<close>). White space and the order of
  members are not part of the representation of a re-encoded map: Go marshals the keys of a map in
  sorted order.
\<close>

datatype json_text = Json json | NotJson string

abbreviation empty_text :: json_text where
  "empty_text \<equiv> NotJson []"

section \<open>Objects\<close>

text \<open>\<open>json.Unmarshal\<close> into a \<open>map[string]json.RawMessage\<close>: a later member wins, \<open>null\<close> leaves a nil map.\<close>

definition object_map :: "(string \<times> json) list \<Rightarrow> (string \<times> json) list" where
  "object_map members = foldl (\<lambda>m (k, v). AList.update k v m) [] members"

definition unmarshal_object :: "json_text \<Rightarrow> (string \<times> json) list option result" where
  "unmarshal_object text =
     (case text of
        Json (JObj members) \<Rightarrow> Inr (Some (object_map members))
      | Json JNull \<Rightarrow> Inr None
      | _ \<Rightarrow> Inl (PlainError ''json: cannot unmarshal into a map''))"

definition marshal_object :: "(string \<times> json) list \<Rightarrow> json_text" where
  "marshal_object m = Json (JObj (sort_key fst m))"

definition IsReservedKey :: "string \<Rightarrow> bool" where
  "IsReservedKey key \<longleftrightarrow> prefix ''__'' key"

record Object =
  Object_fields :: "(string \<times> json) list option"

definition ParseObject :: "json_text \<Rightarrow> Object result" where
  "ParseObject data =
     bindR (unmarshal_object data) (\<lambda>m.
       case m of
         None \<Rightarrow> Inl (PlainError ''event data must be an object'')
       | Some flds \<Rightarrow> Inr \<lparr>Object_fields = Some flds\<rparr>)"

text \<open>
  The values are \<open>any\<close>: a string, an integer or a \<open>json.RawMessage\<close>, given by the text they marshal
  to. Marshalling fails on raw text that is not JSON.
\<close>

definition marshal_text :: "json_text \<Rightarrow> json result" where
  "marshal_text t = (case t of Json j \<Rightarrow> Inr j | NotJson _ \<Rightarrow> Inl (PlainError ''json: invalid raw message''))"

definition Object_WithFields :: "Object \<Rightarrow> (string \<times> json_text) list \<Rightarrow> json_text result" where
  "Object_WithFields object vals =
     (case Object_fields object of
        None \<Rightarrow> Inl (PlainError ''event data must be an object'')
      | Some flds \<Rightarrow>
          let kept = map (\<lambda>(k, v). (k, Json v)) (filter (\<lambda>(k, _). \<not> has_key vals k) flds);
              merged = foldl (\<lambda>m (k, v). AList.update k v m) kept vals
          in bindR (mapR (\<lambda>(k, t). bindR (marshal_text t) (\<lambda>j. Inr (k, j))) merged)
               (\<lambda>encoded. Inr (marshal_object encoded)))"

definition WithFields :: "json_text \<Rightarrow> (string \<times> json_text) list \<Rightarrow> json_text result" where
  "WithFields data vals = bindR (ParseObject data) (\<lambda>object. Object_WithFields object vals)"

definition MetadataValue :: "json_text \<Rightarrow> json_text" where
  "MetadataValue metadata = (if metadata = empty_text then Json JNull else metadata)"

definition WithoutStorageEnvelope :: "json_text \<Rightarrow> json_text" where
  "WithoutStorageEnvelope encoded =
     (if encoded = empty_text then encoded
      else (case unmarshal_object encoded of
              Inl _ \<Rightarrow> encoded
            | Inr None \<Rightarrow> encoded
            | Inr (Some object) \<Rightarrow>
                let public = filter (\<lambda>(k, _). \<not> IsReservedKey k) object
                in if length public = length object then encoded else marshal_object public))"

section \<open>Preparation of events\<close>

text \<open>
  The \<open>any\<close> a caller supplies: nil, text (\<open>string\<close> or \<open>[]byte\<close>), or another value, given by the
  outcome of \<open>json.Marshal\<close> on it.
\<close>

datatype any_input = InputNil | InputText json_text | InputValue "json result"

record PreparedEvent =
  PreparedEvent_EventId :: string
  PreparedEvent_EventType :: string
  PreparedEvent_DataJSON :: json_text
  PreparedEvent_MetadataJSON :: json_text

record EventWithMapTags =
  MapEvent_EventId :: string
  MapEvent_EventType :: string
  MapEvent_Data :: any_input
  MapEvent_Metadata :: any_input

record EventToSave =
  EventToSave_EventId :: string
  EventToSave_EventType :: string
  EventToSave_Data :: json_text
  EventToSave_Metadata :: json_text

definition prepareJSONObjectJSON :: "any_input \<Rightarrow> bool \<Rightarrow> json_text result" where
  "prepareJSONObjectJSON val validateData =
     bindR (case val of
              InputNil \<Rightarrow> Inr (Some [])
            | InputText t \<Rightarrow> if t = empty_text then Inr (Some []) else unmarshal_object t
            | InputValue encoded \<Rightarrow> bindR encoded (\<lambda>j. unmarshal_object (Json j)))
       (\<lambda>m. let object = (case m of None \<Rightarrow> [] | Some flds \<Rightarrow> flds)
            in if validateData \<and> list_ex (\<lambda>(k, _). IsReservedKey k) object
               then Inl (PlainError ''top-level field %q is reserved for Orisun (prefix __)'')
               else Inr (marshal_object object))"

definition prepareEventDataJSON :: "any_input \<Rightarrow> json_text result" where
  "prepareEventDataJSON val = prepareJSONObjectJSON val True"

definition prepareJSONValue :: "any_input \<Rightarrow> json_text result" where
  "prepareJSONValue val =
     (case val of
        InputNil \<Rightarrow> Inr (Json (JObj []))
      | InputText t \<Rightarrow>
          if t = empty_text then Inr (Json (JObj []))
          else (case t of Json _ \<Rightarrow> Inr t | NotJson _ \<Rightarrow> Inl (PlainError ''invalid JSON''))
      | InputValue encoded \<Rightarrow> bindR encoded (\<lambda>j. Inr (Json j)))"

definition PrepareEventsForSave :: "EventWithMapTags list \<Rightarrow> PreparedEvent list result" where
  "PrepareEventsForSave events =
     mapR (\<lambda>event.
       bindR (map_errorR (WrapError ''event %d data: '') (prepareEventDataJSON (MapEvent_Data event)))
         (\<lambda>dataJSON.
       bindR (map_errorR (WrapError ''event %d metadata: '') (prepareJSONValue (MapEvent_Metadata event)))
         (\<lambda>metadataJSON.
       Inr \<lparr>PreparedEvent_EventId = MapEvent_EventId event,
            PreparedEvent_EventType = MapEvent_EventType event,
            PreparedEvent_DataJSON = dataJSON,
            PreparedEvent_MetadataJSON = metadataJSON\<rparr>))) events"

definition prepareRequestedEventsForSave :: "EventToSave option list \<Rightarrow> PreparedEvent list result" where
  "prepareRequestedEventsForSave events =
     mapR (\<lambda>event.
       case event of
         None \<Rightarrow> Inl (PlainError ''event %d is nil'')
       | Some e \<Rightarrow>
           bindR (map_errorR (WrapError ''event %d data: '')
                    (prepareEventDataJSON (InputText (EventToSave_Data e)))) (\<lambda>dataJSON.
           bindR (map_errorR (WrapError ''event %d metadata: '')
                    (prepareJSONObjectJSON (InputText (EventToSave_Metadata e)) False)) (\<lambda>metadataJSON.
           Inr \<lparr>PreparedEvent_EventId = EventToSave_EventId e,
                PreparedEvent_EventType = EventToSave_EventType e,
                PreparedEvent_DataJSON = dataJSON,
                PreparedEvent_MetadataJSON = metadataJSON\<rparr>))) events"

section \<open>Documents as maps\<close>

lemma map_of_foldl_update:
  "map_of (foldl (\<lambda>m (k, v). AList.update k v m) m0 vs) k =
     (case map_of (rev vs) k of Some v \<Rightarrow> Some v | None \<Rightarrow> map_of m0 k)"
  by (induction vs rule: rev_induct) (auto split: prod.splits option.splits)

lemma foldl_update_keys:
  assumes "distinct_keys m0"
  shows "distinct_keys (foldl (\<lambda>m (k, v). AList.update k v m) m0 vs)"
  using assms by (induction vs rule: rev_induct) (auto split: prod.splits)

lemma object_map_keys [simp]: "distinct_keys (object_map ms)"
  unfolding object_map_def by (rule foldl_update_keys) simp

lemma object_map_id: "distinct_keys ms \<Longrightarrow> object_map ms = ms"
proof (induction ms rule: rev_induct)
  case (snoc x ms)
  obtain k v where x: "x = (k, v)" by (cases x)
  have "\<not> has_key ms k" using snoc.prems x by (simp add: map_of_eq_None_iff)
  then show ?case using snoc x update_new_key [of ms k v] by (simp add: object_map_def)
qed (simp add: object_map_def)

lemma distinct_keys_sort [simp]: "distinct_keys (sort_key f m) \<longleftrightarrow> distinct_keys m"
  by (rule mset_eq_imp_distinct_iff) simp

lemma map_of_sort_key: "distinct_keys m \<Longrightarrow> map_of (sort_key f m) = map_of m"
  by (rule map_of_inject_set [THEN iffD2]) auto

lemma map_of_filter_keys:
  "map_of (filter (\<lambda>(k, _). P k) m) k = (if P k then map_of m k else None)"
  by (induction m) auto

lemma distinct_keys_filter: "distinct_keys m \<Longrightarrow> distinct_keys (filter P m)"
  by (induction m) auto

text \<open>A document as \<open>marshal_object\<close> writes it.\<close>

definition sorted_object :: "(string \<times> json) list \<Rightarrow> bool" where
  "sorted_object ms \<longleftrightarrow> sorted (map fst ms) \<and> distinct_keys ms"

lemma sorted_object_unique:
  assumes "sorted_object a" "sorted_object b" "map_of a = map_of b"
  shows "a = b"
proof -
  have dom: "fst ` set a = fst ` set b" using assms(3) by (metis dom_map_of_conv_image_fst)
  have keys: "map fst a = map fst b"
    using assms(1,2) dom unfolding sorted_object_def
    by (intro sorted_distinct_set_unique) auto
  have eq: "map (\<lambda>k. (k, the (map_of m k))) (map fst m) = m" if "distinct_keys m" for m :: "(string \<times> json) list"
    using that unfolding map_map by (intro map_idI) (auto simp: comp_def)
  show ?thesis
    using eq [of a] eq [of b] keys assms unfolding sorted_object_def by metis
qed

lemma marshal_object_sorted:
  "distinct_keys m \<Longrightarrow> \<exists>ms. marshal_object m = Json (JObj ms) \<and> sorted_object ms \<and> map_of ms = map_of m"
  unfolding marshal_object_def sorted_object_def
  by (intro exI [of _ "sort_key fst m"]) (auto simp: map_of_sort_key)

lemma unmarshal_sorted [simp]:
  "sorted_object ms \<Longrightarrow> unmarshal_object (Json (JObj ms)) = Inr (Some ms)"
  by (simp add: unmarshal_object_def object_map_id sorted_object_def)

lemma marshal_object_unique:
  assumes "distinct_keys m" "sorted_object ms" "map_of m = map_of ms"
  shows "marshal_object m = Json (JObj ms)"
  using marshal_object_sorted [OF assms(1)] sorted_object_unique assms(2,3) by auto

section \<open>The storage envelope\<close>

abbreviation texts :: "(string \<times> json) list \<Rightarrow> (string \<times> json_text) list" where
  "texts m \<equiv> map (\<lambda>(k, v). (k, Json v)) m"

lemma mapR_texts: "mapR (\<lambda>(k, t). bindR (marshal_text t) (\<lambda>j. Inr (k, j))) (texts m) = Inr m"
  by (induction m) (auto simp: marshal_text_def)

lemma update_texts: "AList.update k (Json v) (texts m) = texts (AList.update k v m)"
  by (induction m) auto

lemma foldl_texts:
  "foldl (\<lambda>m (k, v). AList.update k v m) (texts m) (texts vs) =
     texts (foldl (\<lambda>m (k, v). AList.update k v m) m vs)"
  by (induction vs arbitrary: m) (auto simp: update_texts)

lemma map_of_texts: "map_of (texts m) k = map_option Json (map_of m k)"
  by (induction m) auto

text \<open>
  \<open>WithFields\<close> on valid values: the supplied fields replace those of the object, the others stay.
\<close>

lemma Object_WithFields_ok:
  assumes "distinct_keys flds" "distinct_keys vs"
  shows "\<exists>ms. Object_WithFields \<lparr>Object_fields = Some flds\<rparr> (texts vs) = Inr (Json (JObj ms)) \<and>
     sorted_object ms \<and> map_of ms = map_of flds ++ map_of vs"
proof -
  let ?kept = "filter (\<lambda>(k, _). \<not> has_key vs k) flds"
  let ?merged = "foldl (\<lambda>m (k, v). AList.update k v m) ?kept vs"
  have dist: "distinct_keys ?merged"
    using assms(1) by (intro foldl_update_keys distinct_keys_filter)
  have same: "filter (\<lambda>(k, _). \<not> has_key (texts vs) k) flds = ?kept"
    by (simp add: map_of_texts)
  have map: "map_of ?merged = map_of flds ++ map_of vs"
  proof
    fix k
    have "map_of (rev vs) k = map_of vs k"
      using assms(2) by (metis distinct_rev map_of_inject_set rev_map set_rev)
    then show "map_of ?merged k = (map_of flds ++ map_of vs) k"
      by (auto simp: map_of_foldl_update map_of_filter_keys map_add_def split: option.splits)
  qed
  obtain ms where "marshal_object ?merged = Json (JObj ms)" "sorted_object ms" "map_of ms = map_of ?merged"
    using marshal_object_sorted [OF dist] by blast
  then show ?thesis
    using map by (simp add: Object_WithFields_def Let_def same map_of_texts foldl_texts mapR_texts del: mapR_map)
qed

lemma WithoutStorageEnvelope_object:
  assumes "sorted_object ms" "sorted_object ps"
    "\<And>k. map_of ps k = (if IsReservedKey k then None else map_of ms k)"
  shows "WithoutStorageEnvelope (Json (JObj ms)) = Json (JObj ps)"
proof -
  let ?public = "filter (\<lambda>(k, _). \<not> IsReservedKey k) ms"
  have dist: "distinct_keys ?public" using assms(1) by (simp add: sorted_object_def distinct_keys_filter)
  have map: "map_of ?public = map_of ps" by (rule ext) (simp add: assms(3) map_of_filter_keys)
  have "marshal_object ?public = Json (JObj ps)"
    by (rule marshal_object_unique [OF dist assms(2) map])
  moreover have "ms = ps" if "length ?public = length ms"
  proof -
    from that have "?public = ms" by (metis length_filter_less less_irrefl filter_True)
    with map have "map_of ms = map_of ps" by simp
    then show ?thesis by (rule sorted_object_unique [OF assms(1,2)])
  qed
  ultimately show ?thesis using assms(1) by (simp add: WithoutStorageEnvelope_def Let_def)
qed

lemma public_fields:
  assumes "\<forall>k\<in>fst ` set ms. \<not> IsReservedKey k" "\<forall>k\<in>fst ` set vs. IsReservedKey k"
    "map_of out = map_of ms ++ map_of vs"
  shows "map_of ms k = (if IsReservedKey k then None else map_of out k)"
proof (cases "IsReservedKey k")
  case True
  then have "k \<notin> fst ` set ms" using assms(1) by blast
  then show ?thesis using True by (simp add: map_of_eq_None_iff)
next
  case False
  then have "k \<notin> fst ` set vs" using assms(2) by blast
  then have "map_of vs k = None" by (simp add: map_of_eq_None_iff)
  then show ?thesis using False assms(3) by (simp add: map_add_def)
qed

text \<open>Adding reserved fields and removing the envelope gives the application document back.\<close>

lemma envelope_roundtrip:
  assumes "sorted_object ms" "\<forall>k\<in>fst ` set ms. \<not> IsReservedKey k"
    "distinct_keys vs" "\<forall>k\<in>fst ` set vs. IsReservedKey k"
  shows "\<exists>stored. WithFields (Json (JObj ms)) (texts vs) = Inr stored \<and>
    WithoutStorageEnvelope stored = Json (JObj ms)"
proof -
  from assms(1) have parse: "ParseObject (Json (JObj ms)) = Inr \<lparr>Object_fields = Some ms\<rparr>"
    by (simp add: ParseObject_def)
  obtain out where out: "Object_WithFields \<lparr>Object_fields = Some ms\<rparr> (texts vs) = Inr (Json (JObj out))"
    "sorted_object out" "map_of out = map_of ms ++ map_of vs"
    using Object_WithFields_ok [of ms vs] assms by (auto simp: sorted_object_def)
  from WithoutStorageEnvelope_object [OF out(2) assms(1) public_fields [OF assms(2,4) out(3)]] out(1) parse show ?thesis
    by (simp add: WithFields_def)
qed

section \<open>Prepared data\<close>

lemma unmarshal_object_keys: "unmarshal_object t = Inr (Some m) \<Longrightarrow> distinct_keys m"
  by (auto simp: unmarshal_object_def split: json_text.splits json.splits)

lemma prepareJSONObjectJSON_ok:
  assumes "prepareJSONObjectJSON v validate = Inr t"
  shows "\<exists>ms. t = Json (JObj ms) \<and> sorted_object ms \<and>
    (validate \<longrightarrow> (\<forall>k\<in>fst ` set ms. \<not> IsReservedKey k))"
proof -
  from assms obtain m where m: "t = marshal_object m" "distinct_keys m"
    "\<not> (validate \<and> list_ex (\<lambda>(k, _). IsReservedKey k) m)"
    by (fastforce simp: prepareJSONObjectJSON_def Let_def unmarshal_object_keys
        split: any_input.splits if_splits option.splits)
  then have "validate \<longrightarrow> (\<forall>k\<in>fst ` set m. \<not> IsReservedKey k)" by (auto simp: list_ex_iff)
  then show ?thesis using m(1,2) by (simp add: marshal_object_def sorted_object_def)
qed

lemma PreparedEvents_data:
  assumes "prepareRequestedEventsForSave events = Inr prepared" "e \<in> set prepared"
  shows "\<exists>ms. PreparedEvent_DataJSON e = Json (JObj ms) \<and> sorted_object ms \<and>
    (\<forall>k\<in>fst ` set ms. \<not> IsReservedKey k)"
proof -
  from mapR_Inr_range [OF assms(1) [unfolded prepareRequestedEventsForSave_def] assms(2)]
  have "\<exists>v. prepareEventDataJSON v = Inr (PreparedEvent_DataJSON e)"
    by (auto split: option.splits) (rule exI)
  then show ?thesis
    using prepareJSONObjectJSON_ok [of _ True] by (auto simp: prepareEventDataJSON_def)
qed

text \<open>
  C22. The storage envelope is invisible to applications: adding any reserved fields to a prepared event
  object succeeds, and taking the envelope off again gives the object back.
\<close>

theorem storage_envelope_roundtrip:
  assumes "sorted_object ms" "\<forall>k\<in>fst ` set ms. \<not> IsReservedKey k"
    "distinct_keys vs" "\<forall>k\<in>fst ` set vs. IsReservedKey k"
  shows "\<exists>stored. WithFields (Json (JObj ms)) (texts vs) = Inr stored \<and> WithoutStorageEnvelope stored = Json (JObj ms)"
  by (rule envelope_roundtrip [OF assms])

theorem storage_envelope_roundtrip_witness:
  "\<exists>stored. WithFields (Json (JObj [(''id'', JStr ''7''), (''name'', JNull)]))
      (texts [(''__eventId'', JStr ''e1''), (''__commitPosition'', JNum ''1'')]) = Inr stored \<and>
    WithoutStorageEnvelope stored = Json (JObj [(''id'', JStr ''7''), (''name'', JNull)])"
proof (rule storage_envelope_roundtrip)
  show "sorted_object [(''id'', JStr ''7''), (''name'', JNull)]" unfolding sorted_object_def by code_simp
  show "\<forall>k\<in>fst ` set [(''id'', JStr ''7''), (''name'', JNull)]. \<not> IsReservedKey k" by code_simp
  show "\<forall>k\<in>fst ` set [(''__eventId'', JStr ''e1''), (''__commitPosition'', JNum ''1'')]. IsReservedKey k" by code_simp
  show "distinct_keys [(''__eventId'', JStr ''e1''), (''__commitPosition'', JNum ''1'')]" by simp
qed

end
