(* ===== verification/Event_Position.thy ===== *)
theory Event_Position
  imports Orisun_Prelude
begin

text \<open>
  Positions in the total order of a boundary and the comparison routines over them:
  \<^verbatim>\<open>eventstore/types.go\<close> (\<open>Compare\<close>, \<open>After\<close>, \<open>Before\<close>), \<^verbatim>\<open>orisun/eventstore.go\<close>
  (\<open>ComparePositions\<close>, \<open>positionValuesAfter\<close>) and the boundary subscriber's own
  \<open>positionAfter\<close>. The locale \<open>three_way\<close> is the contract of a comparison function that
  returns -1, 0 or 1.
\<close>

section \<open>Three-way comparison\<close>

locale three_way =
  fixes cmp :: "'a \<Rightarrow> 'a \<Rightarrow> int"
    and key :: "'a \<Rightarrow> 'k :: linorder"
  assumes cmp_key: "cmp a b = (if key a < key b then -1 else if key a = key b then 0 else 1)"
begin

lemma cmp_neg_iff: "cmp a b < 0 \<longleftrightarrow> key a < key b"
  by (simp add: cmp_key)

lemma cmp_zero_iff: "cmp a b = 0 \<longleftrightarrow> key a = key b"
  by (simp add: cmp_key)

lemma cmp_pos_iff: "cmp a b > 0 \<longleftrightarrow> key b < key a"
  by (auto simp: cmp_key)

lemma cmp_swap: "cmp b a = - cmp a b"
  by (auto simp: cmp_key)

lemma cmp_range: "cmp a b \<in> {-1, 0, 1}"
  by (simp add: cmp_key)

lemma cmp_trans: "cmp a b \<le> 0 \<Longrightarrow> cmp b c \<le> 0 \<Longrightarrow> cmp a c \<le> 0"
  by (auto simp: cmp_key split: if_splits)

end

section \<open>Positions\<close>

datatype Position = Position (CommitPosition: int64) (PreparePosition: int64)

definition NotExistsPosition :: Position where
  "NotExistsPosition = Position (-1) (-1)"

definition BeginningPosition :: Position where
  "BeginningPosition = Position 0 0"

definition Position_Compare :: "Position \<Rightarrow> Position \<Rightarrow> int" where
  "Position_Compare p other =
     (if CommitPosition p < CommitPosition other \<or>
         CommitPosition p = CommitPosition other \<and> PreparePosition p < PreparePosition other
      then -1 else if p = other then 0 else 1)"

definition Position_After :: "Position \<Rightarrow> Position \<Rightarrow> bool" where
  "Position_After p other \<longleftrightarrow> Position_Compare p other > 0"

definition Position_Before :: "Position \<Rightarrow> Position \<Rightarrow> bool" where
  "Position_Before p other \<longleftrightarrow> Position_Compare p other < 0"

definition IsGreaterThan :: int where
  "IsGreaterThan = 1"

definition ComparePositions :: "Position \<Rightarrow> Position \<Rightarrow> int" where
  "ComparePositions p1 p2 =
     (if CommitPosition p1 = CommitPosition p2 \<and> PreparePosition p1 = PreparePosition p2 then 0
      else if CommitPosition p1 < CommitPosition p2 \<or>
              CommitPosition p1 = CommitPosition p2 \<and> PreparePosition p1 < PreparePosition p2
      then -1 else 1)"

definition isEventPositionNewerThanPosition :: "Position \<Rightarrow> Position \<Rightarrow> bool" where
  "isEventPositionNewerThanPosition newPosition lastPosition \<longleftrightarrow>
     ComparePositions newPosition lastPosition = IsGreaterThan"

definition positionValuesAfter :: "int64 \<Rightarrow> int64 \<Rightarrow> int64 \<Rightarrow> int64 \<Rightarrow> bool" where
  "positionValuesAfter commit prepare previousCommit previousPrepare \<longleftrightarrow>
     commit > previousCommit \<or> (commit = previousCommit \<and> prepare > previousPrepare)"

definition positionAfter :: "int64 \<Rightarrow> int64 \<Rightarrow> int64 \<Rightarrow> int64 \<Rightarrow> bool" where
  "positionAfter commit prepare cursorCommit cursorPrepare \<longleftrightarrow>
     commit > cursorCommit \<or> (commit = cursorCommit \<and> prepare > cursorPrepare)"

section \<open>Positions are linearly ordered\<close>

abbreviation position_pair :: "Position \<Rightarrow> int64 \<times> int64" where
  "position_pair p \<equiv> (CommitPosition p, PreparePosition p)"

lemma position_pair_inject: "position_pair p = position_pair q \<longleftrightarrow> p = q"
  by (cases p; cases q) simp

instantiation Position :: linorder
begin

definition less_eq_Position :: "Position \<Rightarrow> Position \<Rightarrow> bool" where
  "p \<le> q \<longleftrightarrow> position_pair p \<le> position_pair q"

definition less_Position :: "Position \<Rightarrow> Position \<Rightarrow> bool" where
  "p < q \<longleftrightarrow> position_pair p < position_pair q"

instance
  by standard
    (auto simp: less_eq_Position_def less_Position_def position_pair_inject less_le_not_le
      intro: order.trans Position.expand)

end

lemma Position_less_simps:
  "Position c p < Position c' p' \<longleftrightarrow> c < c' \<or> c = c' \<and> p < p'"
  "Position c p \<le> Position c' p' \<longleftrightarrow> c < c' \<or> c = c' \<and> p \<le> p'"
  by (auto simp: less_Position_def less_eq_Position_def)

lemma Position_less_iff:
  "a < b \<longleftrightarrow> CommitPosition a < CommitPosition b \<or>
     CommitPosition a = CommitPosition b \<and> PreparePosition a < PreparePosition b"
  by (cases a; cases b) (simp add: Position_less_simps)

interpretation core_cmp: three_way Position_Compare "\<lambda>p. p"
  by unfold_locales (auto simp: Position_Compare_def Position_less_iff)

interpretation api_cmp: three_way ComparePositions "\<lambda>p. p"
  by unfold_locales
    (auto simp: ComparePositions_def Position_less_iff intro: Position.expand)

lemma Position_After_less [go_simps]: "Position_After p q \<longleftrightarrow> q < p"
  unfolding Position_After_def by (rule core_cmp.cmp_pos_iff)

lemma Position_Before_less [go_simps]: "Position_Before p q \<longleftrightarrow> p < q"
  unfolding Position_Before_def by (rule core_cmp.cmp_neg_iff)

lemma newer_less [go_simps]: "isEventPositionNewerThanPosition p q \<longleftrightarrow> q < p"
  using api_cmp.cmp_pos_iff [of p q] api_cmp.cmp_range [of p q]
  by (auto simp: isEventPositionNewerThanPosition_def IsGreaterThan_def)

lemma positionValuesAfter_less [go_simps]:
  "positionValuesAfter c p c' p' \<longleftrightarrow> Position c' p' < Position c p"
  by (auto simp: positionValuesAfter_def Position_less_simps)

lemma positionAfter_less [go_simps]:
  "positionAfter c p c' p' \<longleftrightarrow> Position c' p' < Position c p"
  by (auto simp: positionAfter_def Position_less_simps)

text \<open>
  C31. All position comparisons of the code base are one total order: the neutral \<open>Compare\<close>, the API's
  \<open>ComparePositions\<close> and the two value comparisons agree on every pair of positions.
\<close>

theorem position_orders_agree:
  "ComparePositions p q = Position_Compare p q \<and>
   (Position_After p q \<longleftrightarrow> q < p) \<and> (Position_Before p q \<longleftrightarrow> p < q) \<and>
   (isEventPositionNewerThanPosition p q \<longleftrightarrow> q < p) \<and>
   (positionValuesAfter (CommitPosition p) (PreparePosition p) (CommitPosition q) (PreparePosition q) \<longleftrightarrow> q < p) \<and>
   (positionAfter (CommitPosition p) (PreparePosition p) (CommitPosition q) (PreparePosition q) \<longleftrightarrow> q < p)"
  by (simp add: go_simps core_cmp.cmp_key api_cmp.cmp_key)

end
