(* ===== verification/Consistency_Checks.thy ===== *)
theory Consistency_Checks
  imports Query_Predicates Event_Position
begin

text \<open>
  Command Context Consistency: the observations of an append, validated and normalised into the
  checks the storage executes (\<^verbatim>\<open>orisun/consistency.go\<close>).

  A criterion is a set of canonical tags and a query a set of criteria. The code computes a text
  key for a query by length-prefixed concatenation; the lemmas show that two accepted queries have
  the same key exactly when they are the same set of sets, so that the duplicate and contradiction
  tests on keys are tests on meanings.
\<close>

section \<open>Definitions\<close>

definition maxConsistencyObservations :: nat where
  "maxConsistencyObservations = 1024"

definition maxConsistencyCriteria :: nat where
  "maxConsistencyCriteria = 4096"

definition maxConsistencyTags :: nat where
  "maxConsistencyTags = 16384"

record ConsistencyObservation =
  Observation_Query :: "Query option"
  Observation_Position :: "Position option"

record ConsistencyCheck =
  Check_Criteria :: "ReadCriterion list"
  Check_Position :: Position

definition validateConsistencyPosition :: "Position \<Rightarrow> unit result" where
  "validateConsistencyPosition position =
     (if position = NotExistsPosition then Inr ()
      else if CommitPosition position < 0 \<or> PreparePosition position < 0
      then Inl (PlainError ''position must be non-negative or exactly (-1, -1)'')
      else Inr ())"

text \<open>The text \<open>%d:%s\<close> of a string's length and the string.\<close>

definition length_prefixed :: "string \<Rightarrow> string" where
  "length_prefixed s = nat_digits (length s) @ '':'' @ s"

definition tag_identity :: "ReadTag \<Rightarrow> string" where
  "tag_identity tag =
     length_prefixed (Tag_Key tag) @ length_prefixed (Tag_Operator tag) @
     length_prefixed (Tag_Value tag)"

text \<open>The inner loop: the maps \<open>predicates\<close> and \<open>equalities\<close> of one criterion.\<close>

type_synonym tag_maps = "(string \<times> ReadTag) list \<times> (string \<times> string) list"

definition normalize_tag :: "Tag option \<Rightarrow> tag_maps \<Rightarrow> tag_maps result" where
  "normalize_tag tag maps =
     (case tag of
        None \<Rightarrow> Inl (PlainError ''criterion %d tag %d is nil'')
      | Some t \<Rightarrow>
          bindR (ValidateTag (Tag_Key t) (Tag_Value t) (Tag_Operator t)) (\<lambda>_.
            let (predicates, equalities) = maps;
                operator = (case CanonicalTagOperator (Tag_Operator t) of Inr op \<Rightarrow> op | Inl _ \<Rightarrow> '''')
            in if operator = ''eq''
               then (case map_of equalities (Tag_Key t) of
                       Some previous \<Rightarrow>
                         if previous \<noteq> Tag_Value t
                         then Inl (PlainError ''criterion %d repeats key %q with a different value'')
                         else Inr (let n = t\<lparr>Tag_Operator := ''''\<rparr>
                                   in (AList.update (tag_identity n) n predicates,
                                       AList.update (Tag_Key t) (Tag_Value t) equalities))
                     | None \<Rightarrow>
                         Inr (let n = t\<lparr>Tag_Operator := ''''\<rparr>
                              in (AList.update (tag_identity n) n predicates,
                                  AList.update (Tag_Key t) (Tag_Value t) equalities)))
               else Inr (let n = t\<lparr>Tag_Operator := operator\<rparr>
                         in (AList.update (tag_identity n) n predicates, equalities))))"

fun normalize_tags :: "Tag option list \<Rightarrow> tag_maps \<Rightarrow> tag_maps result" where
  "normalize_tags [] maps = Inr maps"
| "normalize_tags (tag # tags) maps = bindR (normalize_tag tag maps) (normalize_tags tags)"

text \<open>\<open>sort.Slice\<close> orders the tags by key, then operator, then value.\<close>

definition tag_order :: "ReadTag \<Rightarrow> string \<times> string \<times> string" where
  "tag_order t = (Tag_Key t, Tag_Operator t, Tag_Value t)"

definition criterion_key :: "ReadTag list \<Rightarrow> string" where
  "criterion_key tags = concat (map tag_identity tags)"

definition normalize_criterion :: "Criterion option \<Rightarrow> ReadCriterion result" where
  "normalize_criterion criterion =
     (case criterion of
        None \<Rightarrow> Inl (PlainError ''criterion %d has no tags'')
      | Some c \<Rightarrow>
          if length (Criterion_Tags c) = 0 then Inl (PlainError ''criterion %d has no tags'')
          else bindR (normalize_tags (Criterion_Tags c) ([], [])) (\<lambda>(predicates, _).
                 Inr \<lparr>ReadCriterion_Tags = sort_key tag_order (map snd predicates)\<rparr>))"

text \<open>The outer loop: the map \<open>criteriaByKey\<close> and the slice \<open>keys\<close>.\<close>

fun normalize_criteria ::
    "Criterion option list \<Rightarrow> (string \<times> ReadCriterion) list \<Rightarrow> string list \<Rightarrow>
     ((string \<times> ReadCriterion) list \<times> string list) result" where
  "normalize_criteria [] criteriaByKey keys = Inr (criteriaByKey, keys)"
| "normalize_criteria (criterion # criteria) criteriaByKey keys =
     bindR (normalize_criterion criterion) (\<lambda>normalized.
       let key = criterion_key (ReadCriterion_Tags normalized)
       in if has_key criteriaByKey key then normalize_criteria criteria criteriaByKey keys
          else normalize_criteria criteria (AList.update key normalized criteriaByKey) (keys @ [key]))"

definition normalizeConsistencyQuery :: "Query option \<Rightarrow> (ReadCriterion list \<times> string) result" where
  "normalizeConsistencyQuery query =
     (case query of
        None \<Rightarrow> Inl (PlainError ''query must contain at least one criterion'')
      | Some q \<Rightarrow>
          if length (Query_Criteria q) = 0
          then Inl (PlainError ''query must contain at least one criterion'')
          else bindR (normalize_criteria (Query_Criteria q) [] []) (\<lambda>(criteriaByKey, keys).
                 let sorted_keys = sort keys
                 in Inr (map (\<lambda>key. the (map_of criteriaByKey key)) sorted_keys,
                         concat (map length_prefixed sorted_keys))))"

text \<open>The counting loops over the criteria of one observation.\<close>

fun count_tags :: "Criterion option list \<Rightarrow> nat \<Rightarrow> nat result" where
  "count_tags [] totalTags = Inr totalTags"
| "count_tags (criterion # criteria) totalTags =
     (case criterion of
        None \<Rightarrow> count_tags criteria totalTags
      | Some c \<Rightarrow>
          let total = totalTags + length (Criterion_Tags c)
          in if total > maxConsistencyTags
             then Inl (Coded InvalidArgument ''consistency has more than %d tags'')
             else count_tags criteria total)"

definition count_query :: "Query option \<Rightarrow> nat \<Rightarrow> nat \<Rightarrow> (nat \<times> nat) result" where
  "count_query query totalCriteria totalTags =
     (case query of
        None \<Rightarrow> Inr (totalCriteria, totalTags)
      | Some q \<Rightarrow>
          let criteria = totalCriteria + length (Query_Criteria q)
          in if criteria > maxConsistencyCriteria
             then Inl (Coded InvalidArgument ''consistency has more than %d criteria'')
             else bindR (count_tags (Query_Criteria q) totalTags) (\<lambda>tags. Inr (criteria, tags)))"

text \<open>\<open>%v\<close> of an error becomes the text of a coded error.\<close>

definition observation_error :: "goerror \<Rightarrow> goerror" where
  "observation_error err = Coded InvalidArgument (''consistency observation %d: '' @ error_text err)"

text \<open>
  The loop state is \<open>checks\<close>, \<open>seen\<close>, \<open>totalCriteria\<close> and \<open>totalTags\<close>; \<open>observation_step\<close> is the
  body of the loop.
\<close>

type_synonym observation_state =
  "ConsistencyCheck list \<times> (string \<times> Position) list \<times> nat \<times> nat"

definition observation_step ::
    "ConsistencyObservation option \<Rightarrow> observation_state \<Rightarrow> observation_state result" where
  "observation_step observation state =
     (case state of (checks, seen, totalCriteria, totalTags) \<Rightarrow>
       (case observation of
          None \<Rightarrow> Inl (Coded InvalidArgument ''consistency observation %d is nil'')
        | Some obs \<Rightarrow>
            (case Observation_Position obs of
               None \<Rightarrow> Inl (Coded InvalidArgument ''consistency observation %d has no position'')
             | Some position \<Rightarrow>
                 bindR (map_errorR observation_error (validateConsistencyPosition position)) (\<lambda>_.
                 bindR (count_query (Observation_Query obs) totalCriteria totalTags)
                   (\<lambda>(totalCriteria', totalTags').
                 bindR (map_errorR observation_error (normalizeConsistencyQuery (Observation_Query obs)))
                   (\<lambda>(criteria, key).
                 case map_of seen key of
                   Some previous \<Rightarrow>
                     if previous \<noteq> position
                     then Inl (Coded InvalidArgument
                       ''consistency observation %d contradicts an earlier observation for the same query'')
                     else Inr (checks, seen, totalCriteria', totalTags')
                 | None \<Rightarrow>
                     Inr (checks @ [\<lparr>Check_Criteria = criteria, Check_Position = position\<rparr>],
                          AList.update key position seen, totalCriteria', totalTags')))))))"

fun observation_loop ::
    "ConsistencyObservation option list \<Rightarrow> observation_state \<Rightarrow> observation_state result" where
  "observation_loop [] state = Inr state"
| "observation_loop (observation # observations) state =
     bindR (observation_step observation state) (observation_loop observations)"

definition ConsistencyChecksFromObservations ::
    "ConsistencyObservation option list \<Rightarrow> ConsistencyCheck list result" where
  "ConsistencyChecksFromObservations observations =
     (if length observations > maxConsistencyObservations
      then Inl (Coded InvalidArgument ''consistency has %d observations, maximum is %d'')
      else bindR (observation_loop observations ([], [], 0, 0)) (\<lambda>(checks, _). Inr checks))"

section \<open>Prefix codes\<close>

text \<open>The contract of an encoding whose concatenations can be read back.\<close>

locale prefix_code =
  fixes enc :: "'a \<Rightarrow> 'c list"
  assumes prefix_free: "enc a @ x = enc b @ y \<Longrightarrow> a = b \<and> x = y"
    and code_nonempty: "enc a \<noteq> []"
begin

lemma code_inject: "enc a = enc b \<longleftrightarrow> a = b"
  using prefix_free [of a "[]" b "[]"] by auto

lemma append_inject: "enc a @ x = enc b @ y \<longleftrightarrow> a = b \<and> x = y"
  using prefix_free by blast

lemma concat_inject: "concat (map enc xs) = concat (map enc ys) \<longleftrightarrow> xs = ys"
proof (induction xs arbitrary: ys)
  case Nil
  then show ?case using code_nonempty by (cases ys) auto
next
  case (Cons x xs)
  then show ?case
    using code_nonempty [of x] by (cases ys) (auto simp: append_inject)
qed

end

lemma colon_split:
  assumes "c \<notin> set a" "c \<notin> set b" "a @ c # x = b @ c # y"
  shows "a = b \<and> x = y"
proof -
  have tw: "takeWhile (\<lambda>z. z \<noteq> c) (l @ c # r) = l" if "c \<notin> set l" for l r
    using that by (induction l) auto
  show ?thesis using tw [OF assms(1), of x] tw [OF assms(2), of y] assms(3) by auto
qed

lemma nat_digits_no_colon: "CHR '':'' \<notin> set (nat_digits n)"
  using nat_digits_all [of n] digit_not_sign by (auto simp: list_all_iff)

interpretation length_code: prefix_code length_prefixed
proof unfold_locales
  fix a b x y :: string
  assume "length_prefixed a @ x = length_prefixed b @ y"
  then have "nat_digits (length a) @ CHR '':'' # (a @ x) = nat_digits (length b) @ CHR '':'' # (b @ y)"
    by (simp add: length_prefixed_def)
  then have "nat_digits (length a) = nat_digits (length b) \<and> a @ x = b @ y"
    using nat_digits_no_colon by (intro colon_split) auto
  then show "a = b \<and> x = y" by (metis append_eq_append_conv nat_digits_inject)
next
  show "length_prefixed a \<noteq> []" for a :: string by (simp add: length_prefixed_def)
qed

interpretation tag_code: prefix_code tag_identity
proof unfold_locales
  fix a b :: ReadTag and x y
  assume "tag_identity a @ x = tag_identity b @ y"
  then show "a = b \<and> x = y"
    by (auto simp: tag_identity_def length_code.append_inject)
next
  show "tag_identity a \<noteq> []" for a :: ReadTag
    by (simp add: tag_identity_def length_code.code_nonempty)
qed

section \<open>One criterion is normalised to the sorted list of its canonical tags\<close>

text \<open>Two equality tags of one key with different values contradict each other.\<close>

definition equality_consistent :: "ReadTag set \<Rightarrow> bool" where
  "equality_consistent S \<longleftrightarrow>
     (\<forall>a\<in>S. \<forall>b\<in>S. Tag_Operator a = '''' \<and> Tag_Operator b = '''' \<and> Tag_Key a = Tag_Key b \<longrightarrow>
        Tag_Value a = Tag_Value b)"

definition criterion_meaning :: "Criterion \<Rightarrow> ReadTag set" where
  "criterion_meaning c = canonical_tag ` {t. Some t \<in> set (Criterion_Tags c)}"

definition acceptable_criterion :: "Criterion option \<Rightarrow> bool" where
  "acceptable_criterion criterion \<longleftrightarrow>
     (\<exists>c. criterion = Some c \<and> Criterion_Tags c \<noteq> [] \<and>
        (\<forall>tag\<in>set (Criterion_Tags c). \<exists>t. tag = Some t \<and> ValidTag t) \<and>
        equality_consistent (criterion_meaning c))"

definition predicates_inv :: "ReadTag set \<Rightarrow> (string \<times> ReadTag) list \<Rightarrow> bool" where
  "predicates_inv S P \<longleftrightarrow>
     distinct_keys P \<and> (\<forall>(k, n)\<in>set P. k = tag_identity n) \<and> snd ` set P = S"

definition equalities_inv :: "ReadTag set \<Rightarrow> (string \<times> string) list \<Rightarrow> bool" where
  "equalities_inv S E \<longleftrightarrow>
     (\<forall>k v. map_of E k = Some v \<longleftrightarrow> \<lparr>Tag_Key = k, Tag_Value = v, Tag_Operator = ''''\<rparr> \<in> S)"

abbreviation tag_inv :: "ReadTag set \<Rightarrow> tag_maps \<Rightarrow> bool" where
  "tag_inv S maps \<equiv> predicates_inv S (fst maps) \<and> equalities_inv S (snd maps)"

lemma canonical_operator:
  "ValidTag t \<Longrightarrow> CanonicalTagOperator (Tag_Operator t) =
     Inr (if Tag_Operator (canonical_tag t) = '''' then ''eq'' else Tag_Operator (canonical_tag t))"
  by (auto simp: ValidateTag_ok CanonicalTagOperator_def operators_def canonical_tag_def)

lemma normalize_tag_eq:
  "normalize_tag (Some t) (P, E) =
     bindR (ValidateTag (Tag_Key t) (Tag_Value t) (Tag_Operator t)) (\<lambda>_.
       let n = canonical_tag t
       in if Tag_Operator n = ''''
          then (if \<exists>v. map_of E (Tag_Key n) = Some v \<and> v \<noteq> Tag_Value n
                then Inl (PlainError ''criterion %d repeats key %q with a different value'')
                else Inr (AList.update (tag_identity n) n P,
                          AList.update (Tag_Key n) (Tag_Value n) E))
          else Inr (AList.update (tag_identity n) n P, E))"
proof (cases "ValidTag t")
  case True
  then have "Tag_Operator t \<in> operators" by (simp add: ValidateTag_ok)
  then show ?thesis
    using True canonical_operator [OF True]
    by (auto simp: normalize_tag_def canonical_tag_def operators_def Let_def split: option.splits)
next
  case False
  then obtain e where "ValidateTag (Tag_Key t) (Tag_Value t) (Tag_Operator t) = Inl e"
    by (cases "ValidateTag (Tag_Key t) (Tag_Value t) (Tag_Operator t)") auto
  then show ?thesis by (simp add: normalize_tag_def)
qed

lemma set_update_identity:
  assumes "distinct_keys P" "\<forall>(k, n)\<in>set P. k = tag_identity n"
  shows "set (AList.update (tag_identity n) n P) = insert (tag_identity n, n) (set P)"
  using assms
  by (induction P) (auto simp: tag_code.code_inject)

lemma predicates_inv_update:
  assumes "predicates_inv S P"
  shows "predicates_inv (insert n S) (AList.update (tag_identity n) n P)"
  using assms unfolding predicates_inv_def by (simp add: set_update_identity)

lemma equalities_inv_update:
  assumes "equalities_inv S E" "Tag_Operator n = ''''"
    and "\<nexists>v. map_of E (Tag_Key n) = Some v \<and> v \<noteq> Tag_Value n"
  shows "equalities_inv (insert n S) (AList.update (Tag_Key n) (Tag_Value n) E)"
  using assms by (cases n) (auto simp: equalities_inv_def)

lemma equalities_inv_other:
  "equalities_inv S E \<Longrightarrow> Tag_Operator n \<noteq> '''' \<Longrightarrow> equalities_inv (insert n S) E"
  by (auto simp: equalities_inv_def)

lemma normalize_tag_step:
  assumes "tag_inv S m" "normalize_tag x m = Inr m'"
  shows "\<exists>t. x = Some t \<and> ValidTag t \<and> tag_inv (insert (canonical_tag t) S) m'"
proof (cases x)
  case None
  then show ?thesis using assms by (simp add: normalize_tag_def)
next
  case (Some t)
  obtain P E where m: "m = (P, E)" by (cases m)
  have "tag_inv (insert (canonical_tag t) S) m'"
    using assms unfolding Some m normalize_tag_eq
    by (auto simp: Let_def predicates_inv_update equalities_inv_update equalities_inv_other
        split: if_splits)
  then show ?thesis using assms Some m by (auto simp: normalize_tag_eq)
qed

lemma normalize_tag_progress:
  assumes "tag_inv S m" "ValidTag t" "equality_consistent (insert (canonical_tag t) S)"
  shows "\<exists>m'. normalize_tag (Some t) m = Inr m'"
proof -
  obtain P E where m: "m = (P, E)" by (cases m)
  have "v = Tag_Value (canonical_tag t)"
    if "map_of E (Tag_Key (canonical_tag t)) = Some v" "Tag_Operator (canonical_tag t) = ''''" for v
    using assms(1,3) that unfolding m equalities_inv_def equality_consistent_def by fastforce
  then show ?thesis using assms(2) unfolding m normalize_tag_eq by (auto simp: Let_def)
qed

lemma equality_consistent_subset:
  "equality_consistent S \<Longrightarrow> T \<subseteq> S \<Longrightarrow> equality_consistent T"
  unfolding equality_consistent_def by blast

lemma equalities_inv_consistent: "equalities_inv S E \<Longrightarrow> equality_consistent S"
  unfolding equality_consistent_def equalities_inv_def
  by (metis (full_types) Tag.surjective old.unit.exhaust option.inject)

lemma normalize_tags_sound:
  assumes "tag_inv S m" "normalize_tags xs m = Inr m'"
  shows "\<exists>ts. xs = map Some ts \<and> list_all ValidTag ts \<and> tag_inv (S \<union> canonical_tag ` set ts) m'"
  using assms
proof (induction xs arbitrary: S m)
  case (Cons x xs)
  then obtain m1 where "normalize_tag x m = Inr m1" and rest: "normalize_tags xs m1 = Inr m'" by auto
  with Cons.prems obtain t where t: "x = Some t" "ValidTag t" "tag_inv (insert (canonical_tag t) S) m1"
    using normalize_tag_step by blast
  with Cons.IH [OF t(3) rest] obtain ts where "xs = map Some ts" "list_all ValidTag ts"
      "tag_inv (insert (canonical_tag t) S \<union> canonical_tag ` set ts) m'" by blast
  with t show ?case by (intro exI [of _ "t # ts"]) simp
qed (auto intro: exI [of _ "[]"])

lemma normalize_tags_progress:
  assumes "tag_inv S m" "list_all ValidTag ts" "equality_consistent (S \<union> canonical_tag ` set ts)"
  shows "\<exists>m'. normalize_tags (map Some ts) m = Inr m'"
  using assms
proof (induction ts arbitrary: S m)
  case (Cons t ts)
  have "equality_consistent (insert (canonical_tag t) S)"
    using Cons.prems(3) by (rule equality_consistent_subset) auto
  with Cons.prems obtain m1 where m1: "normalize_tag (Some t) m = Inr m1"
    using normalize_tag_progress by fastforce
  with Cons.prems have "tag_inv (insert (canonical_tag t) S) m1"
    using normalize_tag_step [of S m "Some t" m1] by auto
  with Cons.IH [of "insert (canonical_tag t) S" m1] Cons.prems m1 show ?case by simp
qed simp

lemma tag_order_inject: "tag_order a = tag_order b \<longleftrightarrow> a = b"
  by (cases a; cases b) (auto simp: tag_order_def)

text \<open>A list of tags as \<open>normalize_criterion\<close> returns it: sorted, without duplicates.\<close>

definition sorted_tags :: "ReadTag list \<Rightarrow> bool" where
  "sorted_tags ts \<longleftrightarrow> sorted (map tag_order ts) \<and> distinct ts"

lemma sorted_tags_unique:
  assumes "sorted_tags xs" "sorted_tags ys" "set xs = set ys"
  shows "xs = ys"
proof -
  have inj: "inj tag_order" by (simp add: inj_def tag_order_inject)
  have "map tag_order xs = map tag_order ys"
    using assms inj
    by (intro sorted_distinct_set_unique) (auto simp: sorted_tags_def distinct_map intro: inj_on_subset)
  then show ?thesis using inj by (simp add: inj_map_eq_map)
qed

lemma predicates_inv_distinct: "predicates_inv S P \<Longrightarrow> distinct (map snd P)"
  unfolding predicates_inv_def
  by (induction P arbitrary: S) force+

lemma normalize_criterion_ok:
  "normalize_criterion criterion = Inr r \<longleftrightarrow>
     acceptable_criterion criterion \<and> sorted_tags (ReadCriterion_Tags r) \<and>
     set (ReadCriterion_Tags r) = criterion_meaning (the criterion)"
    (is "?L \<longleftrightarrow> ?R")
proof -
  have start: "tag_inv {} ([], [])" by (simp add: predicates_inv_def equalities_inv_def)
  have sound: "acceptable_criterion criterion \<and> sorted_tags (ReadCriterion_Tags x) \<and>
     set (ReadCriterion_Tags x) = criterion_meaning (the criterion)"
    if "normalize_criterion criterion = Inr x" for x
  proof -
    from that obtain c P E where c: "criterion = Some c" "Criterion_Tags c \<noteq> []"
      and run: "normalize_tags (Criterion_Tags c) ([], []) = Inr (P, E)"
      and x: "x = \<lparr>ReadCriterion_Tags = sort_key tag_order (map snd P)\<rparr>"
      by (auto simp: normalize_criterion_def split: option.splits if_splits)
    from normalize_tags_sound [OF start run] obtain ts where ts: "Criterion_Tags c = map Some ts"
      "list_all ValidTag ts" and inv: "predicates_inv (canonical_tag ` set ts) P"
      "equalities_inv (canonical_tag ` set ts) E" by auto
    have meaning: "criterion_meaning c = canonical_tag ` set ts"
      by (auto simp: criterion_meaning_def ts)
    show ?thesis
      using c ts meaning inv x equalities_inv_consistent [OF inv(2)] predicates_inv_distinct [OF inv(1)]
      by (auto simp: acceptable_criterion_def sorted_tags_def list_all_iff predicates_inv_def)
  qed
  have complete: "\<exists>x. normalize_criterion criterion = Inr x" if "acceptable_criterion criterion"
  proof -
    from that obtain c where c: "criterion = Some c" "Criterion_Tags c \<noteq> []"
      "\<forall>tag\<in>set (Criterion_Tags c). \<exists>t. tag = Some t \<and> ValidTag t"
      "equality_consistent (criterion_meaning c)" by (auto simp: acceptable_criterion_def)
    define ts where "ts = map the (Criterion_Tags c)"
    have ts: "Criterion_Tags c = map Some ts" "list_all ValidTag ts"
      using c(3) by (force simp: ts_def list_all_iff intro!: map_idI [symmetric])+
    then have "criterion_meaning c = canonical_tag ` set ts" by (auto simp: criterion_meaning_def)
    then show ?thesis using normalize_tags_progress [OF start ts(2)] c ts(1)
      by (auto simp: normalize_criterion_def)
  qed
  show ?thesis
  proof
    assume ?R
    then obtain x where "normalize_criterion criterion = Inr x" using complete by blast
    moreover from this have "ReadCriterion_Tags x = ReadCriterion_Tags r"
      using sound \<open>?R\<close> sorted_tags_unique by metis
    ultimately show ?L by simp
  qed (use sound in blast)
qed

section \<open>A query is normalised to the sorted list of its criteria\<close>

abbreviation crit_key :: "ReadCriterion \<Rightarrow> string" where
  "crit_key r \<equiv> criterion_key (ReadCriterion_Tags r)"

abbreviation crit_set :: "ReadCriterion \<Rightarrow> ReadTag set" where
  "crit_set r \<equiv> set (ReadCriterion_Tags r)"

definition query_meaning :: "Query \<Rightarrow> ReadTag set set" where
  "query_meaning q = (\<lambda>c. criterion_meaning (the c)) ` set (Query_Criteria q)"

definition acceptable_query :: "Query option \<Rightarrow> bool" where
  "acceptable_query query \<longleftrightarrow>
     (\<exists>q. query = Some q \<and> Query_Criteria q \<noteq> [] \<and> list_all acceptable_criterion (Query_Criteria q))"

definition normal_criteria :: "ReadCriterion list \<Rightarrow> bool" where
  "normal_criteria rs \<longleftrightarrow>
     sorted (map crit_key rs) \<and> distinct (map crit_key rs) \<and>
     (\<forall>r\<in>set rs. sorted_tags (ReadCriterion_Tags r))"

lemma criterion_key_inject: "criterion_key xs = criterion_key ys \<longleftrightarrow> xs = ys"
  by (simp add: criterion_key_def tag_code.concat_inject)

lemma crit_key_inject: "crit_key a = crit_key b \<longleftrightarrow> a = b"
  by (cases a; cases b) (simp add: criterion_key_inject)

lemma map_crit_key_inject: "map crit_key xs = map crit_key ys \<longleftrightarrow> xs = ys"
  by (rule inj_map_eq_map) (simp add: inj_def crit_key_inject)

lemma crit_key_set:
  "sorted_tags (ReadCriterion_Tags a) \<Longrightarrow> sorted_tags (ReadCriterion_Tags b) \<Longrightarrow>
     crit_key a = crit_key b \<longleftrightarrow> crit_set a = crit_set b"
  using sorted_tags_unique criterion_key_inject by metis

lemma normal_criteria_unique:
  assumes "normal_criteria rs" "normal_criteria rs'" "crit_set ` set rs = crit_set ` set rs'"
  shows "rs = rs'"
proof -
  have "crit_key ` set a \<subseteq> crit_key ` set b"
    if "normal_criteria a" "normal_criteria b" "crit_set ` set a = crit_set ` set b" for a b
  proof
    fix k assume "k \<in> crit_key ` set a"
    then obtain r where r: "r \<in> set a" "k = crit_key r" by blast
    with that obtain r' where "r' \<in> set b" "crit_set r = crit_set r'" by (metis imageE imageI)
    then show "k \<in> crit_key ` set b"
      using r that crit_key_set [of r r'] by (auto simp: normal_criteria_def)
  qed
  then have "crit_key ` set rs = crit_key ` set rs'"
    using assms by (intro antisym) auto
  then have "map crit_key rs = map crit_key rs'"
    using assms by (intro sorted_distinct_set_unique) (auto simp: normal_criteria_def)
  then show ?thesis by (simp only: map_crit_key_inject)
qed

definition criteria_inv ::
    "ReadTag set set \<Rightarrow> (string \<times> ReadCriterion) list \<Rightarrow> string list \<Rightarrow> bool" where
  "criteria_inv M C keys \<longleftrightarrow>
     distinct_keys C \<and> keys = map fst C \<and> crit_set ` snd ` set C = M \<and>
     (\<forall>(k, r)\<in>set C. crit_key r = k \<and> sorted_tags (ReadCriterion_Tags r))"

lemma criteria_inv_step:
  assumes inv: "criteria_inv M C keys" and r: "sorted_tags (ReadCriterion_Tags r)"
  shows "has_key C (crit_key r) \<Longrightarrow> criteria_inv (insert (crit_set r) M) C keys"
    and "\<not> has_key C (crit_key r) \<Longrightarrow>
      criteria_inv (insert (crit_set r) M) (AList.update (crit_key r) r C) (keys @ [crit_key r])"
proof -
  assume "has_key C (crit_key r)"
  then obtain r' where r': "(crit_key r, r') \<in> set C" by (auto dest: map_of_SomeD)
  with inv have "crit_key r = crit_key r'" by (auto simp: criteria_inv_def)
  then have "r = r'" by (simp only: crit_key_inject)
  with r' have "crit_set r \<in> crit_set ` snd ` set C" by force
  with inv show "criteria_inv (insert (crit_set r) M) C keys"
    by (auto simp: criteria_inv_def)
next
  assume new: "\<not> has_key C (crit_key r)"
  then have "crit_key r \<notin> fst ` set C" by (metis map_of_eq_None_iff)
  then show "criteria_inv (insert (crit_set r) M) (AList.update (crit_key r) r C) (keys @ [crit_key r])"
    using inv r unfolding update_new_key [OF new] by (auto simp: criteria_inv_def)
qed

lemma normalize_criterion_accepts:
  "(\<exists>r. normalize_criterion c = Inr r) \<longleftrightarrow> acceptable_criterion c"
proof
  assume ok: "acceptable_criterion c"
  have fin: "finite (criterion_meaning (the c))"
    unfolding criterion_meaning_def
    by (rule finite_imageI, rule finite_subset [of _ "the ` set (Criterion_Tags (the c))"]) force+
  then obtain xs where "distinct xs" "set xs = criterion_meaning (the c)"
    using finite_distinct_list by blast
  with ok have "normalize_criterion c = Inr \<lparr>ReadCriterion_Tags = sort_key tag_order xs\<rparr>"
    by (simp add: normalize_criterion_ok sorted_tags_def)
  then show "\<exists>r. normalize_criterion c = Inr r" by blast
qed (auto simp: normalize_criterion_ok)

lemma normalize_criteria_step:
  assumes "criteria_inv M C keys" "normalize_criterion c = Inr r"
  shows "\<exists>C' keys'. normalize_criteria (c # cs) C keys = normalize_criteria cs C' keys' \<and>
           criteria_inv (insert (criterion_meaning (the c)) M) C' keys'"
proof -
  have r: "sorted_tags (ReadCriterion_Tags r)" "crit_set r = criterion_meaning (the c)"
    using assms(2) by (simp_all add: normalize_criterion_ok)
  show ?thesis
    using criteria_inv_step [OF assms(1) r(1)] assms(2) r(2) by (cases "has_key C (crit_key r)") (auto simp: Let_def)
qed

lemma normalize_criteria_inv:
  assumes "criteria_inv M C keys" "normalize_criteria cs C keys = Inr (C', keys')"
  shows "criteria_inv (M \<union> (\<lambda>c. criterion_meaning (the c)) ` set cs) C' keys' \<and>
         list_all acceptable_criterion cs"
  using assms
proof (induction cs arbitrary: M C keys)
  case (Cons c cs)
  then obtain r where r: "normalize_criterion c = Inr r" by auto
  from normalize_criteria_step [OF Cons.prems(1) r, of cs] Cons.prems(2)
  obtain C1 keys1 where "normalize_criteria cs C1 keys1 = Inr (C', keys')"
    "criteria_inv (insert (criterion_meaning (the c)) M) C1 keys1" by metis
  from Cons.IH [OF this(2,1)] r show ?case by (auto simp: normalize_criterion_ok)
qed simp

lemma normalize_criteria_accepts:
  assumes "criteria_inv M C keys" "list_all acceptable_criterion cs"
  shows "\<exists>C' keys'. normalize_criteria cs C keys = Inr (C', keys')"
  using assms
proof (induction cs arbitrary: M C keys)
  case (Cons c cs)
  then obtain r where r: "normalize_criterion c = Inr r"
    using normalize_criterion_accepts [of c] by auto
  obtain C1 keys1 where "normalize_criteria (c # cs) C keys = normalize_criteria cs C1 keys1"
    "criteria_inv (insert (criterion_meaning (the c)) M) C1 keys1"
    using normalize_criteria_step [OF Cons.prems(1) r, of cs] by blast
  with Cons.IH [of _ C1 keys1] Cons.prems(2) show ?case by simp
qed simp

lemma criteria_inv_normal:
  assumes "criteria_inv M C keys"
  defines "rs \<equiv> map (\<lambda>key. the (map_of C key)) (sort keys)"
  shows "normal_criteria rs" "crit_set ` set rs = M" "map crit_key rs = sort keys"
proof -
  have lookup: "the (map_of C k) \<in> snd ` set C \<and> crit_key (the (map_of C k)) = k \<and>
      sorted_tags (ReadCriterion_Tags (the (map_of C k)))" if "k \<in> set keys" for k
  proof -
    from that assms(1) obtain r where kr: "(k, r) \<in> set C" by (auto simp: criteria_inv_def)
    then have "map_of C k = Some r" using assms(1) by (simp add: criteria_inv_def)
    moreover have "crit_key r = k \<and> sorted_tags (ReadCriterion_Tags r)"
      using kr assms(1) unfolding criteria_inv_def by blast
    moreover have "r \<in> snd ` set C" using kr by (metis image_eqI snd_conv)
    ultimately show ?thesis by simp
  qed
  have "crit_key (the (map_of C k)) = k" if "k \<in> set (sort keys)" for k
    using that lookup by simp
  then show keys: "map crit_key rs = sort keys"
    unfolding rs_def map_map by (intro map_idI) (auto simp: comp_def)
  have all: "set rs = snd ` set C"
  proof (rule antisym)
    show "snd ` set C \<subseteq> set rs"
    proof
      fix r assume "r \<in> snd ` set C"
      then obtain k where kr: "(k, r) \<in> set C" by force
      then have "map_of C k = Some r" "k \<in> set keys"
        using assms(1) by (auto simp: criteria_inv_def intro: rev_image_eqI)
      then have "r \<in> (\<lambda>key. the (map_of C key)) ` set (sort keys)" by (intro image_eqI [of _ _ k]) auto
      then show "r \<in> set rs" by (simp add: rs_def)
    qed
  qed (use lookup in \<open>auto simp: rs_def\<close>)
  show "crit_set ` set rs = M" using all assms(1) by (simp add: criteria_inv_def)
  show "normal_criteria rs"
    using keys lookup assms(1) unfolding normal_criteria_def
    by (auto simp: rs_def criteria_inv_def)
qed

lemma criteria_inv_start: "criteria_inv {} [] []"
  by (simp add: criteria_inv_def)

lemma normalizeConsistencyQuery_complete:
  assumes "acceptable_query query"
  shows "\<exists>xs k. normalizeConsistencyQuery query = Inr (xs, k)"
proof -
  from assms obtain q where q: "query = Some q" "Query_Criteria q \<noteq> []"
    "list_all acceptable_criterion (Query_Criteria q)" by (auto simp: acceptable_query_def)
  with normalize_criteria_accepts [OF criteria_inv_start q(3)] show ?thesis
    by (auto simp: normalizeConsistencyQuery_def Let_def)
qed

lemma normalizeConsistencyQuery_ok:
  "normalizeConsistencyQuery query = Inr (rs, key) \<longleftrightarrow>
     acceptable_query query \<and> normal_criteria rs \<and> crit_set ` set rs = query_meaning (the query) \<and>
     key = concat (map length_prefixed (map crit_key rs))"
proof -
  have sound: "acceptable_query query \<and> normal_criteria xs \<and>
     crit_set ` set xs = query_meaning (the query) \<and>
     k = concat (map length_prefixed (map crit_key xs))"
    if "normalizeConsistencyQuery query = Inr (xs, k)" for xs k
  proof -
    from that obtain q C keys where q: "query = Some q" "Query_Criteria q \<noteq> []"
      and run: "normalize_criteria (Query_Criteria q) [] [] = Inr (C, keys)"
      and out: "xs = map (\<lambda>key. the (map_of C key)) (sort keys)"
        "k = concat (map length_prefixed (sort keys))"
      by (auto simp: normalizeConsistencyQuery_def Let_def split: option.splits if_splits)
    from normalize_criteria_inv [OF criteria_inv_start run]
    have inv: "criteria_inv (query_meaning q) C keys" "list_all acceptable_criterion (Query_Criteria q)"
      by (simp_all add: query_meaning_def)
    from criteria_inv_normal [OF inv(1)] inv(2) q out show ?thesis
      by (simp add: acceptable_query_def)
  qed
  show ?thesis (is "?L \<longleftrightarrow> ?R")
  proof
    assume R: ?R
    then have "acceptable_query query" by (elim conjE)
    from normalizeConsistencyQuery_complete [OF this]
    obtain xs k where run: "normalizeConsistencyQuery query = Inr (xs, k)" by (elim exE)
    with sound [OF run] R normal_criteria_unique [of xs rs] show ?L by simp
  qed (rule sound)
qed

lemma normalizeConsistencyQuery_accepts:
  "(\<exists>rs key. normalizeConsistencyQuery query = Inr (rs, key)) \<longleftrightarrow> acceptable_query query"
  using normalizeConsistencyQuery_complete normalizeConsistencyQuery_ok by blast

lemma query_key_meaning:
  assumes "normalizeConsistencyQuery q = Inr (rs, key)" "normalizeConsistencyQuery q' = Inr (rs', key')"
  shows "key = key' \<longleftrightarrow> query_meaning (the q) = query_meaning (the q')"
    and "key = key' \<longleftrightarrow> rs = rs'"
proof -
  have eq: "key = key' \<longleftrightarrow> rs = rs'"
    using assms
    by (auto simp: normalizeConsistencyQuery_ok length_code.concat_inject map_crit_key_inject
        simp del: map_map)
  then show "key = key' \<longleftrightarrow> rs = rs'" .
  have "rs = rs' \<longleftrightarrow> query_meaning (the q) = query_meaning (the q')"
    using assms normal_criteria_unique [of rs rs'] by (auto simp: normalizeConsistencyQuery_ok)
  with eq show "key = key' \<longleftrightarrow> query_meaning (the q) = query_meaning (the q')" by simp
qed

text \<open>
  C14. The key of a consistency query is canonical: two accepted queries have the same key exactly when
  they mean the same, that is when they have the same set of criteria, each with the same set of tags
  and operators, in any order and with any repetition; and then their normal forms are equal.
\<close>

theorem query_key_canonical:
  assumes "normalizeConsistencyQuery q = Inr (rs, key)" "normalizeConsistencyQuery q' = Inr (rs', key')"
  shows "(key = key' \<longleftrightarrow> query_meaning (the q) = query_meaning (the q')) \<and> (key = key' \<longleftrightarrow> rs = rs')"
  using query_key_meaning [OF assms] by blast

definition example_query :: "Tag list list \<Rightarrow> Query option" where
  "example_query tss = Some \<lparr>Query_Criteria = map (\<lambda>ts. Some \<lparr>Criterion_Tags = map Some ts\<rparr>) tss\<rparr>"

theorem query_key_canonical_witness:
  "\<exists>rs key. normalizeConsistencyQuery (example_query [example_tags]) = Inr (rs, key) \<and>
     normalizeConsistencyQuery (example_query [rev example_tags, example_tags]) = Inr (rs, key) \<and>
     query_meaning (the (example_query [example_tags])) =
       query_meaning (the (example_query [rev example_tags, example_tags]))"
proof -
  obtain rs key where a: "normalizeConsistencyQuery (example_query [example_tags]) = Inr (rs, key)"
    and b: "normalizeConsistencyQuery (example_query [rev example_tags, example_tags]) = Inr (rs, key)"
  proof -
    have "normalizeConsistencyQuery (example_query [rev example_tags, example_tags]) =
        normalizeConsistencyQuery (example_query [example_tags])"
      "isl (normalizeConsistencyQuery (example_query [example_tags])) = False" by code_simp+
    then show thesis using that by (metis isl_def sum.exhaust_sel surj_pair)
  qed
  then show ?thesis using query_key_canonical [OF a b] by blast
qed

end
