(* ===== verification/Observation_Checks.thy ===== *)
theory Observation_Checks
  imports Consistency_Checks
begin

text \<open>
  What \<open>ConsistencyChecksFromObservations\<close> of \<^verbatim>\<open>orisun/consistency.go\<close> accepts and returns:
  one check per distinct query of the observations, with the observed position.
\<close>

section \<open>The counters\<close>

fun criterion_tag_count :: "Criterion option \<Rightarrow> nat" where
  "criterion_tag_count None = 0"
| "criterion_tag_count (Some c) = length (Criterion_Tags c)"

fun query_criteria_count :: "Query option \<Rightarrow> nat" where
  "query_criteria_count None = 0"
| "query_criteria_count (Some q) = length (Query_Criteria q)"

fun query_tag_count :: "Query option \<Rightarrow> nat" where
  "query_tag_count None = 0"
| "query_tag_count (Some q) = sum_list (map criterion_tag_count (Query_Criteria q))"

lemma count_tags_ok:
  "n \<le> maxConsistencyTags \<Longrightarrow>
     count_tags cs n = Inr m \<longleftrightarrow>
       m = n + sum_list (map criterion_tag_count cs) \<and> m \<le> maxConsistencyTags"
  by (induction cs n rule: count_tags.induct) (auto simp: Let_def split: option.splits)

lemma count_query_ok:
  assumes "c \<le> maxConsistencyCriteria" "n \<le> maxConsistencyTags"
  shows "count_query q c n = Inr (c', n') \<longleftrightarrow>
     c' = c + query_criteria_count q \<and> n' = n + query_tag_count q \<and>
     c' \<le> maxConsistencyCriteria \<and> n' \<le> maxConsistencyTags"
  using assms by (cases q) (auto simp: count_query_def Let_def count_tags_ok)

section \<open>The loop\<close>

definition query_key :: "ReadCriterion list \<Rightarrow> string" where
  "query_key rs = concat (map length_prefixed (map crit_key rs))"

lemma query_key_inject: "query_key rs = query_key rs' \<longleftrightarrow> rs = rs'"
  by (simp add: query_key_def length_code.concat_inject map_crit_key_inject del: map_map)

definition check_pair :: "ConsistencyCheck \<Rightarrow> ReadTag set set \<times> Position" where
  "check_pair c = (crit_set ` set (Check_Criteria c), Check_Position c)"

definition observation_pair :: "ConsistencyObservation option \<Rightarrow> ReadTag set set \<times> Position" where
  "observation_pair ob =
     (query_meaning (the (Observation_Query (the ob))), the (Observation_Position (the ob)))"

definition observation_ok :: "ConsistencyObservation option \<Rightarrow> bool" where
  "observation_ok ob \<longleftrightarrow>
     (\<exists>obs p. ob = Some obs \<and> Observation_Position obs = Some p \<and>
        validateConsistencyPosition p = Inr () \<and> acceptable_query (Observation_Query obs))"

definition functional :: "('a \<times> 'b) set \<Rightarrow> bool" where
  "functional R \<longleftrightarrow> (\<forall>a b b'. (a, b) \<in> R \<longrightarrow> (a, b') \<in> R \<longrightarrow> b = b')"

definition checks_inv :: "ConsistencyCheck list \<Rightarrow> (string \<times> Position) list \<Rightarrow> bool" where
  "checks_inv checks seen \<longleftrightarrow>
     seen = map (\<lambda>c. (query_key (Check_Criteria c), Check_Position c)) checks \<and>
     distinct (map Check_Criteria checks) \<and> (\<forall>c\<in>set checks. normal_criteria (Check_Criteria c))"

lemma functional_subset: "functional R \<Longrightarrow> S \<subseteq> R \<Longrightarrow> functional S"
  unfolding functional_def by blast

lemma query_key_distinct:
  "distinct (map Check_Criteria checks) \<Longrightarrow>
     distinct (map fst (map (\<lambda>c. (query_key (Check_Criteria c), Check_Position c)) checks))"
  by (induction checks) (auto simp: query_key_inject)

lemma checks_inv_lookup:
  assumes "checks_inv checks seen" "normal_criteria rs"
  shows "map_of seen (query_key rs) = Some p \<longleftrightarrow> (crit_set ` set rs, p) \<in> check_pair ` set checks"
proof -
  have "map_of seen (query_key rs) = Some p \<longleftrightarrow> (query_key rs, p) \<in> set seen"
    using assms query_key_distinct [of checks]
    by (intro map_of_eq_Some_iff) (simp add: checks_inv_def)
  also have "\<dots> \<longleftrightarrow> (\<exists>c\<in>set checks. Check_Criteria c = rs \<and> Check_Position c = p)"
    using assms by (auto simp: checks_inv_def query_key_inject)
  also have "\<dots> \<longleftrightarrow> (crit_set ` set rs, p) \<in> check_pair ` set checks"
    using assms normal_criteria_unique [of rs] by (auto simp: check_pair_def checks_inv_def)
  finally show ?thesis .
qed

lemma checks_inv_functional:
  assumes "checks_inv checks seen"
  shows "functional (check_pair ` set checks)"
  unfolding functional_def
proof (intro allI impI)
  fix M p p' assume pairs: "(M, p) \<in> check_pair ` set checks" "(M, p') \<in> check_pair ` set checks"
  then obtain c where "c \<in> set checks" "M = crit_set ` set (Check_Criteria c)"
    by (auto simp: check_pair_def)
  with assms have "normal_criteria (Check_Criteria c)" by (simp add: checks_inv_def)
  from checks_inv_lookup [OF assms this] pairs \<open>M = _\<close> show "p = p'" by (metis option.inject)
qed

lemma checks_inv_add:
  assumes "checks_inv checks seen" "normal_criteria rs" "map_of seen (query_key rs) = None"
  shows "checks_inv (checks @ [\<lparr>Check_Criteria = rs, Check_Position = p\<rparr>])
           (AList.update (query_key rs) p seen)"
proof -
  have "query_key rs \<notin> fst ` set seen" using assms(3) by (simp add: map_of_eq_None_iff)
  then have "rs \<notin> Check_Criteria ` set checks" using assms(1) by (force simp: checks_inv_def)
  then show ?thesis using assms update_new_key [of seen "query_key rs" p] by (simp add: checks_inv_def)
qed

lemma observation_ok_cases:
  assumes "observation_ok ob"
  obtains obs p rs where "ob = Some obs" "Observation_Position obs = Some p"
    "validateConsistencyPosition p = Inr ()" "normal_criteria rs"
    "normalizeConsistencyQuery (Observation_Query obs) = Inr (rs, query_key rs)"
    "observation_pair ob = (crit_set ` set rs, p)"
proof -
  from assms obtain obs p where o: "ob = Some obs" "Observation_Position obs = Some p"
    "validateConsistencyPosition p = Inr ()" "acceptable_query (Observation_Query obs)"
    by (auto simp: observation_ok_def)
  then obtain rs key where "normalizeConsistencyQuery (Observation_Query obs) = Inr (rs, key)"
    using normalizeConsistencyQuery_accepts by blast
  with o that [of obs p rs] show thesis
    by (auto simp: normalizeConsistencyQuery_ok query_key_def observation_pair_def)
qed

text \<open>One iteration: it succeeds exactly on an acceptable observation that contradicts no check.\<close>

lemma observation_step_sound:
  assumes inv: "checks_inv checks seen"
    and run: "observation_step ob (checks, seen, c, n) = Inr (checks', seen', c', n')"
  shows "observation_ok ob \<and> count_query (Observation_Query (the ob)) c n = Inr (c', n') \<and>
    checks_inv checks' seen' \<and>
    check_pair ` set checks' = insert (observation_pair ob) (check_pair ` set checks)"
proof -
  from run have ok: "observation_ok ob"
    using normalizeConsistencyQuery_accepts unfolding observation_ok_def
    by (fastforce simp: observation_step_def split: option.splits)
  then obtain ob' p rs where o: "ob = Some ob'" "Observation_Position ob' = Some p"
    "validateConsistencyPosition p = Inr ()" "normal_criteria rs"
    "normalizeConsistencyQuery (Observation_Query ob') = Inr (rs, query_key rs)"
    "observation_pair ob = (crit_set ` set rs, p)" by (rule observation_ok_cases)
  have count: "count_query (Observation_Query (the ob)) c n = Inr (c', n')"
    using run o by (auto simp: observation_step_def split: option.splits if_splits)
  show ?thesis
  proof (cases "map_of seen (query_key rs)")
    case None
    then show ?thesis
      using ok count run o checks_inv_add [OF inv o(4) None, of p]
      by (auto simp: observation_step_def check_pair_def)
  next
    case (Some previous)
    then have "previous = p" "checks' = checks" "seen' = seen"
      using run o count by (auto simp: observation_step_def split: if_splits)
    moreover from this have "observation_pair ob \<in> check_pair ` set checks"
      using Some checks_inv_lookup [OF inv o(4)] o(6) by simp
    ultimately show ?thesis using ok count inv by auto
  qed
qed

lemma observation_step_complete:
  assumes inv: "checks_inv checks seen" and ok: "observation_ok ob"
    and count: "count_query (Observation_Query (the ob)) c n = Inr (c', n')"
    and fn: "functional (insert (observation_pair ob) (check_pair ` set checks))"
  shows "\<exists>checks' seen'. observation_step ob (checks, seen, c, n) = Inr (checks', seen', c', n')"
proof -
  from ok obtain ob' p rs where o: "ob = Some ob'" "Observation_Position ob' = Some p"
    "validateConsistencyPosition p = Inr ()" "normal_criteria rs"
    "normalizeConsistencyQuery (Observation_Query ob') = Inr (rs, query_key rs)"
    "observation_pair ob = (crit_set ` set rs, p)" by (rule observation_ok_cases)
  have "previous = p" if "map_of seen (query_key rs) = Some previous" for previous
    using that fn checks_inv_lookup [OF inv o(4)] o(6) unfolding functional_def by auto
  then show ?thesis
    using o count by (cases "map_of seen (query_key rs)") (auto simp: observation_step_def)
qed

abbreviation criteria_total :: "ConsistencyObservation option list \<Rightarrow> nat" where
  "criteria_total obs \<equiv> sum_list (map (\<lambda>ob. query_criteria_count (Observation_Query (the ob))) obs)"

abbreviation tags_total :: "ConsistencyObservation option list \<Rightarrow> nat" where
  "tags_total obs \<equiv> sum_list (map (\<lambda>ob. query_tag_count (Observation_Query (the ob))) obs)"

lemma observation_loop_sound:
  assumes "checks_inv checks seen" "c \<le> maxConsistencyCriteria" "n \<le> maxConsistencyTags"
    "observation_loop obs (checks, seen, c, n) = Inr (r, seen', c', n')"
  shows "checks_inv r seen' \<and> list_all observation_ok obs \<and>
    c + criteria_total obs \<le> maxConsistencyCriteria \<and> n + tags_total obs \<le> maxConsistencyTags \<and>
    check_pair ` set r = check_pair ` set checks \<union> observation_pair ` set obs"
  using assms
proof (induction obs arbitrary: checks seen c n)
  case (Cons ob obs)
  then obtain checks1 seen1 c1 n1 where
    step: "observation_step ob (checks, seen, c, n) = Inr (checks1, seen1, c1, n1)"
    and rest: "observation_loop obs (checks1, seen1, c1, n1) = Inr (r, seen', c', n')" by auto
  note sound = observation_step_sound [OF Cons.prems(1) step]
  then have sizes: "c1 = c + query_criteria_count (Observation_Query (the ob))"
    "n1 = n + query_tag_count (Observation_Query (the ob))"
    "c1 \<le> maxConsistencyCriteria" "n1 \<le> maxConsistencyTags"
    using count_query_ok [OF Cons.prems(2,3)] by auto
  from Cons.IH [of checks1 seen1 c1 n1] sound sizes rest show ?case by (auto simp: add.assoc)
qed auto

lemma observation_loop_complete:
  assumes "checks_inv checks seen" "c \<le> maxConsistencyCriteria" "n \<le> maxConsistencyTags"
    "list_all observation_ok obs" "c + criteria_total obs \<le> maxConsistencyCriteria"
    "n + tags_total obs \<le> maxConsistencyTags"
    "functional (check_pair ` set checks \<union> observation_pair ` set obs)"
  shows "\<exists>r. observation_loop obs (checks, seen, c, n) = Inr r"
  using assms
proof (induction obs arbitrary: checks seen c n)
  case (Cons ob obs)
  let ?c = "c + query_criteria_count (Observation_Query (the ob))"
  let ?n = "n + query_tag_count (Observation_Query (the ob))"
  have count: "count_query (Observation_Query (the ob)) c n = Inr (?c, ?n)"
    using Cons.prems by (simp add: count_query_ok)
  have "functional (insert (observation_pair ob) (check_pair ` set checks))"
    using Cons.prems(7) by (rule functional_subset) auto
  with observation_step_complete [OF Cons.prems(1) _ count] Cons.prems(4)
  obtain checks' seen' where
    step: "observation_step ob (checks, seen, c, n) = Inr (checks', seen', ?c, ?n)" by auto
  from Cons.IH [of checks' seen' ?c ?n] Cons.prems step observation_step_sound [OF Cons.prems(1) step]
  show ?case by (auto simp: add.assoc)
qed simp

lemma checks_inv_start: "checks_inv [] []"
  by (simp add: checks_inv_def)

lemmas loop_sound = observation_loop_sound [OF checks_inv_start, of 0 0, simplified]
lemmas loop_complete = observation_loop_complete [OF checks_inv_start, of 0 0, simplified]

lemma ConsistencyChecks_run:
  assumes "ConsistencyChecksFromObservations obs = Inr checks"
  obtains seen' c' n' where "observation_loop obs ([], [], 0, 0) = Inr (checks, seen', c', n')"
    "length obs \<le> maxConsistencyObservations"
  using assms by (auto simp: ConsistencyChecksFromObservations_def split: if_splits)

lemma ConsistencyChecks_result:
  assumes "ConsistencyChecksFromObservations obs = Inr checks"
  shows "check_pair ` set checks = observation_pair ` set obs"
    and "distinct (map Check_Criteria checks)"
    and "\<forall>c\<in>set checks. normal_criteria (Check_Criteria c)"
    and "functional (observation_pair ` set obs)"
proof -
  from assms obtain seen' c' n' where
    run: "observation_loop obs ([], [], 0, 0) = Inr (checks, seen', c', n')" by (rule ConsistencyChecks_run)
  note sound = loop_sound [OF run]
  then show set: "check_pair ` set checks = observation_pair ` set obs"
    and "distinct (map Check_Criteria checks)"
    and "\<forall>c\<in>set checks. normal_criteria (Check_Criteria c)"
    by (simp_all add: checks_inv_def)
  from sound show "functional (observation_pair ` set obs)"
    using checks_inv_functional set by metis
qed

lemma ConsistencyChecks_accepts:
  "(\<exists>checks. ConsistencyChecksFromObservations obs = Inr checks) \<longleftrightarrow>
     length obs \<le> maxConsistencyObservations \<and> list_all observation_ok obs \<and>
     criteria_total obs \<le> maxConsistencyCriteria \<and> tags_total obs \<le> maxConsistencyTags \<and>
     functional (observation_pair ` set obs)" (is "?L \<longleftrightarrow> ?R")
proof
  assume ?L
  then obtain checks where ok: "ConsistencyChecksFromObservations obs = Inr checks" ..
  then obtain seen' c' n' where "observation_loop obs ([], [], 0, 0) = Inr (checks, seen', c', n')"
    "length obs \<le> maxConsistencyObservations" by (rule ConsistencyChecks_run)
  with loop_sound [of obs checks] ConsistencyChecks_result(4) [OF ok] show ?R by simp
next
  assume ?R
  then show ?L using loop_complete [of obs]
    by (auto simp: ConsistencyChecksFromObservations_def)
qed

lemma count_tags_error_code: "count_tags cs k = Inl e \<Longrightarrow> coded InvalidArgument e"
  by (induction cs k rule: count_tags.induct) (auto simp: Let_def split: option.splits if_splits)

lemma count_query_error_code: "count_query q c n = Inl e \<Longrightarrow> coded InvalidArgument e"
  by (auto simp: count_query_def Let_def bindR_Inl_iff count_tags_error_code
      split: option.splits if_splits)

lemma observation_error_code [simp]: "coded InvalidArgument (observation_error e)"
  unfolding observation_error_def by (rule CodeOf_simps)

lemma observation_step_error_code:
  assumes "observation_step ob st = Inl e"
  shows "coded InvalidArgument e"
proof -
  obtain checks seen c n where st: "st = (checks, seen, c, n)" by (metis prod.exhaust)
  show ?thesis
    using assms unfolding st observation_step_def
    by (auto simp: bindR_Inl_iff map_errorR_Inl_iff count_query_error_code split: option.splits if_splits)
qed

lemma observation_loop_error_code:
  "observation_loop obs st = Inl e \<Longrightarrow> coded InvalidArgument e"
  by (induction obs arbitrary: st) (auto simp: bindR_Inl_iff observation_step_error_code)

lemma ConsistencyChecks_error_code:
  "ConsistencyChecksFromObservations obs = Inl e \<Longrightarrow> coded InvalidArgument e"
  by (auto simp: ConsistencyChecksFromObservations_def bindR_Inl_iff observation_loop_error_code
      split: if_splits)

text \<open>
  C15. The checks of an accepted list of observations are exactly its observations: the same pairs of a
  query's meaning and its position, one check per query, each in normal form, and no query with two
  positions.
\<close>

theorem observations_become_checks:
  assumes "ConsistencyChecksFromObservations obs = Inr checks"
  shows "check_pair ` set checks = observation_pair ` set obs \<and> distinct (map Check_Criteria checks) \<and>
    (\<forall>c\<in>set checks. normal_criteria (Check_Criteria c)) \<and> functional (observation_pair ` set obs)"
  using ConsistencyChecks_result [OF assms] by blast

definition example_observation :: "Tag list list \<Rightarrow> Position \<Rightarrow> ConsistencyObservation option" where
  "example_observation tss p = Some \<lparr>Observation_Query = example_query tss, Observation_Position = Some p\<rparr>"

definition example_observations :: "ConsistencyObservation option list" where
  "example_observations =
     [example_observation [[\<lparr>Tag_Key = ''id'', Tag_Value = ''7'', Tag_Operator = ''eq''\<rparr>]] (Position 4 4)]"

theorem observations_become_checks_witness:
  "\<exists>checks. ConsistencyChecksFromObservations example_observations = Inr checks \<and> length checks = 1 \<and>
     check_pair ` set checks = observation_pair ` set example_observations"
proof -
  let ?check = "\<lparr>Check_Criteria = [\<lparr>ReadCriterion_Tags = [\<lparr>Tag_Key = ''id'', Tag_Value = ''7'', Tag_Operator = ''''\<rparr>]\<rparr>],
    Check_Position = Position 4 4\<rparr>"
  have c: "ConsistencyChecksFromObservations example_observations = Inr [?check]" by code_simp
  then show ?thesis using observations_become_checks [OF c] by auto
qed

text \<open>
  C24. A list of observations is accepted exactly when it is within the limits on observations, criteria
  and tags, every observation has a valid position and an acceptable query, and no query is observed at
  two positions; every rejection is \<open>InvalidArgument\<close>.
\<close>

theorem observations_accepted_exactly:
  "(case ConsistencyChecksFromObservations obs of
      Inr _ \<Rightarrow> True | Inl e \<Rightarrow> CodeOf (Some e) = InvalidArgument) \<and>
   ((\<exists>checks. ConsistencyChecksFromObservations obs = Inr checks) \<longleftrightarrow>
     length obs \<le> maxConsistencyObservations \<and> list_all observation_ok obs \<and>
     criteria_total obs \<le> maxConsistencyCriteria \<and> tags_total obs \<le> maxConsistencyTags \<and>
     functional (observation_pair ` set obs))"
  using ConsistencyChecks_accepts [of obs] ConsistencyChecks_error_code [of obs]
  by (auto split: sum.splits)

end
