(* ===== verification/Write_Context.thy ===== *)
theory Write_Context
  imports Observation_Checks
begin

text \<open>
  Write identifiers and the durable record of the observations of a save
  (\<^verbatim>\<open>orisun/write_context.go\<close>).

  The JSON text of the stored observations is written and read by \<^verbatim>\<open>goccy/go-json\<close>: \<open>marshal\<close> and
  \<open>unmarshal\<close> are parameters. Decoding into \<open>map[string]any\<close> turns a stored predicate list into a
  generic JSON array; \<open>reload_field\<close> is that view.
\<close>

record storedConsistencyObservation =
  Stored_Criteria :: "encoded_criterion list"
  Stored_TransactionID :: int64
  Stored_GlobalID :: int64

record WriteContext =
  WriteContext_WriteId :: string
  WriteContext_Consistency :: "ConsistencyObservation option list"

record GetWriteContextRequest =
  GetWriteContext_Boundary :: string
  GetWriteContext_WriteId :: string

definition MarshalConsistency ::
    "(storedConsistencyObservation list \<Rightarrow> string result) \<Rightarrow> ConsistencyCheck list \<Rightarrow> string result" where
  "MarshalConsistency marshal checks =
     bindR (mapR (\<lambda>check.
              bindR (ValidateReadCriteria (Check_Criteria check)) (\<lambda>_.
                Inr \<lparr>Stored_Criteria = EncodeReadCriteria (Check_Criteria check),
                     Stored_TransactionID = CommitPosition (Check_Position check),
                     Stored_GlobalID = PreparePosition (Check_Position check)\<rparr>)) checks)
       marshal"

definition decode_observation ::
    "(json \<Rightarrow> TagPredicate list result) \<Rightarrow> storedConsistencyObservation \<Rightarrow>
     ConsistencyObservation option result" where
  "decode_observation redecode obs =
     bindR (mapR (\<lambda>flds.
              bindR (map_errorR (WrapError ''decode write context: '') (DecodeCriterion redecode flds))
                (\<lambda>tags. Inr (Some \<lparr>Criterion_Tags = map Some tags\<rparr>))) (Stored_Criteria obs))
       (\<lambda>criteria.
         Inr (Some \<lparr>Observation_Query = Some \<lparr>Query_Criteria = criteria\<rparr>,
                   Observation_Position = Some (Position (Stored_TransactionID obs) (Stored_GlobalID obs))\<rparr>))"

definition DecodeWriteContext ::
    "(string \<Rightarrow> storedConsistencyObservation list result) \<Rightarrow> (json \<Rightarrow> TagPredicate list result) \<Rightarrow>
     string \<Rightarrow> string \<Rightarrow> WriteContext result" where
  "DecodeWriteContext unmarshal redecode writeID text =
     bindR (map_errorR (WrapError ''decode write context: '') (unmarshal text)) (\<lambda>stored.
     bindR (mapR (decode_observation redecode) stored) (\<lambda>consistency.
       Inr \<lparr>WriteContext_WriteId = writeID, WriteContext_Consistency = consistency\<rparr>))"

definition WriteID :: "int64 \<Rightarrow> int64 \<Rightarrow> string" where
  "WriteID commit prepare = FormatInt commit @ '':'' @ FormatInt prepare"

definition ValidateWriteContextRequest :: "GetWriteContextRequest option \<Rightarrow> Position result" where
  "ValidateWriteContextRequest req =
     (let invalid = Inl (Coded InvalidArgument ''boundary and a valid write_id are required'')
      in case req of
           None \<Rightarrow> invalid
         | Some r \<Rightarrow>
             if GetWriteContext_Boundary r = '''' then invalid
             else (case split_byte (CHR '':'') (GetWriteContext_WriteId r) of
                     [a, b] \<Rightarrow>
                       (case (ParseInt a, ParseInt b) of
                          (Some commit, Some prepare) \<Rightarrow>
                            if commit < 0 \<or> prepare < 0 \<or>
                               WriteID commit prepare \<noteq> GetWriteContext_WriteId r
                            then invalid else Inr (Position commit prepare)
                        | _ \<Rightarrow> invalid)
                   | _ \<Rightarrow> invalid))"

section \<open>Write identifiers\<close>

lemma FormatInt_no_colon: "CHR '':'' \<notin> set (FormatInt i)"
  using nat_digits_no_colon by (auto simp: FormatInt_def)

lemma WriteID_split: "split_byte (CHR '':'') (WriteID c p) = [FormatInt c, FormatInt p]"
  by (simp add: WriteID_def FormatInt_no_colon)

lemma WriteID_inject: "WriteID c p = WriteID c' p' \<longleftrightarrow> c = c' \<and> p = p'"
proof
  assume "WriteID c p = WriteID c' p'"
  then have "[FormatInt c, FormatInt p] = [FormatInt c', FormatInt p']" by (metis WriteID_split)
  then show "c = c' \<and> p = p'" by (simp add: FormatInt_inject)
qed simp

text \<open>Exactly the identifiers of positions with non-negative 64-bit components are accepted.\<close>

lemma ValidateWriteContextRequest_ok:
  "ValidateWriteContextRequest (Some r) = Inr (Position c p) \<longleftrightarrow>
     GetWriteContext_Boundary r \<noteq> '''' \<and> 0 \<le> c \<and> 0 \<le> p \<and> in_int64 c \<and> in_int64 p \<and>
     GetWriteContext_WriteId r = WriteID c p"
proof
  assume ok: "ValidateWriteContextRequest (Some r) = Inr (Position c p)"
  then obtain a b where "ParseInt a = Some c" "ParseInt b = Some p" "0 \<le> c" "0 \<le> p"
    "WriteID c p = GetWriteContext_WriteId r" "GetWriteContext_Boundary r \<noteq> ''''"
    by (auto simp: ValidateWriteContextRequest_def Let_def split: if_splits list.splits option.splits)
  then show "GetWriteContext_Boundary r \<noteq> '''' \<and> 0 \<le> c \<and> 0 \<le> p \<and> in_int64 c \<and> in_int64 p \<and>
     GetWriteContext_WriteId r = WriteID c p"
    by (auto dest: ParseInt_in_int64)
next
  assume "GetWriteContext_Boundary r \<noteq> '''' \<and> 0 \<le> c \<and> 0 \<le> p \<and> in_int64 c \<and> in_int64 p \<and>
     GetWriteContext_WriteId r = WriteID c p"
  then show "ValidateWriteContextRequest (Some r) = Inr (Position c p)"
    by (simp add: ValidateWriteContextRequest_def WriteID_split)
qed

section \<open>Storing and reading observations\<close>

definition predicate_json :: "TagPredicate \<Rightarrow> json" where
  "predicate_json p = JObj [(''operator'', JStr (TagPredicate_Operator p)), (''value'', JStr (TagPredicate_Value p))]"

fun reload_field :: "encoded_field \<Rightarrow> encoded_field" where
  "reload_field (FPredicates ps) = FJson (JArr (map predicate_json ps))"
| "reload_field f = f"

definition reload_observation :: "storedConsistencyObservation \<Rightarrow> storedConsistencyObservation" where
  "reload_observation st =
     \<lparr>Stored_Criteria = map (map (\<lambda>(k, f). (k, reload_field f))) (Stored_Criteria st),
      Stored_TransactionID = Stored_TransactionID st, Stored_GlobalID = Stored_GlobalID st\<rparr>"

text \<open>
  What the code relies on: the array of predicate objects is decoded to the predicates, and a
  marshalled list of observations is unmarshalled to its generic view.
\<close>

definition redecode_ok :: "(json \<Rightarrow> TagPredicate list result) \<Rightarrow> bool" where
  "redecode_ok redecode \<longleftrightarrow> (\<forall>ps. redecode (JArr (map predicate_json ps)) = Inr ps)"

definition stored_codec_ok ::
    "(storedConsistencyObservation list \<Rightarrow> string result) \<Rightarrow>
     (string \<Rightarrow> storedConsistencyObservation list result) \<Rightarrow> bool" where
  "stored_codec_ok marshal unmarshal \<longleftrightarrow>
     (\<forall>obs text. marshal obs = Inr text \<longrightarrow> unmarshal text = Inr (map reload_observation obs))"

lemma encode_predicates_nonempty:
  "ps \<noteq> [] \<Longrightarrow> encode_predicates ps = FPredicates qs \<Longrightarrow> qs \<noteq> []"
  by (cases ps rule: encode_predicates.cases) (auto split: if_splits)

lemma reload_decode:
  assumes "redecode_ok redecode" "ps \<noteq> []"
  shows "DecodeTagPredicates redecode (reload_field (encode_predicates ps)) = Inr ps"
proof (cases "encode_predicates ps")
  case (FPredicates qs)
  then have "qs = ps" by (cases ps rule: encode_predicates.cases) (auto split: if_splits)
  then show ?thesis using assms FPredicates by (simp add: DecodeTagPredicates_def redecode_ok_def)
next
  case (FString str)
  then show ?thesis using DecodeTagPredicates_encode [of redecode ps] by simp
next
  case (FJson j)
  then show ?thesis by (cases ps rule: encode_predicates.cases) (auto split: if_splits)
qed

lemma DecodeCriterion_reload:
  assumes "redecode_ok redecode"
  shows "DecodeCriterion redecode (map (\<lambda>(k, f). (k, reload_field f)) (EncodeCriterion tags)) =
         DecodeCriterion redecode (EncodeCriterion tags)"
proof -
  let ?enc = "EncodeCriterion tags"
  let ?rel = "map (\<lambda>(k, f). (k, reload_field f)) ?enc"
  have keys: "map fst ?rel = map fst ?enc" by (simp add: case_prod_unfold comp_def)
  have "DecodeTagPredicates redecode (the (map_of ?rel k)) = DecodeTagPredicates redecode (the (map_of ?enc k))"
    if "k \<in> set (sort (map fst ?enc))" for k
  proof -
    from that have "tags_with_key k tags \<noteq> []"
      using EncodeCriterion_keys(2) [of tags] by (auto simp: filter_empty_conv)
    then show ?thesis
      using assms by (simp add: map_of_map EncodeCriterion_lookup reload_decode)
  qed
  then have "mapR (\<lambda>key. bindR (DecodeTagPredicates redecode (the (map_of ?rel key))) (mapR (decode_predicate key)))
        (sort (map fst ?enc)) =
      mapR (\<lambda>key. bindR (DecodeTagPredicates redecode (the (map_of ?enc key))) (mapR (decode_predicate key)))
        (sort (map fst ?enc))"
    by (intro mapR_cong) simp_all
  then show ?thesis by (simp only: DecodeCriterion_def keys Let_def)
qed

text \<open>The observation a check is read back as: its criteria in canonical form.\<close>

definition check_observation :: "ConsistencyCheck \<Rightarrow> ConsistencyObservation" where
  "check_observation c =
     \<lparr>Observation_Query = Some \<lparr>Query_Criteria =
        map (\<lambda>r. Some \<lparr>Criterion_Tags =
          map Some (map canonical_tag (sort_key Tag_Key (ReadCriterion_Tags r)))\<rparr>) (Check_Criteria c)\<rparr>,
      Observation_Position = Some (Check_Position c)\<rparr>"

lemma write_context_roundtrip:
  assumes codec: "stored_codec_ok marshal unmarshal" and rd: "redecode_ok redecode"
    and run: "MarshalConsistency marshal checks = Inr text"
  shows "DecodeWriteContext unmarshal redecode w text =
    Inr \<lparr>WriteContext_WriteId = w, WriteContext_Consistency = map (Some \<circ> check_observation) checks\<rparr>"
proof -
  let ?store = "\<lambda>c. \<lparr>Stored_Criteria = EncodeReadCriteria (Check_Criteria c),
     Stored_TransactionID = CommitPosition (Check_Position c),
     Stored_GlobalID = PreparePosition (Check_Position c)\<rparr>"
  from run obtain stored where enc: "marshal stored = Inr text"
    and st: "mapR (\<lambda>c. bindR (ValidateReadCriteria (Check_Criteria c)) (\<lambda>_. Inr (?store c))) checks = Inr stored"
    by (auto simp: MarshalConsistency_def)
  from st have valid: "\<forall>c\<in>set checks. ValidateReadCriteria (Check_Criteria c) = Inr ()"
    by (auto dest!: mapR_Inr_set)
  then have stored: "stored = map ?store checks"
    using st mapR_cong_Inr [of checks "\<lambda>c. bindR (ValidateReadCriteria (Check_Criteria c)) (\<lambda>_. Inr (?store c))" ?store]
    by simp
  have "decode_observation redecode (reload_observation (?store c)) = Inr (Some (check_observation c))"
    if "c \<in> set checks" for c
  proof -
    have tags: "DecodeCriterion redecode (map (\<lambda>(k, f). (k, reload_field f))
        (EncodeCriterion (ReadCriterion_Tags r))) =
        Inr (map canonical_tag (sort_key Tag_Key (ReadCriterion_Tags r)))"
      if "r \<in> set (Check_Criteria c)" for r
      using valid \<open>c \<in> set checks\<close> that
      by (simp add: DecodeCriterion_reload [OF rd] DecodeCriterion_EncodeCriterion list_all_iff
          ValidateReadCriteria_ok)
    show ?thesis
      by (cases "Check_Position c")
        (auto simp: decode_observation_def reload_observation_def EncodeReadCriteria_def
          check_observation_def tags intro!: mapR_cong_Inr)
  qed
  then have "mapR (decode_observation redecode) (map reload_observation stored) =
      Inr (map (Some \<circ> check_observation) checks)"
    unfolding stored map_map mapR_map by (intro mapR_cong_Inr) (simp add: comp_def)
  then show ?thesis
    using codec enc by (simp add: DecodeWriteContext_def stored_codec_ok_def del: mapR_map)
qed

text \<open>
  C29. Write identifiers are unambiguous: a request with a boundary is valid for exactly one position, the
  one whose identifier it carries, and different positions have different identifiers.
\<close>

theorem write_identifier_unambiguous:
  "(ValidateWriteContextRequest (Some r) = Inr (Position c p) \<longleftrightarrow>
     GetWriteContext_Boundary r \<noteq> '''' \<and> 0 \<le> c \<and> 0 \<le> p \<and> in_int64 c \<and> in_int64 p \<and>
     GetWriteContext_WriteId r = WriteID c p) \<and>
   (WriteID c p = WriteID c' p' \<longleftrightarrow> c = c' \<and> p = p')"
  using ValidateWriteContextRequest_ok WriteID_inject by blast

end
