(* ===== verification/Sqlite_Criteria.thy ===== *)
theory Sqlite_Criteria
  imports Query_Predicates
begin

text \<open>
  The SQL text of content queries on SQLite: \<^verbatim>\<open>sqlite/sqlite_eventstore.go\<close> (literals, paths,
  predicates, \<open>buildCriteriaSQL\<close>) and \<^verbatim>\<open>sqlite/consistency.go\<close> (\<open>latestCriteriaQueries\<close>,
  \<open>minimalCriteria\<close>). Values are inlined as escaped literals; the first group of lemmas shows that
  an inlined value is read back by SQL's literal syntax and cannot reach past its quotes.

  Two library functions are parameters, in the record \<open>json_externals\<close>: the re-decoding of a generic
  JSON value into predicates (\<^verbatim>\<open>goccy/go-json\<close>) and the text \<open>fmt.Sprint\<close> gives a decoded value.
\<close>

record json_externals =
  ext_redecode :: "json \<Rightarrow> TagPredicate list result"
  ext_sprint :: "json \<Rightarrow> string"

section \<open>Literals and expressions\<close>

definition quoteIdent :: "string \<Rightarrow> string" where
  "quoteIdent name = [CHR 0x22] @ replace_byte (CHR 0x22) [CHR 0x22, CHR 0x22] name @ [CHR 0x22]"

definition sqlEscapeLiteral :: "string \<Rightarrow> string" where
  "sqlEscapeLiteral v = [CHR 0x27] @ replace_byte (CHR 0x27) [CHR 0x27, CHR 0x27] v @ [CHR 0x27]"

definition jsonPathLiteral :: "string \<Rightarrow> string" where
  "jsonPathLiteral key =
     (let k = replace_byte (CHR 0x22) [CHR 0x22, CHR 0x22] key;
          k' = replace_byte (CHR 0x27) [CHR 0x27, CHR 0x27] k
      in [CHR 0x27] @ ''$.'' @ [CHR 0x22] @ k' @ [CHR 0x22, CHR 0x27])"

text \<open>A quoted word of the SQL text.\<close>

abbreviation quoted :: "string \<Rightarrow> string" where
  "quoted s \<equiv> [CHR 0x27] @ s @ [CHR 0x27]"

definition sqliteJSONScalarTextExpr :: "string \<Rightarrow> string" where
  "sqliteJSONScalarTextExpr key =
     (let path = jsonPathLiteral key;
          base = ''json_extract(data, '' @ path @ '')''
      in ''CASE json_type(data, '' @ path @ '') WHEN '' @ quoted ''true'' @ '' THEN '' @ quoted ''true'' @
         '' WHEN '' @ quoted ''false'' @ '' THEN '' @ quoted ''false'' @ '' ELSE CAST('' @ base @ '' AS TEXT) END'')"

text \<open>The dynamic types of a value: a string, or another decoded JSON value printed by \<open>fmt.Sprint\<close>.\<close>

definition sqlValueLiteral :: "string \<Rightarrow> string result" where
  "sqlValueLiteral s =
     (if CHR 0x00 \<in> set s then Inl (PlainError ''criteria value contains NUL byte'')
      else Inr (sqlEscapeLiteral s))"

definition range_predicate :: "string \<Rightarrow> string \<Rightarrow> string \<Rightarrow> string" where
  "range_predicate key op lit =
     (let path = jsonPathLiteral key; expr = sqliteJSONScalarTextExpr key
      in ''(CASE json_type(data, '' @ path @ '') WHEN '' @ quoted ''text'' @ '' THEN ('' @ expr @
         '' COLLATE BINARY '' @ op @ '' '' @ lit @ '') WHEN '' @ quoted ''integer'' @
         '' THEN (orisun_compare_number(data -> '' @ path @ '', '' @ lit @ '') '' @ op @ '' 0) WHEN '' @
         quoted ''real'' @ '' THEN (orisun_compare_number(data -> '' @ path @ '', '' @ lit @ '') '' @ op @
         '' 0) ELSE 0 END)'')"

definition render_predicate :: "string \<Rightarrow> TagPredicate \<Rightarrow> string result" where
  "render_predicate key predicate =
     bindR (TagSQLOperator (TagPredicate_Operator predicate)) (\<lambda>op.
     bindR (sqlValueLiteral (TagPredicate_Value predicate)) (\<lambda>lit.
       if op = ''='' \<or> op = ''<>''
       then Inr (sqliteJSONScalarTextExpr key @ '' '' @ op @ '' '' @ lit)
       else Inr (range_predicate key op lit)))"

definition render_predicates :: "string \<Rightarrow> TagPredicate list \<Rightarrow> string result" where
  "render_predicates key predicates =
     bindR (mapR (render_predicate key) predicates) (\<lambda>parts.
       Inr (''('' @ join '' AND '' parts @ '')''))"

definition render_scalar :: "string \<Rightarrow> string \<Rightarrow> string result" where
  "render_scalar key s =
     bindR (map_errorR (WrapError ''criteria key %q: '') (sqlValueLiteral s)) (\<lambda>lit.
       Inr (sqliteJSONScalarTextExpr key @ '' = '' @ lit))"

definition renderCriterionPredicate ::
    "json_externals \<Rightarrow> string \<Rightarrow> encoded_field \<Rightarrow> string result" where
  "renderCriterionPredicate ext key val =
     (case val of
        FPredicates _ \<Rightarrow> bindR (DecodeTagPredicates (ext_redecode ext) val) (render_predicates key)
      | FJson (JArr _) \<Rightarrow> bindR (DecodeTagPredicates (ext_redecode ext) val) (render_predicates key)
      | FString s \<Rightarrow> render_scalar key s
      | FJson j \<Rightarrow> render_scalar key (ext_sprint ext j))"

text \<open>One AND group; an empty map contributes nothing to the disjunction.\<close>

definition render_criterion :: "json_externals \<Rightarrow> encoded_criterion \<Rightarrow> string option result" where
  "render_criterion ext c =
     bindR (mapR (\<lambda>k. renderCriterionPredicate ext k (the (map_of c k))) (sort (map fst c))) (\<lambda>andParts.
       Inr (if length andParts > 0 then Some (''('' @ join '' AND '' andParts @ '')'') else None))"

definition buildCriteriaSQL :: "json_externals \<Rightarrow> encoded_criterion list \<Rightarrow> string result" where
  "buildCriteriaSQL ext criteria =
     (if length criteria = 0 then Inr ''1''
      else bindR (mapR (render_criterion ext) criteria) (\<lambda>groups.
             let orParts = List.map_filter (\<lambda>g. g) groups
             in if length orParts = 0 then Inr ''1'' else Inr (join '' OR '' orParts)))"

section \<open>Minimal consistency lookups\<close>

record criterionLookup =
  Lookup_criterion :: encoded_criterion
  Lookup_where :: string

text \<open>
  \<open>SELECT transaction_id, global_id FROM orisun_es_event [WHERE w] ORDER BY transaction_id DESC,
  global_id DESC LIMIT 1\<close> is represented by its optional condition \<open>w\<close>.
\<close>

type_synonym latest_query = "string option"

definition criterionContains :: "encoded_criterion \<Rightarrow> encoded_criterion \<Rightarrow> bool" where
  "criterionContains criterion sub =
     (if length sub > length criterion then False
      else list_all (\<lambda>(key, val). map_of criterion key = Some val) sub)"

fun minimalCriteria_loop :: "criterionLookup list \<Rightarrow> criterionLookup list \<Rightarrow> criterionLookup list" where
  "minimalCriteria_loop [] minimal = minimal"
| "minimalCriteria_loop (candidate # criteria) minimal =
     (if list_ex (\<lambda>existing. criterionContains (Lookup_criterion candidate) (Lookup_criterion existing)) minimal
      then minimalCriteria_loop criteria minimal
      else minimalCriteria_loop criteria
             (filter (\<lambda>existing. \<not> criterionContains (Lookup_criterion existing) (Lookup_criterion candidate))
                minimal @ [candidate]))"

definition minimalCriteria :: "criterionLookup list \<Rightarrow> criterionLookup list" where
  "minimalCriteria criteria = minimalCriteria_loop criteria []"

definition latestCriteriaQueries :: "json_externals \<Rightarrow> ReadCriterion list \<Rightarrow> latest_query list result" where
  "latestCriteriaQueries ext criteria =
     bindR (mapR (\<lambda>criterion. bindR (buildCriteriaSQL ext [criterion]) (\<lambda>cond.
              Inr \<lparr>Lookup_criterion = criterion, Lookup_where = cond\<rparr>))
            (filter (\<lambda>criterion. length criterion \<noteq> 0) (EncodeReadCriteria criteria)))
       (\<lambda>lookups.
         let queries = map (\<lambda>lookup. Some (Lookup_where lookup)) (minimalCriteria lookups)
         in Inr (if length queries = 0 then [None] else queries))"

section \<open>An inlined value stays inside its quotes\<close>

text \<open>
  The reading of a quoted literal by SQL: after the opening quote, a doubled quote is one quote and
  a single quote ends the literal. The result is the value and the text that follows.
\<close>

fun scan_quoted :: "char \<Rightarrow> string \<Rightarrow> (string \<times> string) option" where
  "scan_quoted q [] = None"
| "scan_quoted q [c] = (if c = q then Some ([], []) else None)"
| "scan_quoted q (c # d # cs) =
     (if c = q then (if d = q then map_option (\<lambda>(v, rest). (q # v, rest)) (scan_quoted q cs)
                     else Some ([], d # cs))
      else map_option (\<lambda>(v, rest). (c # v, rest)) (scan_quoted q (d # cs)))"

definition starts_with :: "char \<Rightarrow> string \<Rightarrow> bool" where
  "starts_with c s \<longleftrightarrow> (\<exists>cs. s = c # cs)"

lemma replace_byte_simps [simp]:
  "replace_byte c r [] = []"
  "replace_byte c r (x # xs) = (if x = c then r else [x]) @ replace_byte c r xs"
  by (simp_all add: replace_byte_def)

lemma scan_quoted_other:
  "c \<noteq> q \<Longrightarrow> cs \<noteq> [] \<Longrightarrow>
     scan_quoted q (c # cs) = map_option (\<lambda>(v, rest). (c # v, rest)) (scan_quoted q cs)"
  by (cases cs) auto

lemma scan_quoted_replace:
  "\<not> starts_with q rest \<Longrightarrow> scan_quoted q (replace_byte q [q, q] v @ q # rest) = Some (v, rest)"
proof (induction v)
  case Nil
  then show ?case by (cases rest) (auto simp: starts_with_def)
next
  case (Cons x xs)
  then show ?case by (cases "x = q") (simp_all add: scan_quoted_other)
qed

lemma sqlEscapeLiteral_scan:
  "\<not> starts_with (CHR 0x27) rest \<Longrightarrow>
     \<exists>body. sqlEscapeLiteral v @ rest = CHR 0x27 # body \<and> scan_quoted (CHR 0x27) body = Some (v, rest)"
  by (simp add: sqlEscapeLiteral_def scan_quoted_replace)

lemma quoteIdent_scan:
  "\<not> starts_with (CHR 0x22) rest \<Longrightarrow>
     \<exists>body. quoteIdent v @ rest = CHR 0x22 # body \<and> scan_quoted (CHR 0x22) body = Some (v, rest)"
  by (simp add: quoteIdent_def scan_quoted_replace)

section \<open>Valid criteria always render\<close>

lemma sqlValueLiteral_ok: "sqlValueLiteral s = Inr t \<longleftrightarrow> CHR 0x00 \<notin> set s \<and> t = sqlEscapeLiteral s"
  by (auto simp: sqlValueLiteral_def)

lemma TagSQLOperator_total: "op \<in> operators \<Longrightarrow> \<exists>sql. TagSQLOperator op = Inr sql"
  by (auto simp: TagSQLOperator_def CanonicalTagOperator_def operators_def)

lemma mapR_total: "(\<And>x. x \<in> set xs \<Longrightarrow> \<exists>y. f x = Inr y) \<Longrightarrow> \<exists>ys. mapR f xs = Inr ys"
proof (induction xs)
  case (Cons x xs)
  then obtain y ys where "f x = Inr y" "mapR f xs = Inr ys" by force
  then show ?case by simp
qed simp

lemma render_predicates_total:
  assumes "\<And>p. p \<in> set ps \<Longrightarrow> CHR 0x00 \<notin> set (TagPredicate_Value p) \<and> TagPredicate_Operator p \<in> operators"
  shows "\<exists>t. render_predicates key ps = Inr t"
proof -
  have "\<exists>ys. mapR (render_predicate key) ps = Inr ys"
  proof (rule mapR_total)
    fix p assume "p \<in> set ps"
    with assms obtain op where "TagSQLOperator (TagPredicate_Operator p) = Inr op"
      "sqlValueLiteral (TagPredicate_Value p) = Inr (sqlEscapeLiteral (TagPredicate_Value p))"
      using TagSQLOperator_total by (auto simp: sqlValueLiteral_ok)
    then show "\<exists>y. render_predicate key p = Inr y" by (simp add: render_predicate_def)
  qed
  then show ?thesis by (auto simp: render_predicates_def)
qed

lemma render_encoded_total:
  assumes "\<And>p. p \<in> set ps \<Longrightarrow> CHR 0x00 \<notin> set (TagPredicate_Value p) \<and> TagPredicate_Operator p \<in> operators"
  shows "\<exists>t. renderCriterionPredicate ext key (encode_predicates ps) = Inr t"
proof (cases "encode_predicates ps")
  case (FPredicates qs)
  then have "DecodeTagPredicates (ext_redecode ext) (FPredicates qs) = Inr ps"
    using DecodeTagPredicates_encode [of _ ps] by simp
  then show ?thesis using render_predicates_total [of ps] assms FPredicates
    by (simp add: renderCriterionPredicate_def)
next
  case (FString s)
  then obtain p where "ps = [p]" "s = TagPredicate_Value p"
    by (cases ps rule: encode_predicates.cases) (auto split: if_splits)
  then show ?thesis using assms FString
    by (simp add: renderCriterionPredicate_def render_scalar_def sqlValueLiteral_def)
next
  case (FJson j)
  then show ?thesis by (cases ps rule: encode_predicates.cases) (auto split: if_splits)
qed

lemma render_criterion_total:
  assumes "list_all ValidTag tags"
  shows "\<exists>t. render_criterion ext (EncodeCriterion tags) = Inr t"
proof -
  have "\<exists>ys. mapR (\<lambda>k. renderCriterionPredicate ext k (the (map_of (EncodeCriterion tags) k)))
      (sort (map fst (EncodeCriterion tags))) = Inr ys"
  proof (rule mapR_total)
    fix k assume "k \<in> set (sort (map fst (EncodeCriterion tags)))"
    then have ne: "tags_with_key k tags \<noteq> []"
      using EncodeCriterion_keys(2) [of tags] by (auto simp: filter_empty_conv)
    have "CHR 0x00 \<notin> set (TagPredicate_Value p) \<and> TagPredicate_Operator p \<in> operators"
      if "p \<in> set (map predicate_of (tags_with_key k tags))" for p
      using that assms
      by (auto simp: list_all_iff ValidateTag_ok predicate_of_def operators_def)
    then have "\<exists>y. renderCriterionPredicate ext k (encode_predicates (map predicate_of (tags_with_key k tags))) = Inr y"
      by (rule render_encoded_total)
    then
    show "\<exists>y. renderCriterionPredicate ext k (the (map_of (EncodeCriterion tags) k)) = Inr y"
      using ne by (simp add: EncodeCriterion_lookup)
  qed
  then obtain ys where ys: "mapR (\<lambda>k. renderCriterionPredicate ext k (the (map_of (EncodeCriterion tags) k)))
      (sort (map fst (EncodeCriterion tags))) = Inr ys" by blast
  show ?thesis unfolding render_criterion_def ys bindR_simps by blast
qed

lemma buildCriteriaSQL_all_total:
  assumes "\<forall>tags\<in>set tagss. list_all ValidTag tags"
  shows "\<exists>t. buildCriteriaSQL ext (map EncodeCriterion tagss) = Inr t"
proof -
  have "\<exists>gs. mapR (render_criterion ext) (map EncodeCriterion tagss) = Inr gs"
    using assms render_criterion_total by (intro mapR_total) auto
  then obtain gs where gs: "mapR (render_criterion ext) (map EncodeCriterion tagss) = Inr gs" ..
  let ?orParts = "List.map_filter (\<lambda>g. g) gs"
  have "buildCriteriaSQL ext (map EncodeCriterion tagss) =
      (if length (map EncodeCriterion tagss) = 0 then Inr ''1''
       else if length ?orParts = 0 then Inr ''1'' else Inr (join '' OR '' ?orParts))"
    unfolding buildCriteriaSQL_def gs bindR_simps Let_def ..
  then show ?thesis by (cases "length (map EncodeCriterion tagss) = 0"; cases "length ?orParts = 0") auto
qed

lemma buildCriteriaSQL_total:
  "list_all ValidTag tags \<Longrightarrow> \<exists>t. buildCriteriaSQL ext [EncodeCriterion tags] = Inr t"
  using buildCriteriaSQL_all_total [of "[tags]"] by simp

section \<open>The minimal lookups cover every criterion\<close>

lemma criterionContains_trans:
  "criterionContains a b \<Longrightarrow> criterionContains b c \<Longrightarrow> criterionContains a c"
  by (fastforce simp: criterionContains_def list_all_iff split: if_splits dest: map_of_SomeD)

lemma criterionContains_refl: "distinct_keys c \<Longrightarrow> criterionContains c c"
  by (auto simp: criterionContains_def list_all_iff)

definition lookup_covers :: "criterionLookup list \<Rightarrow> criterionLookup \<Rightarrow> bool" where
  "lookup_covers ls l \<longleftrightarrow>
     (\<exists>m\<in>set ls. criterionContains (Lookup_criterion l) (Lookup_criterion m))"

lemma lookup_covers_step:
  assumes "lookup_covers minimal l" "distinct_keys (Lookup_criterion c)"
  shows "lookup_covers (filter (\<lambda>e. \<not> criterionContains (Lookup_criterion e) (Lookup_criterion c)) minimal @ [c]) l"
proof -
  from assms(1) obtain m where m: "m \<in> set minimal" "criterionContains (Lookup_criterion l) (Lookup_criterion m)"
    by (auto simp: lookup_covers_def)
  show ?thesis
  proof (cases "criterionContains (Lookup_criterion m) (Lookup_criterion c)")
    case True
    then have "criterionContains (Lookup_criterion l) (Lookup_criterion c)"
      using m(2) criterionContains_trans by blast
    then show ?thesis by (simp add: lookup_covers_def)
  next
    case False
    then show ?thesis using m by (auto simp: lookup_covers_def)
  qed
qed

lemma minimalCriteria_loop_covers:
  assumes "\<forall>c\<in>set cs. distinct_keys (Lookup_criterion c)"
    "lookup_covers minimal l \<or> l \<in> set cs"
  shows "lookup_covers (minimalCriteria_loop cs minimal) l"
  using assms
proof (induction cs arbitrary: minimal)
  case (Cons c cs)
  let ?kept = "filter (\<lambda>e. \<not> criterionContains (Lookup_criterion e) (Lookup_criterion c)) minimal @ [c]"
  have c: "distinct_keys (Lookup_criterion c)" using Cons.prems(1) by simp
  have self: "lookup_covers ?kept c"
    using criterionContains_refl [OF c] by (simp add: lookup_covers_def)
  show ?case
  proof (cases "list_ex (\<lambda>e. criterionContains (Lookup_criterion c) (Lookup_criterion e)) minimal")
    case True
    then have "lookup_covers minimal c" by (auto simp: lookup_covers_def list_ex_iff)
    then show ?thesis using True Cons by auto
  next
    case False
    have "lookup_covers ?kept l \<or> l \<in> set cs"
      using Cons.prems(2) lookup_covers_step [OF _ c, of minimal l] self by auto
    then show ?thesis using False Cons.IH [of ?kept] Cons.prems(1) by simp
  qed
qed simp

lemma minimalCriteria_loop_subset: "set (minimalCriteria_loop cs minimal) \<subseteq> set cs \<union> set minimal"
proof (induction cs arbitrary: minimal)
  case (Cons c cs)
  then show ?case
    using Cons [of minimal]
      Cons [of "filter (\<lambda>e. \<not> criterionContains (Lookup_criterion e) (Lookup_criterion c)) minimal @ [c]"]
    by auto
qed simp

lemma minimalCriteria_covers:
  assumes "\<forall>c\<in>set cs. distinct_keys (Lookup_criterion c)" "l \<in> set cs"
  shows "\<exists>m\<in>set (minimalCriteria cs). criterionContains (Lookup_criterion l) (Lookup_criterion m)"
  using minimalCriteria_loop_covers [of cs "[]" l] assms
  by (auto simp: minimalCriteria_def lookup_covers_def)

lemma minimalCriteria_subset: "set (minimalCriteria cs) \<subseteq> set cs"
  using minimalCriteria_loop_subset [of cs "[]"] by (simp add: minimalCriteria_def)

lemma minimalCriteria_loop_antichain:
  assumes "pairwise (\<lambda>a b. \<not> criterionContains (Lookup_criterion a) (Lookup_criterion b)) (set minimal)"
  shows "pairwise (\<lambda>a b. \<not> criterionContains (Lookup_criterion a) (Lookup_criterion b))
           (set (minimalCriteria_loop cs minimal))"
  using assms
proof (induction cs arbitrary: minimal)
  case (Cons c cs)
  show ?case
  proof (cases "list_ex (\<lambda>e. criterionContains (Lookup_criterion c) (Lookup_criterion e)) minimal")
    case True
    then show ?thesis using Cons by simp
  next
    case False
    then show ?thesis
      using Cons.prems
      by (simp, intro Cons.IH) (auto simp: pairwise_insert pairwise_def list_ex_iff)
  qed
qed simp

text \<open>No remaining lookup is subsumed by another one.\<close>

lemma minimalCriteria_antichain:
  "pairwise (\<lambda>a b. \<not> criterionContains (Lookup_criterion a) (Lookup_criterion b)) (set (minimalCriteria cs))"
  unfolding minimalCriteria_def by (rule minimalCriteria_loop_antichain) simp

section \<open>Properties\<close>



text \<open>
  C28. Valid criteria always render: for every list of valid criteria the builder of the WHERE text
  succeeds, so that a validated request can only fail in the database.
\<close>

theorem valid_criteria_render:
  assumes "\<forall>tags\<in>set tagss. list_all ValidTag tags"
  shows "\<exists>t. buildCriteriaSQL ext (map EncodeCriterion tagss) = Inr t"
  by (rule buildCriteriaSQL_all_total [OF assms])

theorem valid_criteria_render_witness:
  "list_all ValidTag example_tags \<and>
   (\<exists>t. buildCriteriaSQL \<lparr>ext_redecode = \<lambda>_. Inr [], ext_sprint = \<lambda>_. []\<rparr> (map EncodeCriterion [example_tags]) = Inr t)"
proof -
  have "list_all ValidTag example_tags" by code_simp
  then show ?thesis
    using valid_criteria_render [of "[example_tags]" "\<lparr>ext_redecode = \<lambda>_. Inr [], ext_sprint = \<lambda>_. []\<rparr>"] by simp
qed



end
