(* ===== verification/Json_Number.thy ===== *)
theory Json_Number
  imports Orisun_Prelude
begin

text \<open>
  Exact comparison of decimal JSON numbers given as text, \<^verbatim>\<open>internal/eventdata/number.go\<close>. The
  code never converts to a machine number: it compares signs, magnitudes (unbounded \<open>big.Int\<close>) and
  digit strings. The main lemma shows that the result is the comparison of the rational values.
\<close>

section \<open>The regular expression\<close>

text \<open>
  \<open>^-?(0|[1-9][0-9]*)(\.[0-9]+)?([eE][+-]?[0-9]+)?$\<close>. Each function consumes one group from the
  front and returns what is left; no group can match in two ways.
\<close>

definition strip_minus :: "string \<Rightarrow> string" where
  "strip_minus s = (case s of c # cs \<Rightarrow> if c = CHR ''-'' then cs else s | [] \<Rightarrow> s)"

definition match_integer :: "string \<Rightarrow> string option" where
  "match_integer s =
     (case s of
        [] \<Rightarrow> None
      | c # cs \<Rightarrow> if c = CHR ''0'' then Some cs
                  else if is_digit c then Some (dropWhile is_digit cs) else None)"

definition match_fraction :: "string \<Rightarrow> string option" where
  "match_fraction s =
     (case s of
        c # cs \<Rightarrow>
          if c = CHR ''.''
          then (if takeWhile is_digit cs = [] then None else Some (dropWhile is_digit cs))
          else Some s
      | [] \<Rightarrow> Some s)"

definition strip_sign :: "string \<Rightarrow> string" where
  "strip_sign s =
     (case s of c # cs \<Rightarrow> if c = CHR ''+'' \<or> c = CHR ''-'' then cs else s | [] \<Rightarrow> s)"

definition match_exponent :: "string \<Rightarrow> bool" where
  "match_exponent s =
     (case s of
        c # cs \<Rightarrow> (c = CHR ''e'' \<or> c = CHR ''E'') \<and> strip_sign cs \<noteq> [] \<and> list_all is_digit (strip_sign cs)
      | [] \<Rightarrow> True)"

definition jsonNumberPattern :: "string \<Rightarrow> bool" where
  "jsonNumberPattern s =
     (case match_integer (strip_minus s) of
        None \<Rightarrow> False
      | Some r \<Rightarrow> (case match_fraction r of None \<Rightarrow> False | Some r' \<Rightarrow> match_exponent r'))"

section \<open>Comparison\<close>

text \<open>\<open>big.Int.SetString(s, 10)\<close> on an optional sign and digits.\<close>

definition bigint_SetString :: "string \<Rightarrow> int" where
  "bigint_SetString s =
     (case s of
        c # cs \<Rightarrow> if c = CHR ''-'' then - int (digits_value cs)
                  else if c = CHR ''+'' then int (digits_value cs) else int (digits_value s)
      | [] \<Rightarrow> 0)"

text \<open>\<open>strings.IndexAny(s, "eE")\<close>; \<open>length s\<close> stands for the result -1.\<close>

definition is_e :: "char \<Rightarrow> bool" where
  "is_e c \<longleftrightarrow> c = CHR ''e'' \<or> c = CHR ''E''"

definition index_of :: "(char \<Rightarrow> bool) \<Rightarrow> string \<Rightarrow> nat" where
  "index_of P s = length (takeWhile (\<lambda>c. \<not> P c) s)"

definition decimalParts :: "string \<Rightarrow> (string \<times> int \<times> bool) option" where
  "decimalParts s0 =
     (if \<not> jsonNumberPattern s0 then None
      else
        let negative = (s0 ! 0 = CHR ''-'');
            s1 = (if negative then drop 1 s0 else s0);
            i = index_of is_e s1;
            magnitude = (if i < length s1 then bigint_SetString (drop (i + 1) s1) else 0);
            s2 = (if i < length s1 then take i s1 else s1);
            j = index_of (\<lambda>c. c = CHR ''.'') s2;
            fractional = (if j < length s2 then length s2 - j - 1 else 0);
            s3 = (if j < length s2 then take j s2 @ drop (j + 1) s2 else s2);
            digits = dropWhile (\<lambda>c. c = CHR ''0'') s3
        in if digits = '''' then Some ('''', magnitude, False)
           else Some (digits, magnitude + (int (length digits) - int fractional), negative))"

text \<open>The loop over both digit strings, a missing digit being \<open>'0'\<close>.\<close>

fun compare_digits :: "string \<Rightarrow> string \<Rightarrow> int" where
  "compare_digits [] [] = 0"
| "compare_digits (a # as) [] =
     (if a < CHR ''0'' then -1 else if a > CHR ''0'' then 1 else compare_digits as [])"
| "compare_digits [] (b # bs) =
     (if CHR ''0'' < b then -1 else if CHR ''0'' > b then 1 else compare_digits [] bs)"
| "compare_digits (a # as) (b # bs) =
     (if a < b then -1 else if a > b then 1 else compare_digits as bs)"

definition bigint_Cmp :: "int \<Rightarrow> int \<Rightarrow> int" where
  "bigint_Cmp x y = (if x < y then -1 else if x = y then 0 else 1)"

definition CompareJSONNumbers :: "string \<Rightarrow> string \<Rightarrow> int \<times> bool" where
  "CompareJSONNumbers a b =
     (case decimalParts a of
        None \<Rightarrow> (0, False)
      | Some (ad, ae, an) \<Rightarrow>
          (case decimalParts b of
             None \<Rightarrow> (0, False)
           | Some (bd, be, bn) \<Rightarrow>
               if an \<noteq> bn then (if an then (-1, True) else (1, True))
               else
                 let cmp = (if ad = '''' \<and> bd = '''' then 0
                            else if ad = '''' then -1
                            else if bd = '''' then 1
                            else (let m = bigint_Cmp ae be
                                  in if m = 0 then compare_digits ad bd else m))
                 in (if an then - cmp else cmp, True)))"

section \<open>The value of a number\<close>

text \<open>\<open>number_value\<close> reads the groups of the grammar: sign, integer digits, fraction, exponent.\<close>

definition fraction_digits :: "string \<Rightarrow> string" where
  "fraction_digits s = (case s of c # cs \<Rightarrow> if c = CHR ''.'' then takeWhile is_digit cs else [] | [] \<Rightarrow> [])"

definition exponent_value :: "string \<Rightarrow> int" where
  "exponent_value s = (case s of c # cs \<Rightarrow> bigint_SetString cs | [] \<Rightarrow> 0)"

definition number_value :: "string \<Rightarrow> rat" where
  "number_value s =
     (let body = strip_minus s;
          r = the (match_integer body);
          ip = take (length body - length r) body;
          fp = fraction_digits r;
          ex = exponent_value (the (match_fraction r))
      in (if s \<noteq> strip_minus s then -1 else 1) * of_nat (digits_value (ip @ fp)) *
         10 powi (ex - int (length fp)))"

text \<open>The fraction \<open>0.d\<^sub>1d\<^sub>2...\<close> of a digit string.\<close>

fun digits_fraction :: "string \<Rightarrow> rat" where
  "digits_fraction [] = 0"
| "digits_fraction (d # ds) = (of_nat (digit_value d) + digits_fraction ds) / 10"

lemma digits_value_Cons:
  "digits_value (d # ds) = digit_value d * 10 ^ length ds + digits_value ds"
proof (induction ds rule: rev_induct)
  case (snoc x xs)
  then show ?case
    using digits_value_snoc [of "d # xs" x] by (simp add: algebra_simps)
qed (simp add: digits_value_def)

lemma digits_fraction_value:
  "of_nat (digits_value ds) = digits_fraction ds * 10 ^ length ds"
proof (induction ds)
  case (Cons d ds)
  then show ?case by (simp add: digits_value_Cons field_simps)
qed (simp add: digits_value_def)

lemma digit_value_le: "is_digit d \<Longrightarrow> digit_value d \<le> 9"
  unfolding is_digit_of_char digit_value_def by linarith

lemma digits_fraction_range:
  "list_all is_digit ds \<Longrightarrow> 0 \<le> digits_fraction ds \<and> digits_fraction ds < 1"
proof (induction ds)
  case (Cons d ds)
  then have "of_nat (digit_value d) \<le> (9 :: rat)" using digit_value_le [of d] by simp
  then show ?case using Cons by auto
qed simp

lemma digits_fraction_leading:
  assumes "list_all is_digit ds" "ds \<noteq> []" "hd ds \<noteq> CHR ''0''"
  shows "1 / 10 \<le> digits_fraction ds"
proof -
  obtain d es where ds: "ds = d # es" using assms by (cases ds) auto
  have "of_char d \<noteq> (48 :: nat)" using assms ds of_char_eq_iff [of d "CHR ''0''"] by auto
  then have "1 \<le> digit_value d" using assms ds by (auto simp: is_digit_of_char digit_value_def Suc_le_eq)
  then have "(1 :: rat) \<le> of_nat (digit_value d)" by simp
  then show ?thesis using assms ds digits_fraction_range [of es] by simp
qed

lemma digit_less: "is_digit a \<Longrightarrow> is_digit b \<Longrightarrow> a < b \<longleftrightarrow> digit_value a < digit_value b"
  by (auto simp: is_digit_of_char digit_value_def less_char_def)

lemma zero_digit: "is_digit (CHR ''0'')" "digit_value (CHR ''0'') = 0"
  by (simp_all add: is_digit_of_char digit_value_def)

abbreviation cmp_of :: "rat \<Rightarrow> rat \<Rightarrow> int" where
  "cmp_of x y \<equiv> (if x < y then -1 else if x = y then 0 else 1)"

lemma digit_step:
  assumes "is_digit a" "is_digit b" "0 \<le> x" "x < 1" "0 \<le> y" "y < (1 :: rat)"
  shows "cmp_of ((of_nat (digit_value a) + x) / 10) ((of_nat (digit_value b) + y) / 10) =
    (if a < b then -1 else if a > b then 1 else cmp_of x y)"
proof -
  consider "digit_value a < digit_value b" | "digit_value a > digit_value b"
    | "digit_value a = digit_value b" by linarith
  then show ?thesis
  proof cases
    case 1
    then have "of_nat (digit_value a) + 1 \<le> (of_nat (digit_value b) :: rat)"
      by (metis Suc_eq_plus1 Suc_leI of_nat_1 of_nat_add of_nat_le_iff)
    with 1 assms show ?thesis by (simp add: digit_less)
  next
    case 2
    then have "of_nat (digit_value b) + 1 \<le> (of_nat (digit_value a) :: rat)"
      by (metis Suc_eq_plus1 Suc_leI of_nat_1 of_nat_add of_nat_le_iff)
    with 2 assms show ?thesis by (simp add: digit_less)
  next
    case 3
    with assms show ?thesis by (simp add: digit_less)
  qed
qed

lemma compare_digits_step:
  assumes "is_digit a" "is_digit b" "list_all is_digit as" "list_all is_digit bs"
    and "\<not> a < b \<Longrightarrow> \<not> b < a \<Longrightarrow>
      compare_digits as bs = cmp_of (digits_fraction as) (digits_fraction bs)"
  shows "(if a < b then -1 else if a > b then 1 else compare_digits as bs) =
    cmp_of (digits_fraction (a # as)) (digits_fraction (b # bs))"
proof -
  have "cmp_of (digits_fraction (a # as)) (digits_fraction (b # bs)) =
      (if a < b then -1 else if a > b then 1 else cmp_of (digits_fraction as) (digits_fraction bs))"
    unfolding digits_fraction.simps
    using assms digits_fraction_range by (intro digit_step) auto
  with assms(5) show ?thesis by presburger
qed

lemma digits_fraction_pad: "digits_fraction [] = digits_fraction [CHR ''0'']"
  by (simp add: zero_digit)

lemma compare_digits_fraction:
  assumes "list_all is_digit as" "list_all is_digit bs"
  shows "compare_digits as bs = cmp_of (digits_fraction as) (digits_fraction bs)"
  using assms
proof (induction as bs rule: compare_digits.induct)
  case (2 a as)
  then show ?case
    unfolding digits_fraction_pad compare_digits.simps
    using digits_fraction_pad zero_digit
    by (intro compare_digits_step) auto
next
  case (3 b bs)
  then show ?case
    unfolding digits_fraction_pad compare_digits.simps
    using digits_fraction_pad zero_digit
    by (intro compare_digits_step) auto
next
  case (4 a as b bs)
  then show ?case
    unfolding compare_digits.simps by (intro compare_digits_step) auto
qed simp

section \<open>The parts of a valid number\<close>

text \<open>The shape the regular expression accepts.\<close>

lemma pattern_shape:
  assumes "jsonNumberPattern s"
  obtains ip fp ex where
    "strip_minus s = ip @ fp @ ex" "match_integer (strip_minus s) = Some (fp @ ex)"
    "match_fraction (fp @ ex) = Some ex" "match_exponent ex"
    "ip \<noteq> []" "list_all is_digit ip"
    "fp = [] \<or> (\<exists>ds. fp = CHR ''.'' # ds \<and> list_all is_digit ds)"
    "ex = [] \<or> (\<exists>c ds. ex = c # ds \<and> is_e c)" "fraction_digits (fp @ ex) = drop 1 fp"
proof -
  from assms obtain r ex where r: "match_integer (strip_minus s) = Some r" "match_fraction r = Some ex"
    "match_exponent ex"
    by (auto simp: jsonNumberPattern_def split: option.splits)
  have "\<exists>ip. strip_minus s = ip @ r \<and> ip \<noteq> [] \<and> list_all is_digit ip"
  proof (cases "strip_minus s")
    case (Cons c cs)
    show ?thesis
    proof (cases "c = CHR ''0''")
      case True
      then show ?thesis using r(1) Cons zero_digit
        by (intro exI [of _ "[c]"]) (simp add: match_integer_def)
    next
      case False
      then have "is_digit c" "r = dropWhile is_digit cs"
        using r(1) Cons by (auto simp: match_integer_def split: if_splits)
      then show ?thesis using Cons
        by (intro exI [of _ "c # takeWhile is_digit cs"]) (auto simp: list_all_iff dest: set_takeWhileD)
    qed
  qed (use r(1) in \<open>simp add: match_integer_def\<close>)
  then obtain ip where ip: "strip_minus s = ip @ r" "ip \<noteq> []" "list_all is_digit ip" by blast
  have ex: "ex = [] \<or> (\<exists>c ds. ex = c # ds \<and> is_e c)"
    using r(3) by (auto simp: match_exponent_def is_e_def split: list.splits)
  have "\<exists>fp. r = fp @ ex \<and> (fp = [] \<or> (\<exists>ds. fp = CHR ''.'' # ds \<and> list_all is_digit ds)) \<and>
      fraction_digits r = drop 1 fp"
  proof (cases r)
    case (Cons c cs)
    show ?thesis
    proof (cases "c = CHR ''.''")
      case True
      then show ?thesis
        using r(2) Cons
        by (intro exI [of _ "c # takeWhile is_digit cs"])
          (auto simp: match_fraction_def fraction_digits_def list_all_iff dest: set_takeWhileD
            split: if_splits)
    next
      case False
      then show ?thesis using r(2) Cons by (auto simp: match_fraction_def fraction_digits_def)
    qed
  qed (use r(2) in \<open>simp add: match_fraction_def fraction_digits_def\<close>)
  with ip ex r that show thesis by blast
qed

lemma digit_not_e: "is_digit c \<Longrightarrow> \<not> is_e c \<and> c \<noteq> CHR ''.''"
  by (auto simp: is_digit_of_char is_e_def)

lemma digits_no_e: "list_all is_digit ds \<Longrightarrow> list_all (\<lambda>c. \<not> is_e c) ds"
  by (erule list.pred_mono_strong) (simp add: digit_not_e)

lemma index_of_none: "list_all (\<lambda>c. \<not> P c) s \<Longrightarrow> index_of P s = length s"
  by (simp add: index_of_def list_all_iff takeWhile_eq_all_conv [THEN iffD2])

lemma index_of_append: "list_all (\<lambda>c. \<not> P c) s \<Longrightarrow> P c \<Longrightarrow> index_of P (s @ c # t) = length s"
  by (simp add: index_of_def list_all_iff)

lemma cut_exponent:
  assumes "list_all (\<lambda>c. \<not> is_e c) m" "ex = [] \<or> (\<exists>c ds. ex = c # ds \<and> is_e c)"
  shows "(if index_of is_e (m @ ex) < length (m @ ex)
          then bigint_SetString (drop (index_of is_e (m @ ex) + 1) (m @ ex)) else 0) = exponent_value ex"
    and "(if index_of is_e (m @ ex) < length (m @ ex) then take (index_of is_e (m @ ex)) (m @ ex)
          else m @ ex) = m"
  using assms by (auto simp: index_of_none index_of_append exponent_value_def)

lemma cut_fraction:
  assumes "list_all is_digit ip" "fp = [] \<or> (\<exists>ds. fp = CHR ''.'' # ds \<and> list_all is_digit ds)"
  defines "j \<equiv> index_of (\<lambda>c. c = CHR ''.'') (ip @ fp)"
  shows "(if j < length (ip @ fp) then length (ip @ fp) - j - 1 else 0) = length (drop 1 fp)"
    and "(if j < length (ip @ fp) then take j (ip @ fp) @ drop (j + 1) (ip @ fp) else ip @ fp) =
         ip @ drop 1 fp"
proof -
  have "list_all (\<lambda>c. c \<noteq> CHR ''.'') ip"
    using assms(1) digit_not_e by (auto simp: list_all_iff)
  then show "(if j < length (ip @ fp) then length (ip @ fp) - j - 1 else 0) = length (drop 1 fp)"
    and "(if j < length (ip @ fp) then take j (ip @ fp) @ drop (j + 1) (ip @ fp) else ip @ fp) =
         ip @ drop 1 fp"
    using assms(2) unfolding j_def by (auto simp: index_of_none index_of_append)
qed

lemma digits_value_zeros [simp]: "digits_value (dropWhile (\<lambda>c. c = CHR ''0'') ds) = digits_value ds"
  by (induction ds) (auto simp: digits_value_Cons zero_digit)

text \<open>Sign, digits without leading zeros and magnitude determine the value.\<close>

lemma decimalParts_value:
  assumes "jsonNumberPattern s"
  shows "\<exists>ds m neg. decimalParts s = Some (ds, m, neg) \<and> list_all is_digit ds \<and>
    (ds \<noteq> [] \<longrightarrow> hd ds \<noteq> CHR ''0'') \<and> (ds = [] \<longrightarrow> \<not> neg) \<and>
    number_value s = (if neg then -1 else 1) * digits_fraction ds * 10 powi m"
proof -
  from assms obtain ip fp ex where shape: "strip_minus s = ip @ fp @ ex"
    "match_integer (strip_minus s) = Some (fp @ ex)"
    "match_fraction (fp @ ex) = Some ex" "ip \<noteq> []" "list_all is_digit ip"
    "fp = [] \<or> (\<exists>ds. fp = CHR ''.'' # ds \<and> list_all is_digit ds)"
    "ex = [] \<or> (\<exists>c ds. ex = c # ds \<and> is_e c)" "fraction_digits (fp @ ex) = drop 1 fp"
    by (rule pattern_shape)
  define neg where "neg \<longleftrightarrow> s ! 0 = CHR ''-''"
  define fd where "fd = drop 1 fp"
  define ds where "ds = dropWhile (\<lambda>c. c = CHR ''0'') (ip @ fd)"
  have s1: "(if neg then drop 1 s else s) = (ip @ fp) @ ex" and neg: "neg \<longleftrightarrow> s \<noteq> strip_minus s"
  proof -
    have "strip_minus s \<noteq> []" using shape(1,4) by simp
    then obtain c cs where s: "s = c # cs" by (cases s) (auto simp: strip_minus_def)
    show "(if neg then drop 1 s else s) = (ip @ fp) @ ex"
      using shape(1) by (simp add: neg_def s strip_minus_def split: if_splits)
    show "neg \<longleftrightarrow> s \<noteq> strip_minus s" by (simp add: neg_def s strip_minus_def)
  qed
  have no_e: "list_all (\<lambda>c. \<not> is_e c) (ip @ fp)"
    using shape(6) digits_no_e [OF shape(5)] digits_no_e by (auto simp: is_e_def)
  have parts: "decimalParts s = (if ds = [] then Some ('''', exponent_value ex, False)
      else Some (ds, exponent_value ex + (int (length ds) - int (length fd)), neg))"
    using assms unfolding decimalParts_def ds_def fd_def
    by (simp only: Let_def neg_def [symmetric] s1 cut_exponent [OF no_e shape(7)]
        cut_fraction [OF shape(5,6)] not_True_eq_False if_False)
  have dig: "list_all is_digit ds"
  proof -
    have "list_all is_digit (ip @ fd)" using shape(5,6) by (auto simp: fd_def)
    then show ?thesis unfolding ds_def list_all_iff by (meson set_dropWhileD)
  qed
  have "number_value s = (if neg then -1 else 1) * of_nat (digits_value (ip @ fd)) *
      10 powi (exponent_value ex - int (length fd))"
    by (simp add: number_value_def Let_def shape shape(2) [unfolded shape(1)] neg fd_def)
  also have "digits_value (ip @ fd) = digits_value ds" by (simp add: ds_def)
  also have "of_nat (digits_value ds) = digits_fraction ds * 10 powi int (length ds)"
    by (simp add: digits_fraction_value)
  also have "(if neg then -1 else 1) * (digits_fraction ds * 10 powi int (length ds)) *
      10 powi (exponent_value ex - int (length fd)) =
      (if neg then -1 else 1) * digits_fraction ds *
      10 powi (exponent_value ex + (int (length ds) - int (length fd)))"
    by (simp add: power_int_add power_int_diff field_simps)
  finally have val: "number_value s = (if neg then -1 else 1) * digits_fraction ds *
      10 powi (exponent_value ex + (int (length ds) - int (length fd)))" .
  have "ds \<noteq> [] \<Longrightarrow> hd ds \<noteq> CHR ''0''" unfolding ds_def by (rule hd_dropWhile)
  with parts dig val show ?thesis by (cases "ds = []") auto
qed

section \<open>Comparison is comparison of values\<close>

lemma magnitude_order:
  assumes "list_all is_digit as" "list_all is_digit bs" "bs \<noteq> []" "hd bs \<noteq> CHR ''0''" "m < n"
  shows "digits_fraction as * 10 powi m < digits_fraction bs * 10 powi n"
proof -
  have "digits_fraction as * 10 powi m < 10 powi m"
    using digits_fraction_range [OF assms(1)] by (simp add: mult_less_cancel_right)
  also have "\<dots> \<le> 10 powi (n - 1)" using assms(5) by (intro power_int_increasing) auto
  also have "\<dots> = 1 / 10 * 10 powi n" by (simp add: power_int_diff)
  also have "\<dots> \<le> digits_fraction bs * 10 powi n"
    using digits_fraction_leading [OF assms(2-4)] by (intro mult_right_mono) auto
  finally show ?thesis .
qed

text \<open>The unsigned comparison of the code on two digit strings without leading zeros.\<close>

lemma unsigned_comparison:
  assumes "list_all is_digit ad" "ad \<noteq> [] \<longrightarrow> hd ad \<noteq> CHR ''0''"
    "list_all is_digit bd" "bd \<noteq> [] \<longrightarrow> hd bd \<noteq> CHR ''0''"
  shows "(if ad = '''' \<and> bd = '''' then 0 else if ad = '''' then -1 else if bd = '''' then 1
          else (let m = bigint_Cmp ae be in if m = 0 then compare_digits ad bd else m)) =
         cmp_of (digits_fraction ad * 10 powi ae) (digits_fraction bd * 10 powi be)"
proof -
  have pos: "0 < digits_fraction ds" if "list_all is_digit ds" "ds \<noteq> []" "hd ds \<noteq> CHR ''0''" for ds
    using digits_fraction_leading [OF that] by simp
  consider "ad = []" | "bd = []" "ad \<noteq> []" | "ad \<noteq> []" "bd \<noteq> []" "ae < be"
    | "ad \<noteq> []" "bd \<noteq> []" "be < ae" | "ad \<noteq> []" "bd \<noteq> []" "ae = be" by linarith
  then show ?thesis
  proof cases
    case 1
    then show ?thesis using assms pos [of bd] by (cases "bd = []") auto
  next
    case 2
    then show ?thesis using assms pos [of ad] by (auto simp: zero_less_mult_iff not_less_iff_gr_or_eq)
  next
    case 3
    then show ?thesis using assms magnitude_order [of ad bd ae be] by (simp add: bigint_Cmp_def)
  next
    case 4
    then show ?thesis using assms magnitude_order [of bd ad be ae] by (simp add: bigint_Cmp_def)
  next
    case 5
    then show ?thesis using assms by (simp add: bigint_Cmp_def compare_digits_fraction)
  qed
qed

lemma decimalParts_None: "decimalParts s = None \<longleftrightarrow> \<not> jsonNumberPattern s"
  using decimalParts_value [of s] by (auto simp: decimalParts_def)

lemma CompareJSONNumbers_value:
  "CompareJSONNumbers a b =
     (if jsonNumberPattern a \<and> jsonNumberPattern b
      then (cmp_of (number_value a) (number_value b), True) else (0, False))"
proof (cases "jsonNumberPattern a \<and> jsonNumberPattern b")
  case True
  then obtain ad am an bd bm bn where
    a: "decimalParts a = Some (ad, am, an)" "list_all is_digit ad" "ad \<noteq> [] \<longrightarrow> hd ad \<noteq> CHR ''0''"
      "ad = [] \<longrightarrow> \<not> an" "number_value a = (if an then -1 else 1) * digits_fraction ad * 10 powi am"
    and b: "decimalParts b = Some (bd, bm, bn)" "list_all is_digit bd" "bd \<noteq> [] \<longrightarrow> hd bd \<noteq> CHR ''0''"
      "bd = [] \<longrightarrow> \<not> bn" "number_value b = (if bn then -1 else 1) * digits_fraction bd * 10 powi bm"
    using decimalParts_value [of a] decimalParts_value [of b] by blast
  define x where "x = digits_fraction ad * 10 powi am"
  define y where "y = digits_fraction bd * 10 powi bm"
  have xy: "0 \<le> x" "0 \<le> y" "an \<longrightarrow> 0 < x" "bn \<longrightarrow> 0 < y"
    using a b digits_fraction_range [OF a(2)] digits_fraction_range [OF b(2)]
      digits_fraction_leading [OF a(2)] digits_fraction_leading [OF b(2)]
    unfolding x_def y_def by (auto simp: zero_less_mult_iff)
  have vals: "number_value a = (if an then - x else x)" "number_value b = (if bn then - y else y)"
    using a(5) b(5) by (simp_all add: x_def y_def)
  have "CompareJSONNumbers a b =
      (if an \<noteq> bn then (if an then (-1, True) else (1, True))
       else (if an then - cmp_of x y else cmp_of x y, True))"
    unfolding x_def y_def unsigned_comparison [OF a(2,3) b(2,3), symmetric]
    by (simp add: CompareJSONNumbers_def a(1) b(1) Let_def)
  then show ?thesis using True xy vals by auto
next
  case False
  then show ?thesis
    using decimalParts_None [of a] decimalParts_None [of b]
    by (cases "decimalParts a") (auto simp: CompareJSONNumbers_def)
qed

text \<open>
  C18. The comparison of two JSON numbers is exact: on every pair of numbers of the JSON grammar it is the
  comparison of their rational values, whatever their notation, precision or exponent; and it reports
  failure exactly when one of the texts is not a JSON number.
\<close>

theorem number_comparison_exact:
  "CompareJSONNumbers a b =
     (if jsonNumberPattern a \<and> jsonNumberPattern b
      then (cmp_of (number_value a) (number_value b), True) else (0, False))"
  by (rule CompareJSONNumbers_value)

end
