(* ===== verification/Tag_Matching.thy ===== *)
theory Tag_Matching
  imports Query_Predicates Json_Number Event_Position
begin

text \<open>
  The meaning of a tag on a document: \<open>MatchTagValue\<close> of \<^verbatim>\<open>orisun/tag_matching.go\<close>, the scalar
  comparison semantics shared by the storage engines.

  A decoded value of dynamic type \<open>any\<close> is an \<open>any_scalar\<close>; a \<open>float64\<close> is given by the text
  \<open>strconv.FormatFloat(v, 'g', -1, 64)\<close> and a value of another type by its \<open>%v\<close> text.
\<close>

datatype any_scalar =
    AString string
  | ABool bool
  | AFloat64 string
  | AJsonNumber string
  | AInt64 int64
  | AInt int64
  | ANil
  | AOther string

definition eventTagEquals :: "any_scalar \<Rightarrow> string \<Rightarrow> bool" where
  "eventTagEquals v target =
     (case v of
        AString x \<Rightarrow> x = target
      | ABool x \<Rightarrow> if x then target = ''true'' else target = ''false''
      | AFloat64 x \<Rightarrow> x = target
      | AJsonNumber x \<Rightarrow> x = target
      | ANil \<Rightarrow> target = '''' \<or> target = ''null''
      | AInt64 i \<Rightarrow> FormatInt i = target
      | AInt i \<Rightarrow> FormatInt i = target
      | AOther x \<Rightarrow> x = target)"

definition strings_Compare :: "string \<Rightarrow> string \<Rightarrow> int" where
  "strings_Compare a b = (if a = b then 0 else if a < b then -1 else 1)"

text \<open>The type switch: the comparison result and whether the value is comparable.\<close>

definition compare_scalar :: "any_scalar \<Rightarrow> string \<Rightarrow> int \<times> bool" where
  "compare_scalar v target =
     (case v of
        AString x \<Rightarrow> (strings_Compare x target, True)
      | AJsonNumber x \<Rightarrow> CompareJSONNumbers x target
      | AFloat64 x \<Rightarrow> CompareJSONNumbers x target
      | AInt64 i \<Rightarrow> CompareJSONNumbers (FormatInt i) target
      | AInt i \<Rightarrow> CompareJSONNumbers (FormatInt i) target
      | _ \<Rightarrow> (0, False))"

definition MatchTagValue :: "any_scalar \<Rightarrow> string \<Rightarrow> string \<Rightarrow> bool" where
  "MatchTagValue val target operator =
     (case CanonicalTagOperator operator of
        Inl _ \<Rightarrow> False
      | Inr op \<Rightarrow>
          if val = ANil then False
          else if op = ''eq'' then eventTagEquals val target
          else if op = ''ne'' then \<not> eventTagEquals val target
          else
            (let (cmp, comparable) = compare_scalar val target
             in if \<not> comparable then False
                else if op = ''gt'' then cmp > 0
                else if op = ''gte'' then cmp \<ge> 0
                else if op = ''lt'' then cmp < 0
                else if op = ''lte'' then cmp \<le> 0
                else False))"

section \<open>Tags on documents\<close>

text \<open>\<open>sprint\<close> is the \<open>%v\<close> text of an array or object.\<close>

fun scalar_of :: "(json \<Rightarrow> string) \<Rightarrow> json \<Rightarrow> any_scalar" where
  "scalar_of sprint JNull = ANil"
| "scalar_of sprint (JBool b) = ABool b"
| "scalar_of sprint (JNum t) = AJsonNumber t"
| "scalar_of sprint (JStr s) = AString s"
| "scalar_of sprint (JArr js) = AOther (sprint (JArr js))"
| "scalar_of sprint (JObj ms) = AOther (sprint (JObj ms))"

text \<open>A missing field never matches.\<close>

definition tag_matches :: "(json \<Rightarrow> string) \<Rightarrow> (string \<times> json) list \<Rightarrow> ReadTag \<Rightarrow> bool" where
  "tag_matches sprint d t =
     (case map_of d (Tag_Key t) of
        None \<Rightarrow> False
      | Some j \<Rightarrow> MatchTagValue (scalar_of sprint j) (Tag_Value t) (Tag_Operator t))"

definition criterion_matches :: "(json \<Rightarrow> string) \<Rightarrow> (string \<times> json) list \<Rightarrow> ReadTag list \<Rightarrow> bool" where
  "criterion_matches sprint d tags \<longleftrightarrow> list_all (tag_matches sprint d) tags"

interpretation string_cmp: three_way strings_Compare "\<lambda>s. s"
  by unfold_locales (auto simp: strings_Compare_def)

lemma MatchTagValue_canonical:
  "MatchTagValue v x (Tag_Operator (canonical_tag t)) = MatchTagValue v x (Tag_Operator t)"
  by (simp add: MatchTagValue_def canonical_tag_def CanonicalTagOperator_def)

lemma tag_matches_canonical: "tag_matches sprint d (canonical_tag t) = tag_matches sprint d t"
proof -
  have "Tag_Key (canonical_tag t) = Tag_Key t" "Tag_Value (canonical_tag t) = Tag_Value t"
    by (simp_all add: canonical_tag_def)
  then show ?thesis by (simp only: tag_matches_def MatchTagValue_canonical)
qed

text \<open>The meaning of a criterion depends only on its set of canonical tags.\<close>

lemma criterion_matches_set:
  "criterion_matches sprint d tags \<longleftrightarrow> (\<forall>t\<in>canonical_tag ` set tags. tag_matches sprint d t)"
  by (simp add: criterion_matches_def list_all_iff tag_matches_canonical)

lemma strings_Compare_iff:
  "strings_Compare a b > 0 \<longleftrightarrow> b < a" "strings_Compare a b \<ge> 0 \<longleftrightarrow> b \<le> a"
  "strings_Compare a b < 0 \<longleftrightarrow> a < b" "strings_Compare a b \<le> 0 \<longleftrightarrow> a \<le> b"
  by (auto simp: strings_Compare_def)

end
