(* ===== verification/Sqlite_Store.thy ===== *)
theory Sqlite_Store
  imports Event_Data Write_Context Sqlite_Criteria Tag_Matching
begin

text \<open>
  The write path of the SQLite store: one transaction of the group commit
  (\<^verbatim>\<open>sqlite/group_commit_executor.go\<close>, \<^verbatim>\<open>sqlite/group_commit_request.go\<close>,
  \<^verbatim>\<open>sqlite/event_document.go\<close>, the insertion of \<^verbatim>\<open>sqlite/sqlite_eventstore.go\<close> and
  \<^verbatim>\<open>sqlite/write_context.go\<close>).

  The database of a boundary is the record \<open>sqlite_db\<close>: the documents of \<open>orisun_es_event\<close> in
  insertion order (the other columns are generated from the document), the rows of
  \<open>orisun_es_write\<close> and the counter of \<open>orisun_es_seq\<close>. SQLite itself is not modelled beyond the
  statements the code runs: whether a document satisfies a WHERE text is the parameter \<open>env_where\<close>,
  and every statement may fail (\<open>tx_faults\<close>). A savepoint or transaction that ends with an error
  restores the state at its start.
\<close>

section \<open>Rows\<close>

type_synonym document = "(string \<times> json) list"

record sqlite_db =
  db_events :: "document list"
  db_writes :: "(int64 \<times> string) list"
  db_next_id :: int64

text \<open>The schema's initial state.\<close>

definition empty_db :: sqlite_db where
  "empty_db = \<lparr>db_events = [], db_writes = [], db_next_id = 1\<rparr>"

text \<open>The generated columns; a NULL column reads as 0.\<close>

definition column_int :: "document \<Rightarrow> string \<Rightarrow> int64 option" where
  "column_int d k = (case map_of d k of Some (JNum t) \<Rightarrow> ParseInt t | _ \<Rightarrow> None)"

definition transaction_id :: "document \<Rightarrow> int64" where
  "transaction_id d = (case column_int d ''__commitPosition'' of Some i \<Rightarrow> i | None \<Rightarrow> 0)"

definition global_id :: "document \<Rightarrow> int64" where
  "global_id d = (case column_int d ''__preparePosition'' of Some i \<Rightarrow> i | None \<Rightarrow> 0)"

definition column_text :: "document \<Rightarrow> string \<Rightarrow> string" where
  "column_text d k = (case map_of d k of Some (JStr s) \<Rightarrow> s | _ \<Rightarrow> '''')"

definition position_of :: "document \<Rightarrow> Position" where
  "position_of d = Position (transaction_id d) (global_id d)"

section \<open>Environment\<close>

record sqlite_env =
  env_json :: json_externals
  env_where :: "string \<Rightarrow> document \<Rightarrow> bool"
  env_marshal :: "storedConsistencyObservation list \<Rightarrow> string result"

text \<open>
  What may go wrong in one transaction: the errors of BEGIN IMMEDIATE, of the sequence read and
  update, of COMMIT, and per request of the consistency queries, the write-context insert, the
  event inserts (by chunk) and the release of the savepoint; \<open>tx_clock\<close> is the time read per request.
\<close>

record tx_faults =
  fault_begin :: "goerror option"
  fault_seq :: "goerror option"
  fault_update :: "goerror option"
  fault_commit :: "goerror option"
  fault_query :: "nat \<Rightarrow> nat \<Rightarrow> nat \<Rightarrow> goerror option"
  fault_write :: "nat \<Rightarrow> goerror option"
  fault_insert :: "nat \<Rightarrow> nat \<Rightarrow> goerror option"
  fault_release :: "nat \<Rightarrow> goerror option"
  tx_clock :: "nat \<Rightarrow> string"

section \<open>Prepared requests\<close>

record preparedEventDocument =
  Doc_eventID :: string
  Doc_eventType :: string
  Doc_metadata :: json_text
  Doc_object :: Object
  Doc_err :: "goerror option"

record preparedConsistencyCheck =
  Prepared_position :: Position
  Prepared_queries :: "latest_query list"
  Prepared_err :: "goerror option"

text \<open>\<open>Save_ctx_err\<close> is what \<open>req.ctx.Err()\<close> returns at the request's turn.\<close>

record preparedSQLiteSave =
  Save_ctx_err :: "goerror option"
  Save_inserts :: "preparedEventDocument list"
  Save_consistencyJSON :: string
  Save_preparedChecks :: "preparedConsistencyCheck list"

record sqliteSaveResult =
  Result_transactionID :: string
  Result_globalID :: int64
  Result_err :: "goerror option"

definition prepareEventDocument :: "PreparedEvent \<Rightarrow> preparedEventDocument" where
  "prepareEventDocument event =
     (case ParseObject (PreparedEvent_DataJSON event) of
        Inl err \<Rightarrow>
          \<lparr>Doc_eventID = PreparedEvent_EventId event, Doc_eventType = PreparedEvent_EventType event,
           Doc_metadata = PreparedEvent_MetadataJSON event, Doc_object = \<lparr>Object_fields = None\<rparr>,
           Doc_err = Some err\<rparr>
      | Inr object \<Rightarrow>
          \<lparr>Doc_eventID = PreparedEvent_EventId event, Doc_eventType = PreparedEvent_EventType event,
           Doc_metadata = PreparedEvent_MetadataJSON event, Doc_object = object, Doc_err = None\<rparr>)"

definition prepareEventDocuments :: "PreparedEvent list \<Rightarrow> preparedEventDocument list" where
  "prepareEventDocuments events = map prepareEventDocument events"

definition prepareConsistencyChecks ::
    "json_externals \<Rightarrow> ConsistencyCheck list \<Rightarrow> preparedConsistencyCheck list" where
  "prepareConsistencyChecks ext checks =
     map (\<lambda>check. case latestCriteriaQueries ext (Check_Criteria check) of
            Inl err \<Rightarrow> \<lparr>Prepared_position = Check_Position check, Prepared_queries = [], Prepared_err = Some err\<rparr>
          | Inr queries \<Rightarrow>
              \<lparr>Prepared_position = Check_Position check, Prepared_queries = queries, Prepared_err = None\<rparr>)
       checks"

definition prepareSQLiteSave ::
    "sqlite_env \<Rightarrow> goerror option \<Rightarrow> PreparedEvent list \<Rightarrow> ConsistencyCheck list \<Rightarrow>
     preparedSQLiteSave result" where
  "prepareSQLiteSave env ctxErr inserts checks =
     bindR (MarshalConsistency (env_marshal env) checks) (\<lambda>consistency.
       Inr \<lparr>Save_ctx_err = ctxErr, Save_inserts = prepareEventDocuments inserts,
            Save_consistencyJSON = consistency,
            Save_preparedChecks = prepareConsistencyChecks (env_json env) checks\<rparr>)"

section \<open>The consistency check\<close>

text \<open>The row of a latest query: the matching rows in descending order, limited to one.\<close>

definition run_latest :: "sqlite_env \<Rightarrow> sqlite_db \<Rightarrow> latest_query \<Rightarrow> document list" where
  "run_latest env db query =
     take 1 (rev (sort_key position_of
       (filter (\<lambda>d. case query of None \<Rightarrow> True | Some cond \<Rightarrow> env_where env cond d) (db_events db))))"

fun latest_loop ::
    "sqlite_env \<Rightarrow> (nat \<Rightarrow> goerror option) \<Rightarrow> sqlite_db \<Rightarrow> latest_query list \<Rightarrow> nat \<Rightarrow>
     int64 \<times> int64 \<Rightarrow> (int64 \<times> int64) result" where
  "latest_loop env fault db [] j latest = Inr latest"
| "latest_loop env fault db (query # queries) j (latestTx, latestGid) =
     (case fault j of
        Some err \<Rightarrow> Inl (Coded Internal (''ccc check: '' @ error_text err))
      | None \<Rightarrow>
          latest_loop env fault db queries (j + 1)
            (case run_latest env db query of
               [] \<Rightarrow> (latestTx, latestGid)
             | d # _ \<Rightarrow>
                 if transaction_id d > latestTx \<or>
                    (transaction_id d = latestTx \<and> global_id d > latestGid)
                 then (transaction_id d, global_id d) else (latestTx, latestGid)))"

definition latestPreparedCriteriaPosition ::
    "sqlite_env \<Rightarrow> (nat \<Rightarrow> goerror option) \<Rightarrow> sqlite_db \<Rightarrow> latest_query list \<Rightarrow> (int64 \<times> int64) result" where
  "latestPreparedCriteriaPosition env fault db queries = latest_loop env fault db queries 0 (-1, -1)"

definition conflict_message :: string where
  "conflict_message =
     ''OptimisticConcurrencyException:StreamVersionConflict: Expected (%d, %d), Actual (%d, %d)''"

fun check_loop ::
    "sqlite_env \<Rightarrow> (nat \<Rightarrow> nat \<Rightarrow> goerror option) \<Rightarrow> sqlite_db \<Rightarrow> preparedConsistencyCheck list \<Rightarrow> nat \<Rightarrow>
     unit result" where
  "check_loop env fault db [] k = Inr ()"
| "check_loop env fault db (check # checks) k =
     (case Prepared_err check of
        Some err \<Rightarrow> Inl (Coded InvalidArgument (''invalid consistency criteria: '' @ error_text err))
      | None \<Rightarrow>
          bindR (latestPreparedCriteriaPosition env (fault k) db (Prepared_queries check))
            (\<lambda>(latestTx, latestGid).
              if latestTx \<noteq> CommitPosition (Prepared_position check) \<or>
                 latestGid \<noteq> PreparePosition (Prepared_position check)
              then Inl (Coded AlreadyExists conflict_message)
              else check_loop env fault db checks (k + 1)))"

section \<open>Insertion\<close>

definition text_int :: "int64 \<Rightarrow> json_text" where
  "text_int i = Json (JNum (FormatInt i))"

definition text_str :: "string \<Rightarrow> json_text" where
  "text_str s = Json (JStr s)"

definition positionedDocument ::
    "preparedEventDocument \<Rightarrow> int64 \<Rightarrow> (string \<times> json_text) list \<Rightarrow> json_text result" where
  "positionedDocument event gid flds =
     (case Doc_err event of
        Some err \<Rightarrow> Inl err
      | None \<Rightarrow>
          let flds1 = AList.update ''__eventId'' (text_str (Doc_eventID event)) flds;
              flds2 = AList.update ''__eventType'' (text_str (Doc_eventType event)) flds1;
              flds3 = AList.update ''__metadata'' (MetadataValue (Doc_metadata event)) flds2;
              flds4 = AList.update ''__preparePosition'' (text_int gid) flds3
          in Object_WithFields (Doc_object event) flds4)"

definition sqliteMaxEventsPerInsert :: nat where
  "sqliteMaxEventsPerInsert = 999"

text \<open>One INSERT statement: the CHECK, NOT NULL and UNIQUE constraints of the schema, or the rows.\<close>

definition insert_row :: "json_text \<Rightarrow> sqlite_db \<Rightarrow> sqlite_db result" where
  "insert_row data db =
     (case data of
        Json (JObj d) \<Rightarrow>
          if column_int d ''__commitPosition'' = None \<or> column_int d ''__preparePosition'' = None \<or>
             (case map_of d ''__dateCreated'' of Some (JStr _) \<Rightarrow> False | _ \<Rightarrow> True)
          then Inl (PlainError ''NOT NULL constraint failed'')
          else if list_ex (\<lambda>e. global_id e = global_id d) (db_events db)
          then Inl (PlainError ''UNIQUE constraint failed: orisun_es_event.global_id'')
          else Inr (db\<lparr>db_events := db_events db @ [d]\<rparr>)
      | _ \<Rightarrow> Inl (PlainError ''CHECK constraint failed''))"

fun insert_rows :: "json_text list \<Rightarrow> sqlite_db \<Rightarrow> sqlite_db result" where
  "insert_rows [] db = Inr db"
| "insert_rows (data # rest) db = bindR (insert_row data db) (insert_rows rest)"

text \<open>
  The chunks of \<open>insertEventBatch\<close>: \<open>start\<close> is the index of the chunk's first event. A document
  error returns before the chunk's statement runs.
\<close>

function insert_chunks ::
    "(nat \<Rightarrow> goerror option) \<Rightarrow> preparedEventDocument list \<Rightarrow> nat \<Rightarrow> int64 \<Rightarrow>
     (string \<times> json_text) list \<Rightarrow> sqlite_db \<Rightarrow> sqlite_db result" where
  "insert_chunks fault events start firstID flds db =
     (if start \<ge> length events then Inr db
      else
        let chunk = take sqliteMaxEventsPerInsert (drop start events)
        in bindR (mapR (\<lambda>(i, event). positionedDocument event (wrap64 (firstID + int (start + i))) flds)
                    (enumerate 0 chunk)) (\<lambda>docs.
           case fault start of
             Some err \<Rightarrow> Inl err
           | None \<Rightarrow>
               bindR (insert_rows docs db)
                 (insert_chunks fault events (start + sqliteMaxEventsPerInsert) firstID flds)))"
  by pat_completeness auto
termination
  by (relation "measure (\<lambda>(_, events, start, _). length events - start)")
    (auto simp: sqliteMaxEventsPerInsert_def)

declare insert_chunks.simps [simp del]

definition insertEventBatch ::
    "(nat \<Rightarrow> goerror option) \<Rightarrow> string \<Rightarrow> preparedEventDocument list \<Rightarrow> int64 \<Rightarrow> int64 \<Rightarrow> sqlite_db \<Rightarrow>
     sqlite_db result" where
  "insertEventBatch fault now events firstID transactionID db =
     (let flds = [(''__commitPosition'', text_int transactionID),
                  (''__dateCreated'', text_str now),
                  (''__writeId'', text_str (WriteID transactionID transactionID))]
      in insert_chunks fault events 0 firstID flds db)"

definition insertWriteContext ::
    "goerror option \<Rightarrow> int64 \<Rightarrow> string \<Rightarrow> sqlite_db \<Rightarrow> sqlite_db result" where
  "insertWriteContext fault i consistencyJSON db =
     (case fault of
        Some err \<Rightarrow> Inl err
      | None \<Rightarrow>
          if list_ex (\<lambda>(w, _). w = i) (db_writes db)
          then Inl (PlainError ''UNIQUE constraint failed: orisun_es_write.write_id'')
          else Inr (db\<lparr>db_writes := db_writes db @ [(i, consistencyJSON)]\<rparr>))"

definition saveEventsOnConn ::
    "tx_faults \<Rightarrow> nat \<Rightarrow> preparedEventDocument list \<Rightarrow> string \<Rightarrow> int64 \<Rightarrow> sqlite_db \<Rightarrow>
     (sqlite_db \<times> string \<times> int64) result" where
  "saveEventsOnConn fx r eventsToInsert consistencyJSON firstID db =
     (if length eventsToInsert = 0 \<or> int (length eventsToInsert) > wrap64 (max_int64 - firstID)
      then Inl (Coded Internal ''event position range exhausted or empty batch'')
      else
        let lastID = wrap64 (wrap64 (firstID + int (length eventsToInsert)) - 1)
        in bindR (insertWriteContext (fault_write fx r) lastID consistencyJSON db) (\<lambda>db1.
           bindR (map_errorR (\<lambda>err. Coded Internal (''insert events: '' @ error_text err))
                    (insertEventBatch (fault_insert fx r) (tx_clock fx r) eventsToInsert firstID lastID db1))
             (\<lambda>db2. Inr (db2, FormatInt lastID, lastID))))"

text \<open>
  The savepoint: an error, also of the release itself, rolls back to the state before the insertion.
\<close>

definition saveSavepointed ::
    "sqlite_env \<Rightarrow> tx_faults \<Rightarrow> nat \<Rightarrow> preparedSQLiteSave \<Rightarrow> int64 \<Rightarrow> sqlite_db \<Rightarrow>
     sqlite_db \<times> (string \<times> int64) result" where
  "saveSavepointed env fx r req firstID db =
     (case check_loop env (fault_query fx r) db (Save_preparedChecks req) 0 of
        Inl err \<Rightarrow> (db, Inl err)
      | Inr _ \<Rightarrow>
          (case saveEventsOnConn fx r (Save_inserts req) (Save_consistencyJSON req) firstID db of
             Inl err \<Rightarrow> (db, Inl err)
           | Inr (db', txID, gid) \<Rightarrow>
               (case fault_release fx r of
                  Some err \<Rightarrow> (db, Inl err)
                | None \<Rightarrow> (db', Inr (txID, gid)))))"

section \<open>The transaction\<close>

definition failed_result :: "goerror \<Rightarrow> sqliteSaveResult" where
  "failed_result err = \<lparr>Result_transactionID = '''', Result_globalID = 0, Result_err = Some err\<rparr>"

fun request_loop ::
    "sqlite_env \<Rightarrow> tx_faults \<Rightarrow> nat \<Rightarrow> preparedSQLiteSave list \<Rightarrow> int64 \<Rightarrow> nat \<Rightarrow> sqlite_db \<Rightarrow>
     sqlite_db \<times> int64 \<times> nat \<times> sqliteSaveResult list" where
  "request_loop env fx r [] nextID accepted db = (db, nextID, accepted, [])"
| "request_loop env fx r (req # live) nextID accepted db =
     (case Save_ctx_err req of
        Some ctxErr \<Rightarrow>
          (case request_loop env fx (r + 1) live nextID accepted db of
             (db', next', acc', out) \<Rightarrow> (db', next', acc', failed_result (FromContextError ctxErr) # out))
      | None \<Rightarrow>
          (case saveSavepointed env fx r req nextID db of
             (db1, Inl err) \<Rightarrow>
               (case request_loop env fx (r + 1) live nextID accepted db1 of
                  (db', next', acc', out) \<Rightarrow> (db', next', acc', failed_result err # out))
           | (db1, Inr (txID, gid)) \<Rightarrow>
               (case request_loop env fx (r + 1) live (wrap64 (gid + 1)) (accepted + 1) db1 of
                  (db', next', acc', out) \<Rightarrow>
                    (db', next', acc',
                     \<lparr>Result_transactionID = txID, Result_globalID = gid, Result_err = None\<rparr> # out))))"

definition executeTransaction ::
    "sqlite_env \<Rightarrow> tx_faults \<Rightarrow> preparedSQLiteSave list \<Rightarrow> sqlite_db \<Rightarrow>
     sqlite_db \<times> sqliteSaveResult list result" where
  "executeTransaction env fx live db =
     (case fault_begin fx of
        Some err \<Rightarrow> (db, Inl err)
      | None \<Rightarrow>
          (case fault_seq fx of
             Some err \<Rightarrow> (db, Inl err)
           | None \<Rightarrow>
               let nextID = db_next_id db
               in if nextID < 1 then (db, Inl (PlainError ''invalid event sequence: %d''))
                  else
                    (case request_loop env fx 0 live nextID 0 db of
                       (db1, nextID', accepted, outcomes) \<Rightarrow>
                         if accepted > 0 \<and> fault_update fx \<noteq> None then (db, Inl (the (fault_update fx)))
                         else
                           let db2 = (if accepted > 0 then db1\<lparr>db_next_id := nextID'\<rparr> else db1)
                           in (case fault_commit fx of
                                 Some err \<Rightarrow> (db, Inl err)
                               | None \<Rightarrow> (db2, Inr outcomes)))))"

end
