(* ===== verification/Sqlite_Insert.thy ===== *)
theory Sqlite_Insert
  imports Sqlite_Store
begin

text \<open>
  The insertion of one save: its documents carry the assigned positions, the chunked loop inserts
  exactly the documents of the batch, and no position overflows.
\<close>

section \<open>Positioned documents\<close>

definition envelope_fields :: "string \<Rightarrow> int64 \<Rightarrow> (string \<times> json_text) list" where
  "envelope_fields now tx =
     [(''__commitPosition'', text_int tx), (''__dateCreated'', text_str now),
      (''__writeId'', text_str (WriteID tx tx))]"

definition object_ok :: "preparedEventDocument \<Rightarrow> bool" where
  "object_ok ev \<longleftrightarrow>
     (case Object_fields (Doc_object ev) of None \<Rightarrow> True | Some flds \<Rightarrow> distinct_keys flds)"

text \<open>The seven reserved fields of a stored document.\<close>

definition envelope :: "string \<Rightarrow> int64 \<Rightarrow> preparedEventDocument \<Rightarrow> int64 \<Rightarrow> json \<Rightarrow> document" where
  "envelope now tx ev gid meta =
     [(''__commitPosition'', JNum (FormatInt tx)), (''__dateCreated'', JStr now),
      (''__writeId'', JStr (WriteID tx tx)), (''__eventId'', JStr (Doc_eventID ev)),
      (''__eventType'', JStr (Doc_eventType ev)), (''__metadata'', meta),
      (''__preparePosition'', JNum (FormatInt gid))]"

lemma positionedDocument_fields:
  "Doc_err ev = None \<Longrightarrow>
   positionedDocument ev gid (envelope_fields now tx) =
     Object_WithFields (Doc_object ev)
       [(''__commitPosition'', text_int tx), (''__dateCreated'', text_str now),
        (''__writeId'', text_str (WriteID tx tx)), (''__eventId'', text_str (Doc_eventID ev)),
        (''__eventType'', text_str (Doc_eventType ev)), (''__metadata'', MetadataValue (Doc_metadata ev)),
        (''__preparePosition'', text_int gid)]"
  by (simp add: positionedDocument_def envelope_fields_def Let_def)

lemma distinct_envelope: "distinct_keys (envelope now tx ev gid meta)"
  by (simp add: envelope_def)

lemma reserved_envelope: "\<forall>k\<in>fst ` set (envelope now tx ev gid meta). IsReservedKey k"
  by (simp add: envelope_def IsReservedKey_def)

lemma texts_envelope:
  "texts (envelope now tx ev gid meta) =
       [(''__commitPosition'', text_int tx), (''__dateCreated'', text_str now),
        (''__writeId'', text_str (WriteID tx tx)), (''__eventId'', text_str (Doc_eventID ev)),
        (''__eventType'', text_str (Doc_eventType ev)), (''__metadata'', Json meta),
        (''__preparePosition'', text_int gid)]"
  by (simp add: envelope_def text_int_def text_str_def)

text \<open>\<open>WithFields\<close> succeeds only when every supplied value is JSON.\<close>

lemma Object_WithFields_value:
  assumes "Object_WithFields obj vals = Inr t" "(k, v) \<in> set vals" "distinct_keys vals"
  shows "\<exists>j. v = Json j"
proof -
  from assms(1) obtain flds where flds: "Object_fields obj = Some flds"
    by (auto simp: Object_WithFields_def split: option.splits)
  let ?merged = "foldl (\<lambda>m (k, v). AList.update k v m)
     (map (\<lambda>(k, v). (k, Json v)) (filter (\<lambda>(k, _). \<not> has_key vals k) flds)) vals"
  from assms(1) flds obtain enc where
    enc: "mapR (\<lambda>(k, t). bindR (marshal_text t) (\<lambda>j. Inr (k, j))) ?merged = Inr enc"
    by (auto simp: Object_WithFields_def Let_def)
  have "map_of (rev vals) k = Some v"
    using assms(2,3) by (simp add: rev_map [symmetric])
  then have "map_of ?merged k = Some v" by (simp add: map_of_foldl_update)
  then have "(k, v) \<in> set ?merged" by (rule map_of_SomeD)
  from mapR_Inr_set [OF enc this] show ?thesis
    by (auto simp: marshal_text_def split: json_text.splits)
qed

lemma positionedDocument_ok:
  assumes "positionedDocument ev gid (envelope_fields now tx) = Inr t" "object_ok ev"
  shows "\<exists>flds meta d. Object_fields (Doc_object ev) = Some flds \<and> MetadataValue (Doc_metadata ev) = Json meta \<and>
    t = Json (JObj d) \<and> sorted_object d \<and> map_of d = map_of flds ++ map_of (envelope now tx ev gid meta)"
proof -
  have err: "Doc_err ev = None"
    using assms(1) by (auto simp: positionedDocument_def split: option.splits)
  note run = assms(1) [unfolded positionedDocument_fields [OF err]]
  from run obtain flds where flds: "Object_fields (Doc_object ev) = Some flds"
    by (auto simp: Object_WithFields_def split: option.splits)
  have "\<exists>meta. MetadataValue (Doc_metadata ev) = Json meta"
    using Object_WithFields_value [OF run, of "''__metadata''"] by simp
  then obtain meta where meta: "MetadataValue (Doc_metadata ev) = Json meta" ..
  have obj: "Doc_object ev = \<lparr>Object_fields = Some flds\<rparr>" using flds by (cases "Doc_object ev") simp
  have "distinct_keys flds" using assms(2) flds by (simp add: object_ok_def)
  from Object_WithFields_ok [OF this distinct_envelope [of now tx ev gid meta]]
  obtain d where d: "Object_WithFields (Doc_object ev) (texts (envelope now tx ev gid meta)) = Inr (Json (JObj d))"
    "sorted_object d" "map_of d = map_of flds ++ map_of (envelope now tx ev gid meta)"
    unfolding obj by blast
  from run d(1) have "t = Json (JObj d)" unfolding meta texts_envelope by simp
  with flds meta d(2,3) show ?thesis by blast
qed

text \<open>The columns of a positioned document.\<close>

lemma envelope_columns:
  assumes "map_of d = map_of flds ++ map_of (envelope now tx ev gid meta)" "in_int64 tx" "in_int64 gid"
  shows "column_int d ''__commitPosition'' = Some tx" "column_int d ''__preparePosition'' = Some gid"
    "map_of d ''__dateCreated'' = Some (JStr now)" "map_of d ''__writeId'' = Some (JStr (WriteID tx tx))"
    "map_of d ''__eventId'' = Some (JStr (Doc_eventID ev))"
    "map_of d ''__eventType'' = Some (JStr (Doc_eventType ev))"
    "map_of d ''__metadata'' = Some meta"
  using assms by (simp_all add: column_int_def envelope_def map_add_def)

lemma envelope_position:
  assumes "map_of d = map_of flds ++ map_of (envelope now tx ev gid meta)" "in_int64 tx" "in_int64 gid"
  shows "position_of d = Position tx gid" "transaction_id d = tx" "global_id d = gid"
  using envelope_columns [OF assms] by (simp_all add: position_of_def transaction_id_def global_id_def)

section \<open>Insertion of rows\<close>

definition not_null_row :: "document \<Rightarrow> bool" where
  "not_null_row d \<longleftrightarrow>
     column_int d ''__commitPosition'' \<noteq> None \<and> column_int d ''__preparePosition'' \<noteq> None \<and>
     (\<exists>s. map_of d ''__dateCreated'' = Some (JStr s))"

lemma insert_row_ok:
  "insert_row t db = Inr db' \<longleftrightarrow>
     (\<exists>d. t = Json (JObj d) \<and> not_null_row d \<and> global_id d \<notin> global_id ` set (db_events db) \<and>
        db' = db\<lparr>db_events := db_events db @ [d]\<rparr>)"
  by (auto simp: insert_row_def not_null_row_def list_ex_iff image_iff
      split: json_text.splits json.splits option.splits if_splits) metis

abbreviation doc_texts :: "document list \<Rightarrow> json_text list" where
  "doc_texts ds \<equiv> map (\<lambda>d. Json (JObj d)) ds"

definition rows_fit :: "document list \<Rightarrow> sqlite_db \<Rightarrow> bool" where
  "rows_fit ds db \<longleftrightarrow> list_all not_null_row ds \<and> distinct (map global_id ds) \<and>
     global_id ` set ds \<inter> global_id ` set (db_events db) = {}"

lemma rows_fit_Cons:
  "rows_fit (d # ds) db \<longleftrightarrow> not_null_row d \<and> global_id d \<notin> global_id ` set (db_events db) \<and>
     rows_fit ds (db\<lparr>db_events := db_events db @ [d]\<rparr>)"
  unfolding rows_fit_def by (simp, blast)

lemma insert_rows_complete:
  "rows_fit ds db \<Longrightarrow> insert_rows (doc_texts ds) db = Inr (db\<lparr>db_events := db_events db @ ds\<rparr>)"
proof (induction ds arbitrary: db)
  case (Cons d ds)
  then have "insert_row (Json (JObj d)) db = Inr (db\<lparr>db_events := db_events db @ [d]\<rparr>)"
    by (simp add: insert_row_ok rows_fit_Cons)
  then show ?case using Cons by (simp add: rows_fit_Cons)
qed simp

lemma insert_rows_sound:
  "insert_rows ts db = Inr db' \<Longrightarrow>
     \<exists>ds. ts = doc_texts ds \<and> rows_fit ds db \<and> db' = db\<lparr>db_events := db_events db @ ds\<rparr>"
proof (induction ts arbitrary: db)
  case (Cons t ts)
  then obtain d where d: "t = Json (JObj d)" "not_null_row d"
    "global_id d \<notin> global_id ` set (db_events db)"
    "insert_rows ts (db\<lparr>db_events := db_events db @ [d]\<rparr>) = Inr db'"
    by (auto simp: insert_row_ok)
  from Cons.IH [OF d(4)] obtain ds where "ts = doc_texts ds"
    "rows_fit ds (db\<lparr>db_events := db_events db @ [d]\<rparr>)" "db' = db\<lparr>db_events := db_events db @ d # ds\<rparr>"
    by auto
  then show ?case using d by (intro exI [of _ "d # ds"]) (simp add: rows_fit_Cons)
qed (simp add: rows_fit_def)

lemma mapR_append:
  "mapR f (xs @ ys) = bindR (mapR f xs) (\<lambda>a. bindR (mapR f ys) (\<lambda>b. Inr (a @ b)))"
proof (induction xs)
  case Nil
  then show ?case by (cases "mapR f ys") simp_all
next
  case (Cons x xs)
  then show ?case by (cases "f x"; cases "mapR f xs"; cases "mapR f ys") simp_all
qed

lemma insert_rows_append: "insert_rows (xs @ ys) db = bindR (insert_rows xs db) (insert_rows ys)"
proof (induction xs arbitrary: db)
  case (Cons x xs)
  then show ?case by (cases "insert_row x db") simp_all
qed simp

section \<open>The chunked loop inserts the whole batch\<close>

abbreviation document_at ::
    "preparedEventDocument list \<Rightarrow> int64 \<Rightarrow> (string \<times> json_text) list \<Rightarrow> nat \<Rightarrow> json_text result" where
  "document_at events firstID flds i \<equiv> positionedDocument (events ! i) (wrap64 (firstID + int i)) flds"

lemma mapR_enumerate:
  "mapR (\<lambda>(i, x). g x (s + i)) (enumerate 0 (take m (drop s xs))) =
     mapR (\<lambda>i. g (xs ! i) i) [s..<min (s + m) (length xs)]"
proof -
  have "map (\<lambda>(i, x). g x (s + i)) (enumerate 0 (take m (drop s xs))) =
      map (\<lambda>i. g (xs ! i) i) [s..<min (s + m) (length xs)]"
    by (rule nth_equalityI) (auto simp: nth_enumerate_eq)
  then have "mapR (\<lambda>y. y) (map (\<lambda>(i, x). g x (s + i)) (enumerate 0 (take m (drop s xs)))) =
      mapR (\<lambda>y. y) (map (\<lambda>i. g (xs ! i) i) [s..<min (s + m) (length xs)])" by simp
  then show ?thesis by (simp add: case_prod_unfold)
qed

lemma chunk_split:
  fixes a m n :: nat
  assumes "a \<le> n"
  shows "[a..<n] = [a..<min (a + m) n] @ [a + m..<n]"
proof (cases "a + m \<le> n")
  case True
  then obtain k where "n = a + m + k" using le_Suc_ex by blast
  then show ?thesis using upt_add_eq_append [of a "a + m" k] by simp
qed simp

lemma insert_chunks_sound:
  assumes "insert_chunks fault events start firstID flds db = Inr db'"
  shows "\<exists>docs. mapR (document_at events firstID flds) [start..<length events] = Inr docs \<and>
     insert_rows docs db = Inr db'"
  using assms
proof (induction fault events start firstID flds db rule: insert_chunks.induct)
  case (1 fault events start firstID flds db)
  show ?case
  proof (cases "start \<ge> length events")
    case True
    then show ?thesis using 1(2) by (subst (asm) insert_chunks.simps) simp
  next
    case False
    let ?mid = "min (start + sqliteMaxEventsPerInsert) (length events)"
    from 1(2) False obtain docs1 db1 where
      chunk: "mapR (document_at events firstID flds) [start..<?mid] = Inr docs1"
      and run: "fault start = None" "insert_rows docs1 db = Inr db1"
        "insert_chunks fault events (start + sqliteMaxEventsPerInsert) firstID flds db1 = Inr db'"
      unfolding insert_chunks.simps [of fault events start] Let_def
        mapR_enumerate [of "\<lambda>e i. positionedDocument e (wrap64 (firstID + int i)) flds"]
      by (auto split: option.splits)
    from 1(1) [OF False refl _ run(1)] chunk run(2,3)
    obtain docs2 where rest: "mapR (document_at events firstID flds)
        [start + sqliteMaxEventsPerInsert..<length events] = Inr docs2" "insert_rows docs2 db1 = Inr db'"
      unfolding mapR_enumerate [of "\<lambda>e i. positionedDocument e (wrap64 (firstID + int i)) flds"] by blast
    have "[start..<length events] = [start..<?mid] @ [start + sqliteMaxEventsPerInsert..<length events]"
      using False by (intro chunk_split) simp
    then show ?thesis using chunk rest run(2)
      by (simp add: mapR_append insert_rows_append)
  qed
qed

lemma insert_chunks_complete:
  assumes "\<And>s. fault s = None"
    "mapR (document_at events firstID flds) [start..<length events] = Inr docs"
    "insert_rows docs db = Inr db'"
  shows "insert_chunks fault events start firstID flds db = Inr db'"
  using assms
proof (induction fault events start firstID flds db arbitrary: docs rule: insert_chunks.induct)
  case (1 fault events start firstID flds db)
  show ?case
  proof (cases "start \<ge> length events")
    case True
    then show ?thesis using 1(3,4) by (subst insert_chunks.simps) simp
  next
    case False
    let ?mid = "min (start + sqliteMaxEventsPerInsert) (length events)"
    have split: "[start..<length events] =
        [start..<?mid] @ [start + sqliteMaxEventsPerInsert..<length events]"
      using False by (intro chunk_split) simp
    from 1(3) obtain docs1 docs2 where docs: "docs = docs1 @ docs2"
      "mapR (document_at events firstID flds) [start..<?mid] = Inr docs1"
      "mapR (document_at events firstID flds) [start + sqliteMaxEventsPerInsert..<length events] = Inr docs2"
      unfolding split mapR_append by auto
    from 1(4) obtain db1 where rows: "insert_rows docs1 db = Inr db1" "insert_rows docs2 db1 = Inr db'"
      unfolding docs(1) insert_rows_append by auto
    have rest: "insert_chunks fault events (start + sqliteMaxEventsPerInsert) firstID flds db1 = Inr db'"
      using 1(1) [OF False refl _ 1(2) rows(1)] docs(2,3) rows(2) 1(2)
      unfolding mapR_enumerate [of "\<lambda>e i. positionedDocument e (wrap64 (firstID + int i)) flds"] by blast
    show ?thesis
      unfolding insert_chunks.simps [of fault events start] Let_def
        mapR_enumerate [of "\<lambda>e i. positionedDocument e (wrap64 (firstID + int i)) flds"]
      using False docs(2) rows(1) rest 1(2) by simp
  qed
qed

section \<open>One save occupies a block of positions\<close>

definition block :: "int64 \<Rightarrow> nat \<Rightarrow> Position list" where
  "block firstID n = map (\<lambda>i. Position (firstID + int n - 1) (firstID + int i)) [0..<n]"

text \<open>The documents a save of \<open>events\<close> at \<open>firstID\<close> stores.\<close>

definition stored_documents ::
    "string \<Rightarrow> preparedEventDocument list \<Rightarrow> int64 \<Rightarrow> document list \<Rightarrow> bool" where
  "stored_documents now events firstID ds \<longleftrightarrow>
     length ds = length events \<and>
     (\<forall>i<length events. \<exists>flds meta.
        Object_fields (Doc_object (events ! i)) = Some flds \<and>
        MetadataValue (Doc_metadata (events ! i)) = Json meta \<and>
        sorted_object (ds ! i) \<and>
        map_of (ds ! i) = map_of flds ++
          map_of (envelope now (firstID + int (length events) - 1) (events ! i) (firstID + int i) meta))"

lemma in_int64_range:
  "1 \<le> firstID \<Longrightarrow> firstID + int n \<le> max_int64 \<Longrightarrow> i \<le> n \<Longrightarrow> in_int64 (firstID + int i)"
  by (simp add: in_int64_def min_int64_def max_int64_def)

lemma stored_documents_block:
  assumes "stored_documents now events firstID ds" "1 \<le> firstID"
    "firstID + int (length events) \<le> max_int64"
  shows "map position_of ds = block firstID (length events)"
proof (rule nth_equalityI)
  show len: "length (map position_of ds) = length (block firstID (length events))"
    using assms(1) by (simp add: stored_documents_def block_def)
  fix i assume "i < length (map position_of ds)"
  then have i: "i < length events" "length ds = length events"
    using assms(1) by (simp_all add: stored_documents_def)
  then have tx: "in_int64 (firstID + int (length events) - 1)" "in_int64 (firstID + int i)"
    using assms(2,3) by (simp_all add: in_int64_def min_int64_def max_int64_def)
  from assms(1) i obtain flds meta where
    "map_of (ds ! i) = map_of flds ++
       map_of (envelope now (firstID + int (length events) - 1) (events ! i) (firstID + int i) meta)"
    unfolding stored_documents_def by blast
  from envelope_position(1) [OF this tx] i show "map position_of ds ! i = block firstID (length events) ! i"
    by (simp add: block_def)
qed

lemma document_batch:
  assumes "mapR (document_at events firstID (envelope_fields now tx)) [0..<length events] = Inr (doc_texts ds)"
    "list_all object_ok events" "1 \<le> firstID" "firstID + int (length events) \<le> max_int64"
    "tx = firstID + int (length events) - 1"
  shows "stored_documents now events firstID ds"
proof -
  from assms(1) have all: "list_all2 (\<lambda>i t. document_at events firstID (envelope_fields now tx) i = Inr t)
      [0..<length events] (doc_texts ds)" by (simp add: mapR_Inr_iff)
  then have len: "length ds = length events" by (auto dest: list_all2_lengthD)
  show ?thesis unfolding stored_documents_def
  proof (intro conjI len allI impI)
    fix i assume i: "i < length events"
    have run: "positionedDocument (events ! i) (firstID + int i) (envelope_fields now tx) = Inr (Json (JObj (ds ! i)))"
      using list_all2_nthD2 [OF all, of i] i len in_int64_range [of firstID "length events" i] assms(3,4) by simp
    have "object_ok (events ! i)" using assms(2) i by (simp add: list_all_length)
    from positionedDocument_ok [OF run this]
    show "\<exists>flds meta. Object_fields (Doc_object (events ! i)) = Some flds \<and>
        MetadataValue (Doc_metadata (events ! i)) = Json meta \<and> sorted_object (ds ! i) \<and>
        map_of (ds ! i) = map_of flds ++
          map_of (envelope now (firstID + int (length events) - 1) (events ! i) (firstID + int i) meta)"
      using assms(5) by auto
  qed
qed

text \<open>
  A successful save appends one write record and the documents of its events at consecutive
  positions; the guard keeps every computed position within 64 bits.
\<close>

lemma saveEventsOnConn_sound:
  assumes "saveEventsOnConn fx r events cj firstID db = Inr (db', txID, gid)"
    "list_all object_ok events" "1 \<le> firstID" "in_int64 firstID"
  shows "0 < length events \<and> firstID + int (length events) \<le> max_int64 \<and>
    gid = firstID + int (length events) - 1 \<and> txID = FormatInt gid \<and>
    (\<exists>ds. stored_documents (tx_clock fx r) events firstID ds \<and>
       db' = db\<lparr>db_events := db_events db @ ds, db_writes := db_writes db @ [(gid, cj)]\<rparr>)"
proof -
  have room: "wrap64 (max_int64 - firstID) = max_int64 - firstID"
    using assms(3,4) by (intro wrap64_id) (simp add: in_int64_def min_int64_def max_int64_def)
  from assms(1) have n: "0 < length events" "firstID + int (length events) \<le> max_int64"
    by (auto simp: saveEventsOnConn_def room split: if_splits)
  define gid' where "gid' = firstID + int (length events) - 1"
  have last: "wrap64 (wrap64 (firstID + int (length events)) - 1) = gid'"
    using n assms(3) by (simp add: gid'_def in_int64_def min_int64_def max_int64_def)
  from assms(1) n obtain db1 where db1: "insertWriteContext (fault_write fx r) gid' cj db = Inr db1"
    and ins: "insertEventBatch (fault_insert fx r) (tx_clock fx r) events firstID gid' db1 = Inr db'"
    and out: "txID = FormatInt gid'" "gid = gid'"
    by (auto simp: saveEventsOnConn_def room last Let_def split: if_splits)
  from db1 have db1': "db1 = db\<lparr>db_writes := db_writes db @ [(gid', cj)]\<rparr>"
    by (auto simp: insertWriteContext_def split: option.splits if_splits)
  from insert_chunks_sound [OF ins [unfolded insertEventBatch_def Let_def, folded envelope_fields_def]]
  obtain docs where docs: "mapR (document_at events firstID (envelope_fields (tx_clock fx r) gid')) [0..<length events] = Inr docs"
    "insert_rows docs db1 = Inr db'" by blast
  from insert_rows_sound [OF docs(2)] obtain ds where ds: "docs = doc_texts ds"
    "db' = db1\<lparr>db_events := db_events db1 @ ds\<rparr>" by blast
  have "stored_documents (tx_clock fx r) events firstID ds"
    by (rule document_batch [OF docs(1) [unfolded ds(1)] assms(2,3) n(2) gid'_def])
  then show ?thesis using n out ds(2) db1' by (auto simp: gid'_def)
qed

end
