(* ===== verification/Sqlite_Consistency.thy ===== *)
theory Sqlite_Consistency
  imports Sqlite_Insert
begin

text \<open>
  What the consistency check of a save decides. The layout of the log: every save occupies a block
  of consecutive positions. On such a log, the lookups of a check return the latest position of the
  events that match the query, and dropping redundant criteria (\<open>minimalCriteria\<close>) does not change it.
\<close>

section \<open>The layout of the log\<close>

fun layout :: "int64 \<Rightarrow> nat list \<Rightarrow> Position list" where
  "layout f [] = []"
| "layout f (n # ns) = block f n @ layout (f + int n) ns"

fun write_ids :: "int64 \<Rightarrow> nat list \<Rightarrow> int64 list" where
  "write_ids f [] = []"
| "write_ids f (n # ns) = (f + int n - 1) # write_ids (f + int n) ns"

text \<open>The log holds the saves of sizes \<open>ns\<close>, in order, and one write record for each.\<close>

definition store_layout :: "nat list \<Rightarrow> sqlite_db \<Rightarrow> bool" where
  "store_layout ns db \<longleftrightarrow>
     list_all (\<lambda>n. 0 < n) ns \<and> map position_of (db_events db) = layout 1 ns \<and>
     map fst (db_writes db) = write_ids 1 ns \<and> int (sum_list ns) + 1 \<le> max_int64"

definition store_inv :: "sqlite_db \<Rightarrow> bool" where
  "store_inv db \<longleftrightarrow> (\<exists>ns. store_layout ns db \<and> db_next_id db = int (sum_list ns) + 1)"

lemma layout_append: "layout f (ns @ [n]) = layout f ns @ block (f + int (sum_list ns)) n"
  by (induction ns arbitrary: f) (simp_all add: add.assoc)

lemma write_ids_append: "write_ids f (ns @ [n]) = write_ids f ns @ [f + int (sum_list ns) + int n - 1]"
  by (induction ns arbitrary: f) (simp_all add: add.assoc)

lemma block_bounds:
  "p \<in> set (block f n) \<Longrightarrow> f \<le> PreparePosition p \<and> PreparePosition p \<le> CommitPosition p \<and>
     CommitPosition p = f + int n - 1"
  by (auto simp: block_def)

lemma layout_bounds:
  "p \<in> set (layout f ns) \<Longrightarrow> f \<le> PreparePosition p \<and> PreparePosition p \<le> CommitPosition p \<and>
     CommitPosition p < f + int (sum_list ns)"
proof (induction ns arbitrary: f)
  case (Cons n ns)
  then show ?case using block_bounds [of p f n] Cons.IH [of "f + int n"] by force
qed simp

lemma block_sorted: "sorted_wrt (<) (block f n)"
  by (auto simp: block_def sorted_wrt_map Position_less_simps intro: sorted_wrt_mono_rel [OF _ sorted_wrt_upt])

lemma layout_sorted: "sorted_wrt (<) (layout f ns)"
proof (induction ns arbitrary: f)
  case (Cons n ns)
  have "p < q" if "p \<in> set (block f n)" "q \<in> set (layout (f + int n) ns)" for p q
    using block_bounds [OF that(1)] layout_bounds [OF that(2)] by (simp add: Position_less_iff)
  then show ?case using Cons block_sorted by (simp add: sorted_wrt_append)
qed simp

lemma layout_length: "length (layout f ns) = sum_list ns"
  by (induction ns arbitrary: f) (simp_all add: block_def)

lemma layout_prepare: "map PreparePosition (layout f ns) = [f..f + int (sum_list ns) - 1]"
proof (induction ns arbitrary: f)
  case (Cons n ns)
  have "map PreparePosition (block f n) = [f..f + int n - 1]"
    by (rule nth_equalityI) (auto simp: block_def nth_upto)
  moreover have "[f..f + int (n + sum_list ns) - 1] = [f..f + int n - 1] @ [f + int n..f + int n + int (sum_list ns) - 1]"
    using upto_split1 [of f "f + int n" "f + int (n + sum_list ns) - 1"]
    by (cases "sum_list ns") (simp_all add: algebra_simps del: sum_list_eq_0_iff)
  ultimately show ?case using Cons [of "f + int n"] by (simp add: algebra_simps)
qed simp

text \<open>Global identifiers are exactly 1 to the number of events, in order.\<close>

lemma store_layout_ids:
  assumes "store_layout ns db"
  shows "map global_id (db_events db) = [1..int (length (db_events db))]"
proof -
  have "map global_id (db_events db) = map PreparePosition (map position_of (db_events db))"
    by (simp add: position_of_def)
  moreover have "length (db_events db) = sum_list ns"
    using assms layout_length [of 1 ns] by (metis length_map store_layout_def)
  moreover have "map position_of (db_events db) = layout 1 ns" using assms by (simp add: store_layout_def)
  ultimately show ?thesis by (simp only: layout_prepare) simp
qed

lemma store_layout_sorted: "store_layout ns db \<Longrightarrow> sorted_wrt (<) (map position_of (db_events db))"
  by (simp add: store_layout_def layout_sorted)

lemma store_layout_positions:
  assumes "store_layout ns db" "d \<in> set (db_events db)"
  shows "1 \<le> global_id d" "global_id d \<le> transaction_id d" "NotExistsPosition < position_of d"
proof -
  have "position_of d \<in> set (layout 1 ns)"
    using assms by (metis image_eqI list.set_map store_layout_def)
  from layout_bounds [OF this] show "1 \<le> global_id d" "global_id d \<le> transaction_id d"
    "NotExistsPosition < position_of d"
    by (simp_all add: position_of_def NotExistsPosition_def Position_less_simps)
qed

section \<open>The latest position of a condition\<close>

definition latest_position :: "(document \<Rightarrow> bool) \<Rightarrow> sqlite_db \<Rightarrow> Position" where
  "latest_position P db =
     Max (insert NotExistsPosition (position_of ` {d \<in> set (db_events db). P d}))"

definition query_matches :: "sqlite_env \<Rightarrow> latest_query \<Rightarrow> document \<Rightarrow> bool" where
  "query_matches env query d =
     (case query of None \<Rightarrow> True | Some cond \<Rightarrow> env_where env cond d)"

lemma latest_position_or:
  "latest_position (\<lambda>d. P d \<or> Q d) db = max (latest_position P db) (latest_position Q db)"
proof -
  have "insert NotExistsPosition (position_of ` {d \<in> set (db_events db). P d \<or> Q d}) =
      insert NotExistsPosition (position_of ` {d \<in> set (db_events db). P d}) \<union>
      insert NotExistsPosition (position_of ` {d \<in> set (db_events db). Q d})" by auto
  then show ?thesis by (simp add: latest_position_def Max_Un del: Un_insert_left Un_insert_right)
qed

lemma latest_position_none: "latest_position (\<lambda>_. False) db = NotExistsPosition"
  by (simp add: latest_position_def)

lemma latest_position_ge: "NotExistsPosition \<le> latest_position P db"
  by (simp add: latest_position_def)

lemma latest_position_rows:
  assumes "sorted_wrt (<) (map position_of rows)" "\<forall>d\<in>set rows. NotExistsPosition < position_of d"
  shows "Max (insert NotExistsPosition (position_of ` set rows)) =
     (case rev rows of [] \<Rightarrow> NotExistsPosition | d # _ \<Rightarrow> position_of d)"
  using assms
proof (induction rows rule: rev_induct)
  case (snoc d rows)
  have "\<forall>e\<in>set rows. position_of e < position_of d"
    using snoc.prems(1) by (auto simp: sorted_wrt_append)
  then have "Max (insert NotExistsPosition (position_of ` set (rows @ [d]))) = position_of d"
    using snoc.prems(2) by (intro Max_eqI) auto
  then show ?case by simp
qed simp

lemma sorted_filter_rows:
  "sorted_wrt (<) (map position_of rows) \<Longrightarrow> sorted_wrt (<) (map position_of (filter P rows))"
  by (simp add: sorted_wrt_map sorted_wrt_filter)

lemma sort_key_sorted_rows:
  "sorted_wrt (<) (map position_of rows) \<Longrightarrow> sort_key position_of rows = rows"
  by (rule sort_key_id_if_sorted) (rule strict_sorted_imp_sorted)

lemma run_latest_position:
  assumes "store_layout ns db"
  shows "(case run_latest env db query of [] \<Rightarrow> NotExistsPosition | d # _ \<Rightarrow> position_of d) =
     latest_position (query_matches env query) db"
proof -
  let ?rows = "filter (query_matches env query) (db_events db)"
  have sorted: "sorted_wrt (<) (map position_of ?rows)"
    using sorted_filter_rows store_layout_sorted [OF assms] by blast
  have run: "run_latest env db query = take 1 (rev ?rows)"
    unfolding run_latest_def query_matches_def [of env query, abs_def, symmetric]
    by (simp only: sort_key_sorted_rows [OF sorted])
  have "latest_position (query_matches env query) db = Max (insert NotExistsPosition (position_of ` set ?rows))"
    by (simp add: latest_position_def)
  also have "\<dots> = (case rev ?rows of [] \<Rightarrow> NotExistsPosition | d # _ \<Rightarrow> position_of d)"
    using sorted store_layout_positions(3) [OF assms] by (intro latest_position_rows) auto
  finally show ?thesis unfolding run by (cases "rev ?rows") auto
qed

section \<open>The lookups of a check\<close>

text \<open>The loop keeps the maximum of the positions seen.\<close>

lemma latest_loop_step:
  "latest_loop env fault db (query # queries) j (a, b) =
     (case fault j of
        Some err \<Rightarrow> Inl (Coded Internal (''ccc check: '' @ error_text err))
      | None \<Rightarrow> latest_loop env fault db queries (j + 1)
          (position_pair (max (Position a b)
             (case run_latest env db query of [] \<Rightarrow> Position a b | d # _ \<Rightarrow> position_of d))))"
  by (auto simp: max_def position_of_def Position_less_simps split: option.splits list.splits)

lemma latest_loop_sound:
  assumes "store_layout ns db" "NotExistsPosition \<le> Position a b"
    "latest_loop env fault db queries j (a, b) = Inr (a', b')"
  shows "Position a' b' = max (Position a b) (latest_position (\<lambda>d. \<exists>q\<in>set queries. query_matches env q d) db)"
  using assms(2,3)
proof (induction queries arbitrary: j a b)
  case Nil
  then show ?case by (simp add: latest_position_none max_absorb1)
next
  case (Cons q queries)
  let ?latest = "latest_position (query_matches env q) db"
  let ?p = "max (Position a b) (case run_latest env db q of [] \<Rightarrow> Position a b | d # _ \<Rightarrow> position_of d)"
  have p: "?p = max (Position a b) ?latest"
    using run_latest_position [OF assms(1), of env q, symmetric] Cons.prems(1)
    by (auto split: list.splits simp: max_def)
  obtain c e where ce: "?p = Position c e" by (cases ?p)
  from Cons.prems(2) have run: "latest_loop env fault db queries (j + 1) (c, e) = Inr (a', b')"
    unfolding latest_loop_step ce by (auto split: option.splits)
  have "NotExistsPosition \<le> Position c e"
    using Cons.prems(1) ce p by (metis max.coboundedI1)
  from Cons.IH [OF this run]
  have "Position a' b' = max (max (Position a b) ?latest)
      (latest_position (\<lambda>d. \<exists>q\<in>set queries. query_matches env q d) db)" using ce p by simp
  then show ?case by (simp add: latest_position_or max.assoc)
qed

lemma latest_loop_complete: "\<exists>r. latest_loop env (\<lambda>_. None) db queries j ab = Inr r"
proof (induction queries arbitrary: j ab)
  case (Cons q queries)
  obtain a b where ab: "ab = (a, b)" by (cases ab)
  show ?case unfolding ab latest_loop_step option.case by (rule Cons.IH)
qed simp

lemma latestPrepared_sound:
  assumes "store_layout ns db" "latestPreparedCriteriaPosition env fault db queries = Inr (a, b)"
  shows "Position a b = latest_position (\<lambda>d. \<exists>q\<in>set queries. query_matches env q d) db"
  using latest_loop_sound [OF assms(1) _ assms(2) [unfolded latestPreparedCriteriaPosition_def]]
    latest_position_ge
  by (simp add: NotExistsPosition_def [symmetric] max_absorb2)

definition check_current :: "sqlite_env \<Rightarrow> sqlite_db \<Rightarrow> preparedConsistencyCheck \<Rightarrow> bool" where
  "check_current env db c \<longleftrightarrow>
     Prepared_err c = None \<and>
     latest_position (\<lambda>d. \<exists>q\<in>set (Prepared_queries c). query_matches env q d) db = Prepared_position c"

lemma position_components:
  "Position a b = p \<longleftrightarrow> a = CommitPosition p \<and> b = PreparePosition p"
  by (cases p) auto

lemma check_loop_sound:
  assumes "store_layout ns db" "check_loop env fault db checks k = Inr ()"
  shows "list_all (check_current env db) checks"
  using assms(2)
proof (induction checks arbitrary: k)
  case (Cons c checks)
  then obtain a b where ab: "Prepared_err c = None"
    "latestPreparedCriteriaPosition env (fault k) db (Prepared_queries c) = Inr (a, b)"
    "a = CommitPosition (Prepared_position c)" "b = PreparePosition (Prepared_position c)"
    "check_loop env fault db checks (k + 1) = Inr ()"
    by (auto split: option.splits if_splits)
  have "check_current env db c"
    using latestPrepared_sound [OF assms(1) ab(2)] ab(1,3,4)
    by (simp add: check_current_def position_components [symmetric])
  then show ?case using Cons.IH [OF ab(5)] by simp
qed simp

lemma check_loop_complete:
  assumes "store_layout ns db" "\<And>k j. fault k j = None" "list_all (check_current env db) checks"
  shows "check_loop env fault db checks k = Inr ()"
  using assms(3)
proof (induction checks arbitrary: k)
  case (Cons c checks)
  obtain a b where ab: "latestPreparedCriteriaPosition env (fault k) db (Prepared_queries c) = Inr (a, b)"
  proof -
    have "fault k = (\<lambda>_. None)" using assms(2) by (intro ext)
    then show thesis using that latest_loop_complete [of env db "Prepared_queries c" 0 "(-1, -1)"]
      by (auto simp: latestPreparedCriteriaPosition_def)
  qed
  have "Position a b = Prepared_position c"
    using latestPrepared_sound [OF assms(1) ab] Cons.prems by (simp add: check_current_def)
  then show ?case using ab Cons by (auto simp: check_current_def position_components)
qed simp

section \<open>Checks in terms of tags\<close>

text \<open>
  What is relied on of SQLite: on the given documents, the WHERE text of a single criterion selects
  the documents that match all its tags.
\<close>

definition sql_agrees :: "sqlite_env \<Rightarrow> ReadCriterion list \<Rightarrow> document set \<Rightarrow> bool" where
  "sql_agrees env criteria docs \<longleftrightarrow>
     (\<forall>c\<in>set criteria. \<forall>d\<in>docs. \<forall>cond.
        buildCriteriaSQL (env_json env) [EncodeCriterion (ReadCriterion_Tags c)] = Inr cond \<longrightarrow>
        (env_where env cond d \<longleftrightarrow> criterion_matches (ext_sprint (env_json env)) d (ReadCriterion_Tags c)))"

lemma encode_predicates_inject: "encode_predicates ps = encode_predicates qs \<longleftrightarrow> ps = qs"
  using DecodeTagPredicates_encode [of "\<lambda>_. Inr []"] by (metis sum.inject(2))

lemma predicate_of_matches:
  assumes "predicate_of t = predicate_of u" "Tag_Key t = Tag_Key u"
  shows "tag_matches sp d t \<longleftrightarrow> tag_matches sp d u"
proof -
  from assms have "canonical_tag t = canonical_tag u"
    by (cases t; cases u) (auto simp: predicate_of_def canonical_tag_def split: if_splits)
  then show ?thesis using tag_matches_canonical by metis
qed

text \<open>A criterion that contains another one matches fewer documents.\<close>

lemma criterionContains_matches:
  assumes "criterionContains (EncodeCriterion a) (EncodeCriterion b)" "criterion_matches sp d a"
  shows "criterion_matches sp d b"
  unfolding criterion_matches_def list_all_iff
proof
  fix t assume t: "t \<in> set b"
  let ?k = "Tag_Key t"
  have ne: "tags_with_key ?k b \<noteq> []" using t by (auto simp: filter_empty_conv)
  then have "(?k, encode_predicates (map predicate_of (tags_with_key ?k b))) \<in> set (EncodeCriterion b)"
    by (intro map_of_SomeD) (simp add: EncodeCriterion_lookup)
  with assms(1) have "map_of (EncodeCriterion a) ?k = Some (encode_predicates (map predicate_of (tags_with_key ?k b)))"
    by (auto simp: criterionContains_def list_all_iff split: if_splits)
  then have "map predicate_of (tags_with_key ?k a) = map predicate_of (tags_with_key ?k b)"
    by (auto simp: EncodeCriterion_lookup encode_predicates_inject split: if_splits)
  moreover have "predicate_of t \<in> set (map predicate_of (tags_with_key ?k b))" using t by simp
  ultimately have "predicate_of t \<in> set (map predicate_of (tags_with_key ?k a))" by simp
  then obtain u where u: "u \<in> set a" "Tag_Key u = ?k" "predicate_of u = predicate_of t" by auto
  then have "tag_matches sp d u" using assms(2) by (simp add: criterion_matches_def list_all_iff)
  then show "tag_matches sp d t" using predicate_of_matches u by metis
qed

text \<open>A document is selected by some lookup of a check iff it matches some criterion.\<close>

lemma EncodeCriterion_empty: "EncodeCriterion tags = [] \<longleftrightarrow> tags = []"
  using EncodeCriterion_keys(2) [of tags] by auto

lemma latestCriteriaQueries_ok:
  assumes valid: "\<forall>c\<in>set criteria. list_all ValidTag (ReadCriterion_Tags c)"
    and some: "\<exists>c\<in>set criteria. ReadCriterion_Tags c \<noteq> []"
    and sql: "sql_agrees env criteria docs"
  shows "\<exists>queries. latestCriteriaQueries (env_json env) criteria = Inr queries \<and>
    (\<forall>d\<in>docs. (\<exists>q\<in>set queries. query_matches env q d) \<longleftrightarrow>
       (\<exists>c\<in>set criteria. ReadCriterion_Tags c \<noteq> [] \<and>
          criterion_matches (ext_sprint (env_json env)) d (ReadCriterion_Tags c)))"
proof -
  let ?ext = "env_json env"
  let ?match = "criterion_matches (ext_sprint ?ext)"
  let ?enc = "\<lambda>c. EncodeCriterion (ReadCriterion_Tags c)"
  define cs where "cs = filter (\<lambda>c. ReadCriterion_Tags c \<noteq> []) criteria"
  define cond where "cond c = projr (buildCriteriaSQL ?ext [?enc c])" for c :: ReadCriterion
  have cond: "buildCriteriaSQL ?ext [?enc c] = Inr (cond c)" if "c \<in> set criteria" for c
    using buildCriteriaSQL_total [of "ReadCriterion_Tags c" ?ext] valid that by (auto simp: cond_def)
  define lookups where "lookups = map (\<lambda>c. \<lparr>Lookup_criterion = ?enc c, Lookup_where = cond c\<rparr>) cs"
  have filt: "filter (\<lambda>c. length c \<noteq> 0) (EncodeReadCriteria criteria) = map ?enc cs"
    by (simp add: EncodeReadCriteria_def cs_def filter_map comp_def EncodeCriterion_empty)
  have run: "mapR (\<lambda>c. bindR (buildCriteriaSQL ?ext [c]) (\<lambda>cond.
      Inr \<lparr>Lookup_criterion = c, Lookup_where = cond\<rparr>)) (map ?enc cs) = Inr lookups"
    unfolding lookups_def mapR_map by (rule mapR_cong_Inr) (simp add: cs_def cond)
  have dk: "\<forall>l\<in>set lookups. distinct_keys (Lookup_criterion l)"
    by (auto simp: lookups_def EncodeCriterion_keys)
  have "lookups \<noteq> []" using some by (auto simp: lookups_def cs_def filter_empty_conv)
  then have min_ne: "minimalCriteria lookups \<noteq> []"
    using minimalCriteria_covers [OF dk] by (metis list.set_intros(1) list.exhaust empty_iff empty_set)
  have queries: "latestCriteriaQueries ?ext criteria =
      Inr (map (\<lambda>l. Some (Lookup_where l)) (minimalCriteria lookups))"
    using min_ne run unfolding latestCriteriaQueries_def filt by simp
  have sel: "env_where env (cond c) d \<longleftrightarrow> ?match d (ReadCriterion_Tags c)"
    if "c \<in> set cs" "d \<in> docs" for c d
    using sql cond that unfolding sql_agrees_def by (auto simp: cs_def)
  have "(\<exists>q\<in>set (map (\<lambda>l. Some (Lookup_where l)) (minimalCriteria lookups)). query_matches env q d) \<longleftrightarrow>
       (\<exists>c\<in>set cs. ?match d (ReadCriterion_Tags c))" if d: "d \<in> docs" for d
  proof
    assume "\<exists>q\<in>set (map (\<lambda>l. Some (Lookup_where l)) (minimalCriteria lookups)). query_matches env q d"
    then obtain l where l: "l \<in> set lookups" "env_where env (Lookup_where l) d"
      using minimalCriteria_subset by (auto simp: query_matches_def)
    then show "\<exists>c\<in>set cs. ?match d (ReadCriterion_Tags c)" using sel d by (auto simp: lookups_def)
  next
    assume "\<exists>c\<in>set cs. ?match d (ReadCriterion_Tags c)"
    then obtain c where c: "c \<in> set cs" "?match d (ReadCriterion_Tags c)" by blast
    then have "\<lparr>Lookup_criterion = ?enc c, Lookup_where = cond c\<rparr> \<in> set lookups" by (simp add: lookups_def)
    from minimalCriteria_covers [OF dk this] obtain m where m: "m \<in> set (minimalCriteria lookups)"
      "criterionContains (?enc c) (Lookup_criterion m)" by auto
    then obtain c' where c': "c' \<in> set cs" "Lookup_criterion m = ?enc c'" "Lookup_where m = cond c'"
      using minimalCriteria_subset by (fastforce simp: lookups_def)
    with m c criterionContains_matches have "?match d (ReadCriterion_Tags c')" by metis
    then have "env_where env (Lookup_where m) d" using sel c' d by simp
    then show "\<exists>q\<in>set (map (\<lambda>l. Some (Lookup_where l)) (minimalCriteria lookups)). query_matches env q d"
      using m(1) by (auto simp: query_matches_def)
  qed
  then show ?thesis using queries by (auto simp: cs_def)
qed

end
