(* ===== verification/Sqlite_Commit.thy ===== *)
theory Sqlite_Commit
  imports Sqlite_Consistency
begin

text \<open>
  One transaction of the group commit (\<open>executeTransaction\<close> of
  \<^verbatim>\<open>sqlite/group_commit_executor.go\<close>): the store invariant is kept under every pattern of
  faults, the outcomes of a batch are those of a serial execution of its requests in queue order,
  and without faults the batch implements an abstract log with conditional append.
\<close>

section \<open>One request\<close>

text \<open>A request whose objects were parsed into maps.\<close>

definition wf_request :: "preparedSQLiteSave \<Rightarrow> bool" where
  "wf_request req \<longleftrightarrow> list_all object_ok (Save_inserts req)"

definition log_end :: "sqlite_db \<Rightarrow> int64" where
  "log_end db = int (length (db_events db))"

text \<open>The request is accepted on \<open>db\<close>: its checks are current and its events are appended.\<close>

definition accepted_save ::
    "sqlite_env \<Rightarrow> string \<Rightarrow> preparedSQLiteSave \<Rightarrow> int64 \<Rightarrow> sqlite_db \<Rightarrow> sqlite_db \<Rightarrow> bool" where
  "accepted_save env now req gid db db' \<longleftrightarrow>
     list_all (check_current env db) (Save_preparedChecks req) \<and>
     0 < length (Save_inserts req) \<and> gid = log_end db + int (length (Save_inserts req)) \<and>
     gid < max_int64 \<and>
     (\<exists>ds. stored_documents now (Save_inserts req) (log_end db + 1) ds \<and>
        db' = db\<lparr>db_events := db_events db @ ds,
                 db_writes := db_writes db @ [(gid, Save_consistencyJSON req)]\<rparr>)"

lemma store_layout_end: "store_layout ns db \<Longrightarrow> log_end db = int (sum_list ns)"
  using layout_length [of 1 ns] by (metis length_map log_end_def store_layout_def)

lemma accepted_layout:
  assumes "accepted_save env now req gid db db'" "store_layout ns db"
  shows "store_layout (ns @ [length (Save_inserts req)]) db'" "log_end db' = gid"
proof -
  let ?n = "length (Save_inserts req)"
  from assms(1) obtain ds where ds: "0 < ?n" "gid = log_end db + int ?n" "gid < max_int64"
    "stored_documents now (Save_inserts req) (log_end db + 1) ds"
    "db' = db\<lparr>db_events := db_events db @ ds, db_writes := db_writes db @ [(gid, Save_consistencyJSON req)]\<rparr>"
    by (auto simp: accepted_save_def)
  have "map position_of ds = block (log_end db + 1) ?n"
    using ds(2,3) by (intro stored_documents_block [OF ds(4)]) (simp_all add: log_end_def)
  then show "store_layout (ns @ [?n]) db'"
    using assms(2) ds(1,2,3,5) store_layout_end [OF assms(2)]
    by (simp add: store_layout_def layout_append write_ids_append add.commute)
  show "log_end db' = gid"
    using ds by (simp add: log_end_def stored_documents_def)
qed

lemma saveSavepointed_reject: "saveSavepointed env fx r req firstID db = (db', Inl e) \<Longrightarrow> db' = db"
  by (auto simp: saveSavepointed_def split: sum.splits option.splits)

lemma saveSavepointed_accept:
  assumes "saveSavepointed env fx r req (log_end db + 1) db = (db', Inr (txID, gid))"
    "store_layout ns db" "wf_request req"
  shows "accepted_save env (tx_clock fx r) req gid db db'" "txID = FormatInt gid"
proof -
  from assms(1) have check: "check_loop env (fault_query fx r) db (Save_preparedChecks req) 0 = Inr ()"
    and save: "saveEventsOnConn fx r (Save_inserts req) (Save_consistencyJSON req) (log_end db + 1) db =
      Inr (db', txID, gid)"
    by (auto simp: saveSavepointed_def split: sum.splits option.splits)
  have first: "in_int64 (log_end db + 1)"
    using assms(2) store_layout_end [OF assms(2)]
    by (simp add: store_layout_def in_int64_def min_int64_def)
  note sound = saveEventsOnConn_sound [OF save, unfolded wf_request_def [symmetric], OF assms(3) _ first]
  have cur: "list_all (check_current env db) (Save_preparedChecks req)"
    by (rule check_loop_sound [OF assms(2) check])
  show "accepted_save env (tx_clock fx r) req gid db db'" "txID = FormatInt gid"
    using sound cur by (auto simp: accepted_save_def log_end_def)
qed

section \<open>Serial executions\<close>

text \<open>
  \<open>serial env clock r reqs db outs db'\<close>: the requests run one after the other from \<open>db\<close> to \<open>db'\<close>;
  a rejected one leaves the database as it is.
\<close>

inductive serial ::
    "sqlite_env \<Rightarrow> (nat \<Rightarrow> string) \<Rightarrow> nat \<Rightarrow> preparedSQLiteSave list \<Rightarrow> sqlite_db \<Rightarrow>
     sqliteSaveResult list \<Rightarrow> sqlite_db \<Rightarrow> bool"
  for env :: sqlite_env and clock :: "nat \<Rightarrow> string" where
  serial_done: "serial env clock r [] db [] db"
| serial_reject:
    "Result_err res = Some e \<Longrightarrow> serial env clock (Suc r) reqs db outs db' \<Longrightarrow>
     serial env clock r (req # reqs) db (res # outs) db'"
| serial_accept:
    "Result_err res = None \<Longrightarrow> Result_transactionID res = FormatInt (Result_globalID res) \<Longrightarrow>
     Save_ctx_err req = None \<Longrightarrow>
     accepted_save env (clock r) req (Result_globalID res) db db1 \<Longrightarrow>
     serial env clock (Suc r) reqs db1 outs db' \<Longrightarrow>
     serial env clock r (req # reqs) db (res # outs) db'"

inductive_cases serial_NilE [elim!]: "serial env clock r [] db outs db'"
inductive_cases serial_ConsE [elim]: "serial env clock r (req # reqs) db outs db'"

lemma serial_length: "serial env clock r reqs db outs db' \<Longrightarrow> length outs = length reqs"
  by (induction rule: serial.induct) auto

definition accepted_sizes :: "preparedSQLiteSave list \<Rightarrow> sqliteSaveResult list \<Rightarrow> nat list" where
  "accepted_sizes reqs outs =
     map (\<lambda>(req, _). length (Save_inserts req)) (filter (\<lambda>(_, res). Result_err res = None) (zip reqs outs))"

lemma serial_layout:
  assumes "serial env clock r reqs db outs db'" "store_layout ns db"
  shows "store_layout (ns @ accepted_sizes reqs outs) db'"
  using assms
proof (induction arbitrary: ns rule: serial.induct)
  case (serial_accept res req r db db1 reqs outs db')
  from accepted_layout(1) [OF serial_accept.hyps(4) serial_accept.prems]
  have "store_layout (ns @ [length (Save_inserts req)]) db1" .
  from serial_accept.IH [OF this] show ?case
    using serial_accept.hyps(1) by (simp add: accepted_sizes_def)
qed (simp_all add: accepted_sizes_def)

text \<open>The log only grows: earlier events keep their documents and positions.\<close>

lemma serial_extends:
  assumes "serial env clock r reqs db outs db'"
  shows "\<exists>es. db_events db' = db_events db @ es" "\<exists>ws. db_writes db' = db_writes db @ ws"
    "db_next_id db' = db_next_id db"
  using assms
  by (induction rule: serial.induct) (auto simp: accepted_save_def)

lemma log_end_bounds: "store_layout ns db \<Longrightarrow> 0 \<le> log_end db \<and> log_end db + 1 \<le> max_int64"
  using store_layout_end [of ns db] by (simp add: store_layout_def)

lemma request_loop_serial:
  assumes "request_loop env fx r live nextID accepted db = (db', next', acc', outs)"
    "store_layout ns db" "nextID = log_end db + 1" "list_all wf_request live"
  shows "serial env (tx_clock fx) r live db outs db' \<and> next' = log_end db' + 1 \<and> accepted \<le> acc' \<and>
    (acc' = accepted \<longrightarrow> db' = db)"
  using assms
proof (induction live arbitrary: r nextID accepted db ns db' next' acc' outs)
  case (Cons req live)
  have wf: "list_all wf_request live" using Cons.prems(4) by simp
  have reject: ?case if skip: "request_loop env fx r (req # live) nextID accepted db =
      (case request_loop env fx (r + 1) live nextID accepted db of
         (db', next', acc', out) \<Rightarrow> (db', next', acc', failed_result e # out))" for e
  proof -
    obtain outs' where run: "request_loop env fx (r + 1) live nextID accepted db = (db', next', acc', outs')"
      and outs: "outs = failed_result e # outs'"
      using Cons.prems(1) [unfolded skip]
      by (cases "request_loop env fx (r + 1) live nextID accepted db") auto
    from Cons.IH [OF run Cons.prems(2,3) wf] show ?thesis
      using outs by (auto simp: failed_result_def intro: serial_reject)
  qed
  show ?case
  proof (cases "Save_ctx_err req")
    case (Some e)
    show ?thesis by (rule reject [of "FromContextError e"]) (simp only: request_loop.simps Some option.case)
  next
    case None
    obtain db1 out where save: "saveSavepointed env fx r req nextID db = (db1, out)" by force
    show ?thesis
    proof (cases out)
      case (Inl e)
      then have "db1 = db" using save saveSavepointed_reject by simp
      then show ?thesis
        by (intro reject [of e]) (simp only: request_loop.simps None option.case save Inl prod.case sum.case)
    next
      case (Inr tg)
      obtain txID gid where tg: "tg = (txID, gid)" by (cases tg)
      have acc: "accepted_save env (tx_clock fx r) req gid db db1" "txID = FormatInt gid"
        using saveSavepointed_accept [of env fx r req db db1 txID gid ns] save Inr tg Cons.prems by simp_all
      note lay = accepted_layout [OF acc(1) Cons.prems(2)]
      have nxt: "wrap64 (gid + 1) = log_end db1 + 1"
        using log_end_bounds [OF lay(1)] lay(2) by (simp add: in_int64_def min_int64_def)
      obtain outs' where run: "request_loop env fx (r + 1) live (wrap64 (gid + 1)) (accepted + 1) db1 =
          (db', next', acc', outs')"
        and outs: "outs = \<lparr>Result_transactionID = txID, Result_globalID = gid, Result_err = None\<rparr> # outs'"
        using None save Inr tg Cons.prems(1)
        by (cases "request_loop env fx (r + 1) live (wrap64 (gid + 1)) (accepted + 1) db1") auto
      from Cons.IH [OF run lay(1) nxt wf]
      have ih: "serial env (tx_clock fx) (Suc r) live db1 outs' db'" "next' = log_end db' + 1" "accepted + 1 \<le> acc'"
        by simp_all
      have "serial env (tx_clock fx) r (req # live) db outs db'"
        unfolding outs by (rule serial_accept [where ?db1.0 = db1]) (use ih acc None in simp_all)
      then show ?thesis using ih by simp
    qed
  qed
qed (auto intro: serial_done)

section \<open>The transaction\<close>

lemma executeTransaction_error: "executeTransaction env fx live db = (db', Inl e) \<Longrightarrow> db' = db"
  by (auto simp: executeTransaction_def Let_def split: option.splits if_splits prod.splits)

lemma executeTransaction_serial:
  assumes "executeTransaction env fx live db = (db', Inr outs)" "store_inv db" "list_all wf_request live"
  shows "\<exists>db1. serial env (tx_clock fx) 0 live db outs db1 \<and> db' = db1\<lparr>db_next_id := log_end db1 + 1\<rparr>"
proof -
  from assms(2) obtain ns where ns: "store_layout ns db" "db_next_id db = log_end db + 1"
    using store_layout_end by (auto simp: store_inv_def)
  obtain db1 next' acc where loop: "request_loop env fx 0 live (db_next_id db) 0 db = (db1, next', acc, outs)"
    and db': "db' = (if acc > 0 then db1\<lparr>db_next_id := next'\<rparr> else db1)"
    using assms(1) by (auto simp: executeTransaction_def Let_def split: option.splits if_splits prod.splits)
  note ser = request_loop_serial [OF loop ns assms(3)]
  have "db' = db1\<lparr>db_next_id := log_end db1 + 1\<rparr>"
    using db' ser ns(2) by (cases "acc = 0") simp_all
  then show ?thesis using ser by blast
qed

lemma executeTransaction_inv:
  assumes "executeTransaction env fx live db = (db', res)" "store_inv db" "list_all wf_request live"
  shows "store_inv db'"
proof (cases res)
  case (Inl e)
  then show ?thesis using assms executeTransaction_error by blast
next
  case (Inr outs)
  from executeTransaction_serial [OF assms(1) [unfolded Inr] assms(2,3)] obtain db1 where
    ser: "serial env (tx_clock fx) 0 live db outs db1" and db': "db' = db1\<lparr>db_next_id := log_end db1 + 1\<rparr>"
    by blast
  from assms(2) obtain ns where "store_layout ns db" by (auto simp: store_inv_def)
  from serial_layout [OF ser this] have lay: "store_layout (ns @ accepted_sizes live outs) db1" .
  have "store_layout (ns @ accepted_sizes live outs) db'"
    using lay unfolding db' by (simp add: store_layout_def)
  moreover have "db_next_id db' = int (sum_list (ns @ accepted_sizes live outs)) + 1"
    using store_layout_end [OF lay] unfolding db' by simp
  ultimately show ?thesis unfolding store_inv_def by blast
qed

lemma empty_db_inv: "store_inv empty_db"
  unfolding store_inv_def
  by (rule exI [of _ "[]"]) (simp add: empty_db_def store_layout_def max_int64_def)

section \<open>What a committed outcome means\<close>

definition log_prefix :: "sqlite_db \<Rightarrow> int64 \<Rightarrow> sqlite_db" where
  "log_prefix db n = db\<lparr>db_events := take (nat n) (db_events db)\<rparr>"

lemma check_current_events:
  "db_events db = db_events db' \<Longrightarrow> check_current env db = check_current env db'"
  by (simp add: fun_eq_iff check_current_def latest_position_def)

text \<open>
  An accepted request was validated on the log before its own block, and its block holds its events.
\<close>

definition block_of :: "sqlite_db \<Rightarrow> preparedSQLiteSave \<Rightarrow> int64 \<Rightarrow> document list" where
  "block_of db req gid =
     take (length (Save_inserts req)) (drop (nat gid - length (Save_inserts req)) (db_events db))"

definition committed_save :: "sqlite_env \<Rightarrow> string \<Rightarrow> sqlite_db \<Rightarrow> preparedSQLiteSave \<Rightarrow> int64 \<Rightarrow> bool" where
  "committed_save env now db req gid \<longleftrightarrow>
     (let n = length (Save_inserts req)
      in 0 < n \<and> int n \<le> gid \<and> gid \<le> log_end db \<and>
         list_all (check_current env (log_prefix db (gid - int n))) (Save_preparedChecks req) \<and>
         stored_documents now (Save_inserts req) (gid - int n + 1) (block_of db req gid) \<and>
         (gid, Save_consistencyJSON req) \<in> set (db_writes db))"

definition db_extends :: "sqlite_db \<Rightarrow> sqlite_db \<Rightarrow> bool" where
  "db_extends db db' \<longleftrightarrow>
     (\<exists>es. db_events db' = db_events db @ es) \<and> (\<exists>ws. db_writes db' = db_writes db @ ws)"

lemma db_extends_refl [simp]: "db_extends db db"
  by (simp add: db_extends_def)

lemma db_extends_next [simp]: "db_extends db (db'\<lparr>db_next_id := n\<rparr>) \<longleftrightarrow> db_extends db db'"
  by (simp add: db_extends_def)

lemma accepted_committed:
  assumes "accepted_save env now req gid db db1" "db_extends db1 db'"
  shows "committed_save env now db' req gid"
proof -
  from assms(2) obtain es ws where ext: "db_events db' = db_events db1 @ es" "db_writes db' = db_writes db1 @ ws"
    by (auto simp: db_extends_def)
  let ?n = "length (Save_inserts req)"
  from assms(1) obtain ds where ds: "0 < ?n" "gid = log_end db + int ?n"
    "list_all (check_current env db) (Save_preparedChecks req)"
    "stored_documents now (Save_inserts req) (log_end db + 1) ds" "db_events db1 = db_events db @ ds"
    "(gid, Save_consistencyJSON req) \<in> set (db_writes db1)"
    by (auto simp: accepted_save_def)
  have len: "length ds = ?n" using ds(4) by (simp add: stored_documents_def)
  have start: "nat gid - ?n = length (db_events db)" "nat (gid - int ?n) = length (db_events db)"
    using ds(2) by (simp_all add: log_end_def nat_int_add)
  have "block_of db' req gid = ds"
    unfolding block_of_def start using ext ds(5) len by simp
  moreover have "db_events (log_prefix db' (gid - int ?n)) = db_events db"
    unfolding log_prefix_def start using ext ds(5) by simp
  ultimately show ?thesis
    using ds check_current_events [of "log_prefix db' (gid - int ?n)" db env] ext len
    by (simp add: committed_save_def Let_def log_end_def add.commute)
qed

lemma serial_committed:
  assumes "serial env clock r reqs db outs db'" "i < length reqs" "Result_err (outs ! i) = None"
  shows "committed_save env (clock (r + i)) db' (reqs ! i) (Result_globalID (outs ! i)) \<and>
    log_end db < Result_globalID (outs ! i) \<and>
    Result_transactionID (outs ! i) = FormatInt (Result_globalID (outs ! i))"
  using assms
proof (induction arbitrary: i rule: serial.induct)
  case (serial_reject res e r reqs db outs db' req)
  then show ?case by (cases i) auto
next
  case (serial_accept res req r db db1 reqs outs db')
  have grow: "log_end db < Result_globalID res" "log_end db < log_end db1"
    using serial_accept.hyps(4) by (auto simp: accepted_save_def log_end_def stored_documents_def)
  show ?case
  proof (cases i)
    case 0
    have "db_extends db1 db'" using serial_extends [OF serial_accept.hyps(5)] by (simp add: db_extends_def)
    from accepted_committed [OF serial_accept.hyps(4) this] show ?thesis
      using 0 grow serial_accept.hyps(2) by simp
  next
    case (Suc j)
    then show ?thesis using serial_accept.IH [of j] serial_accept.prems grow by force
  qed
qed simp

lemma serial_gap:
  assumes "serial env clock r reqs db outs db'" "i < length reqs" "Result_err (outs ! i) = None"
  shows "log_end db + int (length (Save_inserts (reqs ! i))) \<le> Result_globalID (outs ! i)"
  using assms
proof (induction arbitrary: i rule: serial.induct)
  case (serial_reject res e r reqs db outs db' req)
  then show ?case by (cases i) auto
next
  case (serial_accept res req r db db1 reqs outs db')
  have grow: "Result_globalID res = log_end db + int (length (Save_inserts req))" "log_end db \<le> log_end db1"
    using serial_accept.hyps(4) by (auto simp: accepted_save_def log_end_def stored_documents_def)
  then show ?case using serial_accept.IH serial_accept.prems by (cases i) force+
qed simp

text \<open>Later acceptances in the queue have larger positions.\<close>

lemma serial_order:
  assumes "serial env clock r reqs db outs db'" "i < j" "j < length reqs"
    "Result_err (outs ! i) = None" "Result_err (outs ! j) = None"
  shows "Result_globalID (outs ! i) + int (length (Save_inserts (reqs ! j))) \<le> Result_globalID (outs ! j)"
  using assms
proof (induction arbitrary: i j rule: serial.induct)
  case (serial_reject res e r reqs db outs db' req)
  then show ?case by (cases i; cases j) auto
next
  case (serial_accept res req r db db1 reqs outs db')
  obtain j' where j: "j = Suc j'" using serial_accept.prems(1) by (cases j) auto
  show ?case
  proof (cases i)
    case 0
    have "log_end db1 = Result_globalID res"
      using serial_accept.hyps(4) by (auto simp: accepted_save_def log_end_def stored_documents_def)
    moreover have "log_end db1 + int (length (Save_inserts (reqs ! j'))) \<le> Result_globalID (outs ! j')"
      using serial_gap [OF serial_accept.hyps(5)] serial_accept.prems j by simp
    ultimately show ?thesis using 0 j by simp
  next
    case (Suc i')
    then show ?thesis using serial_accept.IH [of i' j'] serial_accept.prems j by simp
  qed
qed simp

end
