(* ===== verification/Sqlite_Refinement.thy ===== *)
theory Sqlite_Refinement
  imports Sqlite_Commit
begin

text \<open>
  The abstract specification of the store, a log with conditional append, and the proof that a
  fault-free transaction of the group commit implements it.
\<close>

section \<open>Which requests succeed\<close>

definition encodable :: "preparedEventDocument \<Rightarrow> bool" where
  "encodable ev \<longleftrightarrow>
     Doc_err ev = None \<and> Object_fields (Doc_object ev) \<noteq> None \<and>
     (case MetadataValue (Doc_metadata ev) of Json _ \<Rightarrow> True | NotJson _ \<Rightarrow> False)"

lemma positionedDocument_total:
  assumes "encodable ev" "object_ok ev"
  shows "\<exists>d. positionedDocument ev gid (envelope_fields now tx) = Inr (Json (JObj d))"
proof -
  from assms(1) obtain flds meta where ev: "Doc_err ev = None" "Object_fields (Doc_object ev) = Some flds"
    "MetadataValue (Doc_metadata ev) = Json meta"
    by (auto simp: encodable_def split: json_text.splits)
  have obj: "Doc_object ev = \<lparr>Object_fields = Some flds\<rparr>" using ev(2) by (cases "Doc_object ev") simp
  have "distinct_keys flds" using assms(2) ev(2) by (simp add: object_ok_def)
  from Object_WithFields_ok [OF this distinct_envelope [of now tx ev gid meta]]
  show ?thesis
    unfolding positionedDocument_fields [OF ev(1)] ev(3) texts_envelope obj by blast
qed

lemma positionedDocument_encodable:
  assumes "positionedDocument ev gid (envelope_fields now tx) = Inr t" "object_ok ev"
  shows "encodable ev"
proof -
  have "Doc_err ev = None" using assms(1) by (auto simp: positionedDocument_def split: option.splits)
  then show ?thesis using positionedDocument_ok [OF assms] by (auto simp: encodable_def)
qed

lemma saveEventsOnConn_encodable:
  assumes "saveEventsOnConn fx r events cj firstID db = Inr res" "list_all object_ok events"
  shows "list_all encodable events"
proof -
  obtain db1 db2 lastID where
    "insertEventBatch (fault_insert fx r) (tx_clock fx r) events firstID lastID db1 = Inr db2"
    using assms(1) by (auto simp: saveEventsOnConn_def Let_def split: if_splits)
  from insert_chunks_sound [OF this [unfolded insertEventBatch_def Let_def, folded envelope_fields_def]]
  obtain docs where docs: "mapR (document_at events firstID (envelope_fields (tx_clock fx r) lastID)) [0..<length events] = Inr docs"
    by blast
  show ?thesis unfolding list_all_length
  proof (intro allI impI)
    fix i assume i: "i < length events"
    from mapR_Inr_set [OF docs, of i] i obtain t where
      "document_at events firstID (envelope_fields (tx_clock fx r) lastID) i = Inr t" by auto
    then show "encodable (events ! i)"
      using positionedDocument_encodable assms(2) i by (auto simp: list_all_length)
  qed
qed

lemma write_ids_bound: "w \<in> set (write_ids f ns) \<Longrightarrow> list_all (\<lambda>n. 0 < n) ns \<Longrightarrow> w < f + int (sum_list ns)"
proof (induction ns arbitrary: f)
  case (Cons n ns)
  then show ?case using Cons.IH [of "f + int n"] by (fastforce simp: add.assoc)
qed simp

lemma block_ids: "map PreparePosition (block f n) = map (\<lambda>i. f + int i) [0..<n]"
  by (simp add: block_def)

lemma documents_fit:
  assumes "stored_documents now events (log_end db + 1) ds" "store_layout ns db"
    "log_end db + 1 + int (length events) \<le> max_int64"
  shows "rows_fit ds db"
proof -
  have blk: "map position_of ds = block (log_end db + 1) (length events)"
    by (rule stored_documents_block [OF assms(1)]) (use assms(3) in \<open>simp_all add: log_end_def\<close>)
  have ids: "map global_id ds = map (\<lambda>i. log_end db + 1 + int i) [0..<length events]"
  proof -
    have "map global_id ds = map PreparePosition (map position_of ds)" by (simp add: position_of_def)
    then show ?thesis unfolding blk block_ids .
  qed
  have new: "log_end db < global_id d" if "d \<in> set ds" for d
  proof -
    have "global_id d \<in> set (map global_id ds)" using that by simp
    then show ?thesis unfolding ids by auto
  qed
  have old: "global_id d \<le> log_end db" if "d \<in> set (db_events db)" for d
  proof -
    have "global_id d \<in> set (map global_id (db_events db))" using that by simp
    then show ?thesis unfolding store_layout_ids [OF assms(2)] by (simp add: log_end_def)
  qed
  have "not_null_row (ds ! i)" if i: "i < length events" for i
  proof -
    have range: "in_int64 (log_end db + 1 + int (length events) - 1)" "in_int64 (log_end db + 1 + int i)"
      using i assms(3) by (simp_all add: in_int64_def min_int64_def max_int64_def log_end_def)
    from assms(1) i obtain flds meta where
      "map_of (ds ! i) = map_of flds ++
         map_of (envelope now (log_end db + 1 + int (length events) - 1) (events ! i) (log_end db + 1 + int i) meta)"
      unfolding stored_documents_def by blast
    from envelope_columns [OF this range] show ?thesis by (simp add: not_null_row_def)
  qed
  moreover have "distinct (map global_id ds)" unfolding ids by (simp add: distinct_map inj_on_def)
  moreover have "global_id ` set ds \<inter> global_id ` set (db_events db) = {}" using new old by fastforce
  ultimately show ?thesis
    using assms(1) by (simp add: rows_fit_def list_all_length stored_documents_def)
qed

lemma documents_exist:
  assumes "list_all encodable events" "list_all object_ok events"
  shows "\<exists>ds. mapR (document_at events firstID (envelope_fields now tx)) [0..<length events] = Inr (doc_texts ds)"
proof -
  have "\<exists>f. \<forall>i<length events. document_at events firstID (envelope_fields now tx) i = Inr (Json (JObj (f i)))"
    using positionedDocument_total assms by (intro choice) (force simp: list_all_length)
  then obtain f where "\<forall>i<length events. document_at events firstID (envelope_fields now tx) i = Inr (Json (JObj (f i)))" ..
  then have "mapR (document_at events firstID (envelope_fields now tx)) [0..<length events] =
      Inr (map (\<lambda>i. Json (JObj (f i))) [0..<length events])" by (intro mapR_cong_Inr) simp
  then show ?thesis by (intro exI [of _ "map f [0..<length events]"]) (simp add: comp_def)
qed

lemma saveEventsOnConn_complete:
  assumes "fault_write fx r = None" "\<And>s. fault_insert fx r s = None" "store_layout ns db"
    "list_all encodable events" "list_all object_ok events" "0 < length events"
    "log_end db + 1 + int (length events) \<le> max_int64"
  shows "\<exists>res. saveEventsOnConn fx r events cj (log_end db + 1) db = Inr res"
proof -
  let ?first = "log_end db + 1"
  define gid where "gid = ?first + int (length events) - 1"
  let ?db1 = "db\<lparr>db_writes := db_writes db @ [(gid, cj)]\<rparr>"
  have first: "1 \<le> ?first" by (simp add: log_end_def)
  have room: "wrap64 (max_int64 - ?first) = max_int64 - ?first"
    using first assms(7) by (intro wrap64_id) (simp add: in_int64_def min_int64_def max_int64_def)
  have last: "wrap64 (wrap64 (?first + int (length events)) - 1) = gid"
    using assms(7) first by (simp add: gid_def in_int64_def min_int64_def max_int64_def)
  have fresh: "\<not> list_ex (\<lambda>(w, _). w = gid) (db_writes db)"
  proof -
    have "w < gid" if "w \<in> set (map fst (db_writes db))" for w
    proof -
      have "w \<in> set (write_ids 1 ns)" using that assms(3) by (simp only: store_layout_def)
      then have "w < 1 + int (sum_list ns)"
        using assms(3) by (intro write_ids_bound) (simp_all only: store_layout_def)
      then show ?thesis using store_layout_end [OF assms(3)] assms(6) unfolding gid_def by linarith
    qed
    then show ?thesis by (fastforce simp: list_ex_iff)
  qed
  obtain ds where docs: "mapR (document_at events ?first (envelope_fields (tx_clock fx r) gid)) [0..<length events] = Inr (doc_texts ds)"
    using documents_exist [OF assms(4,5)] by blast
  have "stored_documents (tx_clock fx r) events ?first ds"
    by (rule document_batch [OF docs assms(5) first assms(7) gid_def])
  then have "rows_fit ds ?db1"
    using documents_fit [OF _ assms(3,7)] by (simp add: rows_fit_def)
  then have "insert_rows (doc_texts ds) ?db1 = Inr (?db1\<lparr>db_events := db_events ?db1 @ ds\<rparr>)"
    by (rule insert_rows_complete)
  from insert_chunks_complete [OF assms(2) docs this]
  have "insertEventBatch (fault_insert fx r) (tx_clock fx r) events ?first gid ?db1 =
      Inr (?db1\<lparr>db_events := db_events ?db1 @ ds\<rparr>)"
    unfolding insertEventBatch_def Let_def envelope_fields_def .
  moreover have "insertWriteContext (fault_write fx r) gid cj db = Inr ?db1"
    using fresh assms(1) by (simp add: insertWriteContext_def)
  ultimately show ?thesis
    using assms(6,7) by (simp add: saveEventsOnConn_def room last Let_def)
qed

section \<open>The abstract log\<close>

text \<open>
  A log is a list of documents. A conditional append has a condition on the log and the documents
  to add at the next position.
\<close>

type_synonym log = "document list"

record append_op =
  append_guard :: "log \<Rightarrow> bool"
  append_docs :: "int64 \<Rightarrow> document list"

definition log_append :: "append_op \<Rightarrow> log \<Rightarrow> log \<times> bool" where
  "log_append a l =
     (if append_guard a l then (l @ append_docs a (int (length l) + 1), True) else (l, False))"

fun log_run :: "append_op list \<Rightarrow> log \<Rightarrow> log \<times> bool list" where
  "log_run [] l = (l, [])"
| "log_run (a # as) l =
     (case log_append a l of (l1, ok) \<Rightarrow> (case log_run as l1 of (l2, oks) \<Rightarrow> (l2, ok # oks)))"

text \<open>The abstract operation of a prepared request.\<close>

definition save_guard :: "sqlite_env \<Rightarrow> preparedSQLiteSave \<Rightarrow> log \<Rightarrow> bool" where
  "save_guard env req l \<longleftrightarrow>
     Save_ctx_err req = None \<and>
     list_all (check_current env \<lparr>db_events = l, db_writes = [], db_next_id = 1\<rparr>) (Save_preparedChecks req) \<and>
     0 < length (Save_inserts req) \<and> list_all encodable (Save_inserts req) \<and>
     int (length l) + 1 + int (length (Save_inserts req)) \<le> max_int64"

definition save_docs :: "string \<Rightarrow> preparedSQLiteSave \<Rightarrow> int64 \<Rightarrow> document list" where
  "save_docs now req firstID =
     map (\<lambda>i. case positionedDocument (Save_inserts req ! i) (firstID + int i)
                  (envelope_fields now (firstID + int (length (Save_inserts req)) - 1)) of
                Inr (Json (JObj d)) \<Rightarrow> d | _ \<Rightarrow> [])
       [0..<length (Save_inserts req)]"

definition save_op :: "sqlite_env \<Rightarrow> string \<Rightarrow> preparedSQLiteSave \<Rightarrow> append_op" where
  "save_op env now req = \<lparr>append_guard = save_guard env req, append_docs = save_docs now req\<rparr>"

definition no_faults :: "tx_faults \<Rightarrow> bool" where
  "no_faults fx \<longleftrightarrow>
     fault_begin fx = None \<and> fault_seq fx = None \<and> fault_update fx = None \<and> fault_commit fx = None \<and>
     (\<forall>r k j. fault_query fx r k j = None) \<and> (\<forall>r. fault_write fx r = None) \<and>
     (\<forall>r s. fault_insert fx r s = None) \<and> (\<forall>r. fault_release fx r = None)"

lemma stored_documents_unique:
  assumes "stored_documents now events first ds" "stored_documents now events first ds'"
  shows "ds = ds'"
proof (rule nth_equalityI)
  show "length ds = length ds'" using assms by (simp add: stored_documents_def)
  fix i assume "i < length ds"
  then have "i < length events" using assms(1) by (simp add: stored_documents_def)
  then show "ds ! i = ds' ! i"
    using assms sorted_object_unique unfolding stored_documents_def
    by (metis json_text.inject(1) option.inject)
qed

lemma save_docs_stored:
  assumes "list_all encodable (Save_inserts req)" "list_all object_ok (Save_inserts req)" "1 \<le> first"
    "first + int (length (Save_inserts req)) \<le> max_int64"
  shows "stored_documents now (Save_inserts req) first (save_docs now req first)"
proof -
  let ?n = "length (Save_inserts req)"
  let ?flds = "envelope_fields now (first + int ?n - 1)"
  obtain ds where docs: "mapR (document_at (Save_inserts req) first ?flds) [0..<?n] = Inr (doc_texts ds)"
    using documents_exist [OF assms(1,2)] by blast
  then have all: "list_all2 (\<lambda>i t. document_at (Save_inserts req) first ?flds i = Inr t) [0..<?n] (doc_texts ds)"
    by (simp add: mapR_Inr_iff)
  have "save_docs now req first = ds"
  proof (rule nth_equalityI)
    show "length (save_docs now req first) = length ds"
      using all by (auto simp: save_docs_def dest: list_all2_lengthD)
    fix i assume "i < length (save_docs now req first)"
    then have i: "i < ?n" by (simp add: save_docs_def)
    have "positionedDocument (Save_inserts req ! i) (first + int i) ?flds = Inr (Json (JObj (ds ! i)))"
      using list_all2_nthD2 [OF all, of i] i list_all2_lengthD [OF all]
        in_int64_range [of first ?n i] assms(3,4) by simp
    then show "save_docs now req first ! i = ds ! i" using i by (simp add: save_docs_def)
  qed
  then show ?thesis using document_batch [OF docs assms(2-4)] by simp
qed

lemma save_guard_current:
  assumes "db_events db = l"
  shows "list_all (check_current env \<lparr>db_events = l, db_writes = [], db_next_id = 1\<rparr>) cs \<longleftrightarrow>
     list_all (check_current env db) cs"
proof -
  have "check_current env \<lparr>db_events = l, db_writes = [], db_next_id = 1\<rparr> = check_current env db"
    by (rule check_current_events) (simp add: assms)
  then show ?thesis by (simp only:)
qed

text \<open>One request of the detailed model is one conditional append.\<close>

lemma saveSavepointed_refines:
  assumes "no_faults fx" "store_layout ns db" "wf_request req" "Save_ctx_err req = None"
  shows "\<exists>db' out. saveSavepointed env fx r req (log_end db + 1) db = (db', out) \<and>
     (db_events db', isl out) =
       (case log_append (save_op env (tx_clock fx r) req) (db_events db) of (l, ok) \<Rightarrow> (l, \<not> ok))"
proof -
  let ?save = "saveSavepointed env fx r req (log_end db + 1) db"
  have guard: "save_guard env req (db_events db)" if run: "?save = (db', Inr (txID, gid))" for db' txID gid
  proof -
    have acc: "accepted_save env (tx_clock fx r) req gid db db'"
      by (rule saveSavepointed_accept [OF run assms(2,3)])
    moreover have "list_all encodable (Save_inserts req)"
    proof -
      from run obtain res where "saveEventsOnConn fx r (Save_inserts req) (Save_consistencyJSON req) (log_end db + 1) db = Inr res"
        by (auto simp: saveSavepointed_def split: sum.splits option.splits)
      then show ?thesis using assms(3) saveEventsOnConn_encodable by (simp add: wf_request_def)
    qed
    ultimately show ?thesis
      using assms(4) by (simp add: save_guard_def save_guard_current [OF refl] accepted_save_def log_end_def)
  qed
  have success: "\<exists>db' txID gid. ?save = (db', Inr (txID, gid))" if g: "save_guard env req (db_events db)"
  proof -
    have "check_loop env (fault_query fx r) db (Save_preparedChecks req) 0 = Inr ()"
      using g assms(1) by (intro check_loop_complete [OF assms(2)])
        (simp_all add: no_faults_def save_guard_def save_guard_current [OF refl])
    moreover obtain res where "saveEventsOnConn fx r (Save_inserts req) (Save_consistencyJSON req) (log_end db + 1) db = Inr res"
      using saveEventsOnConn_complete [of fx r ns db "Save_inserts req" "Save_consistencyJSON req"] g assms
      by (auto simp: no_faults_def save_guard_def wf_request_def log_end_def)
    ultimately show ?thesis using assms(1)
      by (cases res) (simp add: saveSavepointed_def no_faults_def)
  qed
  have docs: "db_events db' = db_events db @ save_docs (tx_clock fx r) req (log_end db + 1)"
    if run: "?save = (db', Inr (txID, gid))" for db' txID gid
  proof -
    from saveSavepointed_accept(1) [OF run assms(2,3)] obtain ds where
      ds: "stored_documents (tx_clock fx r) (Save_inserts req) (log_end db + 1) ds"
      "db_events db' = db_events db @ ds" by (auto simp: accepted_save_def)
    have "stored_documents (tx_clock fx r) (Save_inserts req) (log_end db + 1)
        (save_docs (tx_clock fx r) req (log_end db + 1))"
      using guard [OF run] assms(3)
      by (intro save_docs_stored) (simp_all add: save_guard_def wf_request_def log_end_def)
    with ds show ?thesis using stored_documents_unique by metis
  qed
  show ?thesis
  proof (cases "save_guard env req (db_events db)")
    case True
    from success [OF True] obtain db' txID gid where run: "?save = (db', Inr (txID, gid))" by blast
    then show ?thesis using docs [OF run] True
      by (simp add: log_append_def save_op_def log_end_def)
  next
    case False
    obtain db' out where run: "?save = (db', out)" by force
    with False guard have "isl out" by (cases out) auto
    then obtain e where "out = Inl e" by (cases out) auto
    with run saveSavepointed_reject have "db' = db" by metis
    then show ?thesis using run False \<open>isl out\<close> by (simp add: log_append_def save_op_def)
  qed
qed

fun save_ops :: "sqlite_env \<Rightarrow> (nat \<Rightarrow> string) \<Rightarrow> nat \<Rightarrow> preparedSQLiteSave list \<Rightarrow> append_op list" where
  "save_ops env clock r [] = []"
| "save_ops env clock r (req # reqs) = save_op env (clock r) req # save_ops env clock (r + 1) reqs"

lemma request_loop_refines:
  assumes "no_faults fx" "store_layout ns db" "list_all wf_request live" "nextID = log_end db + 1"
    "request_loop env fx r live nextID accepted db = (db', next', acc', outs)"
  shows "log_run (save_ops env (tx_clock fx) r live) (db_events db) =
    (db_events db', map (\<lambda>res. Result_err res = None) outs)"
  using assms(2-)
proof (induction live arbitrary: r nextID accepted db ns db' next' acc' outs)
  case (Cons req live)
  show ?case
  proof (cases "Save_ctx_err req")
    case (Some e)
    then have "log_append (save_op env (tx_clock fx r) req) (db_events db) = (db_events db, False)"
      by (simp add: log_append_def save_op_def save_guard_def)
    moreover obtain outs' where "request_loop env fx (r + 1) live nextID accepted db = (db', next', acc', outs')"
      "outs = failed_result (FromContextError e) # outs'"
      using Some Cons.prems(4)
      by (cases "request_loop env fx (r + 1) live nextID accepted db") auto
    ultimately show ?thesis
      using Cons.IH [OF Cons.prems(1) _ Cons.prems(3)] Cons.prems(2) by (simp add: failed_result_def)
  next
    case None
    from saveSavepointed_refines [OF assms(1) Cons.prems(1) _ None, of env r] Cons.prems(2,3)
    obtain db1 out where run: "saveSavepointed env fx r req nextID db = (db1, out)"
      and ref: "log_append (save_op env (tx_clock fx r) req) (db_events db) = (db_events db1, \<not> isl out)"
      by (auto split: prod.splits)
    show ?thesis
    proof (cases out)
      case (Inl e)
      then have "db1 = db" using run saveSavepointed_reject by simp
      moreover obtain outs' where "request_loop env fx (r + 1) live nextID accepted db1 = (db', next', acc', outs')"
        "outs = failed_result e # outs'"
        using None run Inl Cons.prems(4)
        by (cases "request_loop env fx (r + 1) live nextID accepted db1") auto
      ultimately show ?thesis
        using Cons.IH [OF Cons.prems(1) _ Cons.prems(3)] Cons.prems(2) ref Inl
        by (simp add: failed_result_def)
    next
      case (Inr tg)
      obtain txID gid where tg: "tg = (txID, gid)" by (cases tg)
      have acc: "accepted_save env (tx_clock fx r) req gid db db1"
        using saveSavepointed_accept [of env fx r req db db1 txID gid ns] run Inr tg Cons.prems by simp
      note lay = accepted_layout [OF acc Cons.prems(1)]
      have nxt: "wrap64 (gid + 1) = log_end db1 + 1"
        using log_end_bounds [OF lay(1)] lay(2) by (simp add: in_int64_def min_int64_def)
      obtain outs' where rest: "request_loop env fx (r + 1) live (wrap64 (gid + 1)) (accepted + 1) db1 =
          (db', next', acc', outs')"
        and outs: "outs = \<lparr>Result_transactionID = txID, Result_globalID = gid, Result_err = None\<rparr> # outs'"
        using None run Inr tg Cons.prems(4)
        by (cases "request_loop env fx (r + 1) live (wrap64 (gid + 1)) (accepted + 1) db1") auto
      from Cons.IH [OF lay(1) _ nxt rest] Cons.prems(2) show ?thesis
        using ref Inr outs by simp
    qed
  qed
qed simp

end
