(* ===== verification/Group_Commit.thy ===== *)
theory Group_Commit
  imports Status_Code
begin

text \<open>
  The group-commit coordinator (\<^verbatim>\<open>internal/groupcommit/coordinator.go\<close>): bounded admission of
  requests per boundary and ordered batches, executed by a backend.

  A lane is the queue of one boundary with its worker. The worker's program points are the phases;
  a step of \<open>gc_step\<close> is one step of a submitter, of a worker or of \<open>Close\<close>, interleaved in any
  order. Contexts may be cancelled at any time and the backend is a relation on an external state,
  so every outcome of it is covered. The results a worker delivers are kept in \<open>lane_done\<close>, in the
  order of their requests; \<open>lane_admitted\<close> records the requests the queue has taken.
\<close>

section \<open>Configuration and state\<close>

record Config =
  MaxBatchRequests :: int
  MaxBatchEvents :: int
  MaxPending :: int
  MaxDelay :: int64
  FlushTimeout :: int64

definition ErrClosed :: goerror where
  "ErrClosed = PlainError ''group commit coordinator is shut down''"

record 'p request =
  Req_id :: nat
  Req_prepared :: 'p
  Req_events :: int

datatype 'p phase =
    WIdle "'p request option"
  | WGot "'p request"
  | WDrain "'p request list" int
  | WBatch "'p request list" "'p request option"
  | WAfter "'p request option"
  | WFailFast
  | WDone

record ('p, 'r) lane =
  lane_queue :: "'p request list"
  lane_queue_closed :: bool
  lane_phase :: "'p phase"
  lane_done :: "('p request \<times> 'r result) list"
  lane_admitted :: "'p request list"

record ('p, 'r) Coordinator =
  co_config :: Config
  co_closed :: bool
  co_lanes :: "string \<rightharpoonup> ('p, 'r) lane"
  co_senders :: "(string \<times> 'p request) list"
  co_next :: nat

text \<open>\<open>New\<close> panics on a configuration that is not normalised.\<close>

definition valid_config :: "Config \<Rightarrow> bool" where
  "valid_config cfg \<longleftrightarrow>
     \<not> (MaxBatchRequests cfg \<le> 0 \<or> MaxBatchEvents cfg \<le> 0 \<or> MaxPending cfg \<le> 0 \<or>
        FlushTimeout cfg \<le> 0 \<or> MaxDelay cfg < 0)"

definition New :: "Config \<Rightarrow> ('p, 'r) Coordinator option" where
  "New cfg =
     (if \<not> valid_config cfg then None
      else Some \<lparr>co_config = cfg, co_closed = False, co_lanes = Map.empty, co_senders = [], co_next = 0\<rparr>)"

definition new_lane :: "('p, 'r) lane" where
  "new_lane = \<lparr>lane_queue = [], lane_queue_closed = False, lane_phase = WIdle None, lane_done = [],
               lane_admitted = []\<rparr>"

definition Pending :: "('p, 'r) Coordinator \<Rightarrow> string \<Rightarrow> nat" where
  "Pending c boundary = (case co_lanes c boundary of None \<Rightarrow> 0 | Some l \<Rightarrow> length (lane_queue l))"

section \<open>Submission\<close>

text \<open>
  The checks before admission; \<open>ctxErr\<close> is what \<open>ctx.Err()\<close> returns. Then the queue of the boundary
  is created with its worker when there is none, and the sender is registered.
\<close>

definition Submit_check :: "('p, 'r) Coordinator \<Rightarrow> goerror option \<Rightarrow> int \<Rightarrow> unit result" where
  "Submit_check c ctxErr events =
     (if co_closed c then Inl ErrClosed
      else case ctxErr of
        Some err \<Rightarrow> Inl err
      | None \<Rightarrow> if events \<le> 0 then Inl (PlainError ''groupcommit: request must contain events'') else Inr ())"

definition Submit_register ::
    "('p, 'r) Coordinator \<Rightarrow> string \<Rightarrow> 'p \<Rightarrow> int \<Rightarrow> ('p, 'r) Coordinator" where
  "Submit_register c boundary prepared events =
     c\<lparr>co_lanes := (case co_lanes c boundary of
                       None \<Rightarrow> (co_lanes c)(boundary \<mapsto> new_lane) | Some _ \<Rightarrow> co_lanes c),
       co_senders := co_senders c @
         [(boundary, \<lparr>Req_id = co_next c, Req_prepared = prepared, Req_events = events\<rparr>)],
       co_next := co_next c + 1\<rparr>"

section \<open>The flush\<close>

datatype 'r flush_result = Outcomes "'r list" | FlushError goerror | FlushPanic string

definition live_requests :: "('p request \<Rightarrow> goerror option) \<Rightarrow> 'p request list \<Rightarrow> 'p request list" where
  "live_requests ctxErr batch = filter (\<lambda>r. ctxErr r = None) batch"

text \<open>Each request of the batch gets its context error or the next completion of the live ones.\<close>

fun completions ::
    "('p request \<Rightarrow> goerror option) \<Rightarrow> 'p request list \<Rightarrow> 'r result list \<Rightarrow> ('p request \<times> 'r result) list" where
  "completions ctxErr [] rs = []"
| "completions ctxErr (req # batch) rs =
     (case ctxErr req of
        Some err \<Rightarrow> (req, Inl err) # completions ctxErr batch rs
      | None \<Rightarrow> (case rs of [] \<Rightarrow> [] | r # rs' \<Rightarrow> (req, r) # completions ctxErr batch rs'))"

definition live_results :: "nat \<Rightarrow> 'r flush_result \<Rightarrow> 'r result list" where
  "live_results n res =
     (case res of
        FlushError err \<Rightarrow> replicate n (Inl (WrapError ''group commit flush: '' err))
      | FlushPanic m \<Rightarrow> replicate n (Inl (PlainError ''group commit flush panic: %v''))
      | Outcomes outcomes \<Rightarrow>
          if length outcomes \<noteq> n
          then replicate n (Inl (PlainError ''group commit returned %d outcomes for %d requests''))
          else map Inr outcomes)"

definition runFlush ::
    "('p request \<Rightarrow> goerror option) \<Rightarrow> 'r flush_result \<Rightarrow> 'p request list \<Rightarrow> ('p request \<times> 'r result) list" where
  "runFlush ctxErr res batch =
     completions ctxErr batch (live_results (length (live_requests ctxErr batch)) res)"

section \<open>Steps of a worker\<close>

abbreviation opt_list :: "'a option \<Rightarrow> 'a list" where
  "opt_list x \<equiv> (case x of None \<Rightarrow> [] | Some y \<Rightarrow> [y])"

definition fail :: "'p request list \<Rightarrow> goerror \<Rightarrow> ('p request \<times> 'r result) list" where
  "fail batch err = map (\<lambda>r. (r, Inl err)) batch"

text \<open>
  The steps of \<open>runWorker\<close>, \<open>drainBatch\<close> and \<open>failFast\<close> that only change the lane. The loop of
  \<open>drainBatch\<close> stops at its bounds, on an empty queue when there is no delay, and otherwise at the
  timer, at shutdown or when the queue is closed.
\<close>

inductive worker_step :: "Config \<Rightarrow> bool \<Rightarrow> ('p, 'r) lane \<Rightarrow> ('p, 'r) lane \<Rightarrow> bool"
  for cfg :: Config and shut :: bool where
  take_carry: "lane_phase l = WIdle (Some req) \<Longrightarrow> worker_step cfg shut l (l\<lparr>lane_phase := WGot req\<rparr>)"
| take_queue: "lane_phase l = WIdle None \<Longrightarrow> lane_queue l = req # q \<Longrightarrow>
    worker_step cfg shut l (l\<lparr>lane_phase := WGot req, lane_queue := q\<rparr>)"
| idle_closed: "lane_phase l = WIdle None \<Longrightarrow> shut \<Longrightarrow>
    worker_step cfg shut l (l\<lparr>lane_phase := WFailFast\<rparr>)"
| idle_end: "lane_phase l = WIdle None \<Longrightarrow> lane_queue l = [] \<Longrightarrow> lane_queue_closed l \<Longrightarrow>
    worker_step cfg shut l (l\<lparr>lane_phase := WDone\<rparr>)"
| got_closed: "lane_phase l = WGot req \<Longrightarrow> shut \<Longrightarrow>
    worker_step cfg shut l
      (l\<lparr>lane_phase := WFailFast, lane_done := lane_done l @ fail [req] ErrClosed\<rparr>)"
| got_open: "lane_phase l = WGot req \<Longrightarrow> \<not> shut \<Longrightarrow>
    worker_step cfg shut l (l\<lparr>lane_phase := WDrain [req] (Req_events req)\<rparr>)"
| drain_full: "lane_phase l = WDrain batch events \<Longrightarrow>
    \<not> (int (length batch) < MaxBatchRequests cfg \<and> events < MaxBatchEvents cfg) \<Longrightarrow>
    worker_step cfg shut l (l\<lparr>lane_phase := WBatch batch None\<rparr>)"
| drain_carry: "lane_phase l = WDrain batch events \<Longrightarrow>
    int (length batch) < MaxBatchRequests cfg \<Longrightarrow> events < MaxBatchEvents cfg \<Longrightarrow>
    lane_queue l = req # q \<Longrightarrow> events + Req_events req > MaxBatchEvents cfg \<Longrightarrow>
    worker_step cfg shut l (l\<lparr>lane_phase := WBatch batch (Some req), lane_queue := q\<rparr>)"
| drain_add: "lane_phase l = WDrain batch events \<Longrightarrow>
    int (length batch) < MaxBatchRequests cfg \<Longrightarrow> events < MaxBatchEvents cfg \<Longrightarrow>
    lane_queue l = req # q \<Longrightarrow> \<not> events + Req_events req > MaxBatchEvents cfg \<Longrightarrow>
    worker_step cfg shut l
      (l\<lparr>lane_phase := WDrain (batch @ [req]) (events + Req_events req), lane_queue := q\<rparr>)"
| drain_stop: "lane_phase l = WDrain batch events \<Longrightarrow>
    int (length batch) < MaxBatchRequests cfg \<Longrightarrow> events < MaxBatchEvents cfg \<Longrightarrow>
    (if MaxDelay cfg > 0 then True else lane_queue l = []) \<Longrightarrow>
    worker_step cfg shut l (l\<lparr>lane_phase := WBatch batch None\<rparr>)"
| batch_closed: "lane_phase l = WBatch batch carry \<Longrightarrow> shut \<Longrightarrow>
    worker_step cfg shut l
      (l\<lparr>lane_phase := WFailFast, lane_done := lane_done l @ fail (batch @ opt_list carry) ErrClosed\<rparr>)"
| after_closed: "lane_phase l = WAfter carry \<Longrightarrow> shut \<Longrightarrow>
    worker_step cfg shut l
      (l\<lparr>lane_phase := WFailFast, lane_done := lane_done l @ fail (opt_list carry) ErrClosed\<rparr>)"
| after_open: "lane_phase l = WAfter carry \<Longrightarrow> \<not> shut \<Longrightarrow>
    worker_step cfg shut l (l\<lparr>lane_phase := WIdle carry\<rparr>)"
| failfast_take: "lane_phase l = WFailFast \<Longrightarrow> lane_queue l = req # q \<Longrightarrow>
    worker_step cfg shut l (l\<lparr>lane_queue := q, lane_done := lane_done l @ fail [req] ErrClosed\<rparr>)"
| failfast_end: "lane_phase l = WFailFast \<Longrightarrow> lane_queue l = [] \<Longrightarrow> lane_queue_closed l \<Longrightarrow>
    worker_step cfg shut l (l\<lparr>lane_phase := WDone\<rparr>)"

section \<open>Steps of the coordinator\<close>

definition enqueue_lane :: "('p, 'r) lane \<Rightarrow> 'p request \<Rightarrow> ('p, 'r) lane" where
  "enqueue_lane l req = l\<lparr>lane_queue := lane_queue l @ [req], lane_admitted := lane_admitted l @ [req]\<rparr>"

definition flush_lane ::
    "('p request \<Rightarrow> goerror option) \<Rightarrow> 'r flush_result \<Rightarrow> 'p request list \<Rightarrow> 'p request option \<Rightarrow>
     ('p, 'r) lane \<Rightarrow> ('p, 'r) lane" where
  "flush_lane ctxErr res batch carry l =
     l\<lparr>lane_phase := WAfter carry, lane_done := lane_done l @ runFlush ctxErr res batch\<rparr>"

inductive gc_step ::
    "(string \<Rightarrow> 'p list \<Rightarrow> 's \<Rightarrow> 's \<Rightarrow> 'r flush_result \<Rightarrow> bool) \<Rightarrow> ('p \<Rightarrow> bool) \<Rightarrow>
     ('p, 'r) Coordinator \<times> 's \<Rightarrow> ('p, 'r) Coordinator \<times> 's \<Rightarrow> bool"
  for exec :: "string \<Rightarrow> 'p list \<Rightarrow> 's \<Rightarrow> 's \<Rightarrow> 'r flush_result \<Rightarrow> bool" and ok :: "'p \<Rightarrow> bool" where
  submit_register: "Submit_check c None events = Inr () \<Longrightarrow> ok prepared \<Longrightarrow>
    gc_step exec ok (c, s) (Submit_register c boundary prepared events, s)"
| submit_enqueue: "co_senders c = xs @ (boundary, req) # ys \<Longrightarrow> co_lanes c boundary = Some l \<Longrightarrow>
    int (length (lane_queue l)) < MaxPending (co_config c) \<Longrightarrow>
    gc_step exec ok (c, s)
      (c\<lparr>co_senders := xs @ ys, co_lanes := (co_lanes c)(boundary \<mapsto> enqueue_lane l req)\<rparr>, s)"
| submit_withdraw: "co_senders c = xs @ (boundary, req) # ys \<Longrightarrow>
    gc_step exec ok (c, s) (c\<lparr>co_senders := xs @ ys\<rparr>, s)"
| worker: "co_lanes c boundary = Some l \<Longrightarrow> worker_step (co_config c) (co_closed c) l l' \<Longrightarrow>
    gc_step exec ok (c, s) (c\<lparr>co_lanes := (co_lanes c)(boundary \<mapsto> l')\<rparr>, s)"
| flush: "co_lanes c boundary = Some l \<Longrightarrow> lane_phase l = WBatch batch carry \<Longrightarrow> \<not> co_closed c \<Longrightarrow>
    live_requests ctxErr batch \<noteq> [] \<Longrightarrow>
    exec boundary (map Req_prepared (live_requests ctxErr batch)) s s' res \<Longrightarrow>
    gc_step exec ok (c, s)
      (c\<lparr>co_lanes := (co_lanes c)(boundary \<mapsto> flush_lane ctxErr res batch carry l)\<rparr>, s')"
| flush_cancelled: "co_lanes c boundary = Some l \<Longrightarrow> lane_phase l = WBatch batch carry \<Longrightarrow> \<not> co_closed c \<Longrightarrow>
    live_requests ctxErr batch = [] \<Longrightarrow>
    gc_step exec ok (c, s)
      (c\<lparr>co_lanes := (co_lanes c)(boundary \<mapsto> flush_lane ctxErr (Outcomes []) batch carry l)\<rparr>, s)"
| close_signal: "gc_step exec ok (c, s) (c\<lparr>co_closed := True\<rparr>, s)"
| close_queues: "co_closed c \<Longrightarrow> co_senders c = [] \<Longrightarrow>
    gc_step exec ok (c, s)
      (c\<lparr>co_lanes := (\<lambda>b. map_option (\<lambda>l. l\<lparr>lane_queue_closed := True\<rparr>) (co_lanes c b))\<rparr>, s)"

text \<open>What a waiting submitter returns: the delivered completion, or its context's error.\<close>

definition Submit_returns :: "('p, 'r) lane \<Rightarrow> 'p request \<Rightarrow> goerror option \<Rightarrow> 'r result \<Rightarrow> bool" where
  "Submit_returns l req ctxErr res \<longleftrightarrow>
     (req, res) \<in> set (lane_done l) \<or> (\<exists>err. ctxErr = Some err \<and> res = Inl err)"

section \<open>Invariant of a lane\<close>

text \<open>The requests the worker holds at each program point.\<close>

fun held :: "'p phase \<Rightarrow> 'p request list" where
  "held (WIdle carry) = opt_list carry"
| "held (WGot req) = [req]"
| "held (WDrain batch _) = batch"
| "held (WBatch batch carry) = batch @ opt_list carry"
| "held (WAfter carry) = opt_list carry"
| "held _ = []"

definition batch_ok :: "Config \<Rightarrow> 'p request list \<Rightarrow> bool" where
  "batch_ok cfg batch \<longleftrightarrow>
     batch \<noteq> [] \<and> int (length batch) \<le> MaxBatchRequests cfg \<and>
     (length batch = 1 \<or> sum_list (map Req_events batch) \<le> MaxBatchEvents cfg)"

fun phase_ok :: "Config \<Rightarrow> 'p phase \<Rightarrow> bool" where
  "phase_ok cfg (WDrain batch events) \<longleftrightarrow> batch_ok cfg batch \<and> events = sum_list (map Req_events batch)"
| "phase_ok cfg (WBatch batch _) \<longleftrightarrow> batch_ok cfg batch"
| "phase_ok cfg _ \<longleftrightarrow> True"

definition lane_inv :: "Config \<Rightarrow> bool \<Rightarrow> ('p, 'r) lane \<Rightarrow> bool" where
  "lane_inv cfg shut l \<longleftrightarrow>
     map fst (lane_done l) @ held (lane_phase l) @ lane_queue l = lane_admitted l \<and>
     int (length (lane_queue l)) \<le> MaxPending cfg \<and> phase_ok cfg (lane_phase l) \<and>
     (lane_queue_closed l \<longrightarrow> shut) \<and>
     (lane_phase l = WDone \<longrightarrow> lane_queue l = [] \<and> lane_queue_closed l)"

lemma map_fst_fail [simp]: "map fst (fail batch err) = batch"
  by (simp add: fail_def comp_def)

lemma fail_no_success [simp]: "(req, Inr r) \<notin> set (fail batch err)"
  by (auto simp: fail_def)

lemma worker_step_keeps:
  assumes "worker_step cfg shut l l'"
  shows "lane_admitted l' = lane_admitted l \<and> lane_queue_closed l' = lane_queue_closed l"
  using assms by cases auto

lemma worker_step_inv:
  assumes "worker_step cfg shut l l'" "lane_inv cfg shut l" "valid_config cfg"
  shows "lane_inv cfg shut l'"
  using assms
  by cases (auto simp: lane_inv_def batch_ok_def valid_config_def split: option.splits)

lemma completions_fst:
  "length rs = length (live_requests ctxErr batch) \<Longrightarrow> map fst (completions ctxErr batch rs) = batch"
proof (induction batch arbitrary: rs)
  case (Cons req batch)
  then show ?case by (cases rs; cases "ctxErr req") (auto simp: live_requests_def)
qed simp

section \<open>Shutdown\<close>

text \<open>After the shutdown signal every step of a worker brings it closer to its end.\<close>

fun phase_rank :: "'p phase \<Rightarrow> nat" where
  "phase_rank (WIdle _) = 5"
| "phase_rank (WGot _) = 4"
| "phase_rank (WDrain _ _) = 4"
| "phase_rank (WBatch _ _) = 3"
| "phase_rank (WAfter _) = 2"
| "phase_rank WFailFast = 1"
| "phase_rank WDone = 0"

definition lane_rank :: "('p, 'r) lane \<Rightarrow> nat" where
  "lane_rank l = 6 * length (lane_queue l) + phase_rank (lane_phase l)"

lemma shutdown_step_decreases:
  assumes "worker_step cfg True l l'"
  shows "lane_rank l' < lane_rank l"
  using assms by cases (auto simp: lane_rank_def)

lemma shutdown_progress:
  assumes "lane_queue_closed l" "lane_phase l \<noteq> WDone"
  shows "\<exists>l'. worker_step cfg True l l'"
proof (cases "lane_phase l")
  case (WIdle carry)
  then show ?thesis using worker_step.take_carry [of l] worker_step.idle_closed [of l True] by (cases carry) blast+
next
  case (WGot req)
  then show ?thesis using worker_step.got_closed [of l req True] by blast
next
  case (WDrain batch events)
  let ?room = "int (length batch) < MaxBatchRequests cfg \<and> events < MaxBatchEvents cfg"
  show ?thesis
  proof (cases "?room \<and> lane_queue l \<noteq> []")
    case True
    then obtain req q where "lane_queue l = req # q" by (cases "lane_queue l") auto
    then show ?thesis
      using True WDrain worker_step.drain_carry [of l batch events cfg req q]
        worker_step.drain_add [of l batch events cfg req q] by blast
  next
    case False
    show ?thesis
    proof (cases ?room)
      case True
      with False have "lane_queue l = []" by blast
      then have "if MaxDelay cfg > 0 then True else lane_queue l = []" by simp
      with True show ?thesis using worker_step.drain_stop [OF WDrain, of cfg True] by blast
    qed (use worker_step.drain_full [OF WDrain, of cfg True] in blast)
  qed
next
  case (WBatch batch carry)
  then show ?thesis using worker_step.batch_closed [of l batch carry True] by blast
next
  case (WAfter carry)
  then show ?thesis using worker_step.after_closed [of l carry True] by blast
next
  case WFailFast
  then show ?thesis
    using assms(1) worker_step.failfast_take [of l] worker_step.failfast_end [of l] by (cases "lane_queue l") blast+
qed (use assms(2) in simp)

lemma shutdown_run:
  assumes "(worker_step cfg True)\<^sup>*\<^sup>* l l'" "lane_inv cfg True l" "valid_config cfg"
  shows "lane_inv cfg True l' \<and> lane_admitted l' = lane_admitted l \<and> lane_queue_closed l' = lane_queue_closed l"
  using assms
proof (induction rule: rtranclp_induct)
  case (step l1 l2)
  then show ?case using worker_step_inv worker_step_keeps by metis
qed simp

lemma wfp_final:
  assumes "wfp (\<lambda>y x. r x y)"
  shows "\<exists>y. r\<^sup>*\<^sup>* x y \<and> (\<nexists>z. r y z)"
  using assms
proof (induction x rule: wfp_induct_rule)
  case (less x)
  then show ?case by (metis converse_rtranclp_into_rtranclp rtranclp.rtrancl_refl)
qed

lemma shutdown_wf: "wfp (\<lambda>l' l. worker_step cfg True l l')"
  using wfp_if_convertible_to_nat [of "\<lambda>l' l. worker_step cfg True l l'" lane_rank] shutdown_step_decreases by blast

lemma live_results_length [simp]: "length (live_results n res) = n"
  by (auto simp: live_results_def split: flush_result.splits)

lemma runFlush_fst: "map fst (runFlush ctxErr res batch) = batch"
  by (simp add: runFlush_def completions_fst)

lemma flush_lane_inv:
  assumes "lane_inv cfg shut l" "lane_phase l = WBatch batch carry"
  shows "lane_inv cfg shut (flush_lane ctxErr res batch carry l)"
  using assms by (auto simp: lane_inv_def flush_lane_def runFlush_fst)

lemma enqueue_lane_inv:
  assumes "lane_inv cfg shut l" "int (length (lane_queue l)) < MaxPending cfg" "\<not> lane_queue_closed l"
  shows "lane_inv cfg shut (enqueue_lane l req)"
  using assms by (auto simp: lane_inv_def enqueue_lane_def)

section \<open>Invariant of the coordinator\<close>

definition sent_to :: "string \<Rightarrow> (string \<times> 'p request) list \<Rightarrow> 'p request list" where
  "sent_to boundary senders = map snd (filter (\<lambda>x. fst x = boundary) senders)"

text \<open>No two requests of a boundary, admitted or being sent, are the same request.\<close>

definition ids_lane :: "(string \<times> 'p request) list \<Rightarrow> nat \<Rightarrow> string \<Rightarrow> ('p, 'r) lane \<Rightarrow> bool" where
  "ids_lane senders n b l \<longleftrightarrow>
     distinct (map Req_id (lane_admitted l @ sent_to b senders)) \<and> (\<forall>r\<in>set (lane_admitted l). Req_id r < n)"

definition ids_inv :: "('p, 'r) Coordinator \<Rightarrow> bool" where
  "ids_inv c \<longleftrightarrow>
     (\<forall>b l. co_lanes c b = Some l \<longrightarrow> ids_lane (co_senders c) (co_next c) b l) \<and>
     (\<forall>b r. (b, r) \<in> set (co_senders c) \<longrightarrow> co_lanes c b \<noteq> None \<and> Req_id r < co_next c)"

definition gc_inv :: "('p, 'r) Coordinator \<Rightarrow> bool" where
  "gc_inv c \<longleftrightarrow>
     valid_config (co_config c) \<and>
     (\<forall>b l. co_lanes c b = Some l \<longrightarrow>
        lane_inv (co_config c) (co_closed c) l \<and> (lane_queue_closed l \<longrightarrow> co_senders c = [])) \<and>
     ids_inv c"

text \<open>The coordinator starts in the invariant and every interleaving keeps it.\<close>

definition gc_reachable ::
    "(string \<Rightarrow> 'p list \<Rightarrow> 's \<Rightarrow> 's \<Rightarrow> 'r flush_result \<Rightarrow> bool) \<Rightarrow> ('p \<Rightarrow> bool) \<Rightarrow>
     's \<Rightarrow> ('p, 'r) Coordinator \<times> 's \<Rightarrow> bool" where
  "gc_reachable exec ok s0 x \<longleftrightarrow> (\<exists>cfg c0. New cfg = Some c0 \<and> (gc_step exec ok)\<^sup>*\<^sup>* (c0, s0) x)"

lemma New_inv: "New cfg = Some c \<Longrightarrow> gc_inv c"
  by (auto simp: New_def gc_inv_def ids_inv_def split: if_splits)

lemma sent_to_simps [simp]:
  "sent_to b [] = []"
  "sent_to b (xs @ ys) = sent_to b xs @ sent_to b ys"
  "sent_to b ((b', r) # xs) = (if b' = b then r # sent_to b xs else sent_to b xs)"
  by (simp_all add: sent_to_def)

lemma sent_to_member: "r \<in> set (sent_to b xs) \<longleftrightarrow> (b, r) \<in> set xs"
  by (auto simp: sent_to_def image_iff)

lemma ids_lane_withdraw:
  "ids_lane (xs @ (b', r) # ys) n b l \<Longrightarrow> ids_lane (xs @ ys) n b l"
  by (auto simp: ids_lane_def split: if_splits)

lemma ids_lane_enqueue:
  "ids_lane (xs @ (b, r) # ys) n b l \<Longrightarrow> Req_id r < n \<Longrightarrow> ids_lane (xs @ ys) n b (enqueue_lane l r)"
  by (auto simp: ids_lane_def enqueue_lane_def)

lemma gc_inv_sender:
  "gc_inv c \<Longrightarrow> (b, r) \<in> set (co_senders c) \<Longrightarrow> co_lanes c b \<noteq> None \<and> Req_id r < co_next c"
  unfolding gc_inv_def ids_inv_def by blast

lemma new_lane_inv: "valid_config cfg \<Longrightarrow> lane_inv cfg shut new_lane"
  by (simp add: new_lane_def lane_inv_def valid_config_def)

lemma register_inv:
  assumes "gc_inv c" "\<not> co_closed c"
  shows "gc_inv (Submit_register c boundary prepared events)"
proof -
  let ?c = "Submit_register c boundary prepared events"
  let ?r = "\<lparr>Req_id = co_next c, Req_prepared = prepared, Req_events = events\<rparr>"
  have lanes: "co_lanes ?c b = Some l \<longleftrightarrow>
      co_lanes c b = Some l \<or> b = boundary \<and> co_lanes c b = None \<and> l = new_lane" for b l
    by (auto simp: Submit_register_def split: option.splits if_splits)
  have old: "lane_queue_closed l \<longrightarrow> False" if "co_lanes c b = Some l" for b l
    using assms that by (auto simp: gc_inv_def lane_inv_def)
  have fresh: "co_next c \<notin> Req_id ` set (sent_to b (co_senders c))" for b
    using gc_inv_sender [OF assms(1)] by (metis imageE less_irrefl sent_to_member)
  have fresh': "co_next c \<notin> Req_id ` set (lane_admitted l)" if "co_lanes c b = Some l" for b l
    using assms(1) that unfolding gc_inv_def ids_inv_def ids_lane_def by (metis (no_types, lifting) imageE less_irrefl)
  have none: "sent_to b (co_senders c) = []" if "co_lanes c b = None" for b
  proof (rule ccontr)
    assume "sent_to b (co_senders c) \<noteq> []"
    then obtain r where "r \<in> set (sent_to b (co_senders c))" by (meson list.set_sel(1))
    then show False using gc_inv_sender [OF assms(1), of b r] that by (simp add: sent_to_member)
  qed
  have "ids_inv ?c"
    unfolding ids_inv_def lanes
  proof (intro conjI allI impI)
    fix b l assume "co_lanes c b = Some l \<or> b = boundary \<and> co_lanes c b = None \<and> l = new_lane"
    then have "ids_lane (co_senders c) (co_next c) b l \<and> co_next c \<notin> Req_id ` set (lane_admitted l)"
    proof (elim disjE)
      assume "co_lanes c b = Some l"
      then show ?thesis using assms(1) fresh' unfolding gc_inv_def ids_inv_def by blast
    qed (auto simp: none new_lane_def ids_lane_def)
    then show "ids_lane (co_senders ?c) (co_next ?c) b l"
      using fresh [of b] by (auto simp: Submit_register_def ids_lane_def less_Suc_eq)
  next
    fix b r assume "(b, r) \<in> set (co_senders ?c)"
    then show "co_lanes ?c b \<noteq> None" "Req_id r < co_next ?c"
      using gc_inv_sender [OF assms(1), of b r]
      by (auto simp: Submit_register_def split: option.splits if_splits)
  qed
  moreover have "lane_inv (co_config ?c) (co_closed ?c) l \<and> (lane_queue_closed l \<longrightarrow> co_senders ?c = [])"
    if "co_lanes ?c b = Some l" for b l
    using that assms(1) old new_lane_inv [of "co_config c" "co_closed c"] unfolding lanes
    by (auto simp: gc_inv_def Submit_register_def new_lane_def)
  ultimately show ?thesis using assms(1) by (auto simp: gc_inv_def Submit_register_def)
qed

lemma lane_update_inv:
  assumes "gc_inv c" "co_lanes c b = Some l" "lane_inv (co_config c) (co_closed c) l'"
    "lane_admitted l' = lane_admitted l" "lane_queue_closed l' = lane_queue_closed l"
  shows "gc_inv (c\<lparr>co_lanes := (co_lanes c)(b \<mapsto> l')\<rparr>)"
  using assms by (auto simp: gc_inv_def ids_inv_def ids_lane_def split: if_splits)

lemma withdraw_inv:
  assumes "gc_inv c" "co_senders c = xs @ (b, req) # ys"
  shows "gc_inv (c\<lparr>co_senders := xs @ ys\<rparr>)"
proof -
  have "ids_lane (xs @ (b, req) # ys) (co_next c) b' l'" if "co_lanes c b' = Some l'" for b' l'
    using assms that by (simp add: gc_inv_def ids_inv_def)
  from ids_lane_withdraw [OF this] show ?thesis
    using assms by (auto simp: gc_inv_def ids_inv_def)
qed

lemma enqueue_inv:
  assumes "gc_inv c" "co_senders c = xs @ (b, req) # ys" "co_lanes c b = Some l"
    "int (length (lane_queue l)) < MaxPending (co_config c)"
  shows "gc_inv (c\<lparr>co_senders := xs @ ys, co_lanes := (co_lanes c)(b \<mapsto> enqueue_lane l req)\<rparr>)"
proof -
  have op: "\<not> lane_queue_closed l'" if "co_lanes c b' = Some l'" for b' l'
    using assms(1,2) that by (auto simp: gc_inv_def)
  have ids: "ids_lane (xs @ (b, req) # ys) (co_next c) b' l'" if "co_lanes c b' = Some l'" for b' l'
    using assms(1,2) that by (simp add: gc_inv_def ids_inv_def)
  have lt: "Req_id req < co_next c" using gc_inv_sender [OF assms(1), of b req] assms(2) by simp
  have "lane_inv (co_config c) (co_closed c) (enqueue_lane l req)"
    using assms(1,3,4) op by (intro enqueue_lane_inv) (auto simp: gc_inv_def)
  then show ?thesis
    using assms op ids_lane_enqueue [OF ids lt] ids_lane_withdraw [OF ids]
    by (auto simp: gc_inv_def ids_inv_def enqueue_lane_def)
qed

lemma close_signal_inv: "gc_inv c \<Longrightarrow> gc_inv (c\<lparr>co_closed := True\<rparr>)"
  by (auto simp: gc_inv_def ids_inv_def lane_inv_def)

lemma close_queues_inv:
  assumes "gc_inv c" "co_closed c" "co_senders c = []"
  shows "gc_inv (c\<lparr>co_lanes := (\<lambda>b. map_option (\<lambda>l. l\<lparr>lane_queue_closed := True\<rparr>) (co_lanes c b))\<rparr>)"
  using assms by (auto simp: gc_inv_def ids_inv_def ids_lane_def lane_inv_def)

lemma gc_step_inv:
  assumes "gc_step exec ok (c, s) (c', s')" "gc_inv c"
  shows "gc_inv c'"
  using assms
proof cases
  case (worker b l l')
  have "lane_inv (co_config c) (co_closed c) l'"
    using worker_step_inv [OF worker(4)] assms(2) worker(3) by (simp add: gc_inv_def)
  from lane_update_inv [OF assms(2) worker(3) this] show ?thesis
    using worker_step_keeps [OF worker(4)] worker(1) by simp
next
  case (flush b l batch carry ctxErr res)
  have "lane_inv (co_config c) (co_closed c) (flush_lane ctxErr res batch carry l)"
    using flush_lane_inv [OF _ flush(3)] assms(2) flush(2) by (simp add: gc_inv_def)
  from lane_update_inv [OF assms(2) flush(2) this] show ?thesis
    using flush(1) by (simp add: flush_lane_def)
next
  case (flush_cancelled b l batch carry ctxErr)
  have "lane_inv (co_config c) (co_closed c) (flush_lane ctxErr (Outcomes []) batch carry l)"
    using flush_lane_inv [OF _ flush_cancelled(4)] assms(2) flush_cancelled(3) by (simp add: gc_inv_def)
  from lane_update_inv [OF assms(2) flush_cancelled(3) this] show ?thesis
    using flush_cancelled(1) by (simp add: flush_lane_def)
qed (auto simp: Submit_check_def close_signal_inv
      intro!: register_inv enqueue_inv withdraw_inv close_queues_inv split: if_splits)

lemma gc_reachable_inv:
  assumes "gc_reachable exec ok s0 (c, s)"
  shows "gc_inv c"
proof -
  from assms obtain cfg c0 where "New cfg = Some c0" "(gc_step exec ok)\<^sup>*\<^sup>* (c0, s0) (c, s)"
    by (auto simp: gc_reachable_def)
  from this(2) have "gc_inv (fst (c, s))"
    using New_inv [OF \<open>New cfg = Some c0\<close>]
    by (induction rule: rtranclp_induct) (auto intro: gc_step_inv)
  then show ?thesis by simp
qed

section \<open>The contract of a backend\<close>

lemma completions_success:
  assumes "(req, Inr r) \<in> set (completions ctxErr batch rs)"
  shows "\<exists>i < length rs. i < length (live_requests ctxErr batch) \<and>
    live_requests ctxErr batch ! i = req \<and> rs ! i = Inr r"
  using assms
proof (induction batch arbitrary: rs)
  case (Cons q batch)
  show ?case
  proof (cases "ctxErr q")
    case None
    then obtain r0 rs' where rs: "rs = r0 # rs'" using Cons.prems by (cases rs) auto
    show ?thesis
    proof (cases "req = q \<and> r0 = Inr r")
      case True
      then show ?thesis using None rs by (intro exI [of _ 0]) (simp add: live_requests_def)
    next
      case False
      then have "(req, Inr r) \<in> set (completions ctxErr batch rs')" using Cons.prems None rs by auto
      from Cons.IH [OF this] obtain i where "i < length rs'" "i < length (live_requests ctxErr batch)"
        "live_requests ctxErr batch ! i = req" "rs' ! i = Inr r" by blast
      then show ?thesis using None rs by (intro exI [of _ "Suc i"]) (simp add: live_requests_def)
    qed
  next
    case (Some e)
    then show ?thesis using Cons by (simp add: live_requests_def)
  qed
qed simp

lemma runFlush_success:
  assumes "(req, Inr r) \<in> set (runFlush ctxErr res batch)"
  obtains rs i where "res = Outcomes rs" "length rs = length (live_requests ctxErr batch)" "i < length rs"
    "live_requests ctxErr batch ! i = req" "rs ! i = r"
proof -
  let ?n = "length (live_requests ctxErr batch)"
  from completions_success [OF assms [unfolded runFlush_def]] obtain i where
    i: "i < ?n" "live_requests ctxErr batch ! i = req" "live_results ?n res ! i = Inr r" by auto
  then have "\<exists>rs. res = Outcomes rs \<and> length rs = ?n \<and> rs ! i = r"
    by (auto simp: live_results_def split: flush_result.splits if_splits)
  with i that show ?thesis by auto
qed

definition result_position :: "('r \<Rightarrow> int option) \<Rightarrow> 'p request \<times> 'r result \<Rightarrow> int option" where
  "result_position pos x = (case snd x of Inr r \<Rightarrow> pos r | Inl _ \<Rightarrow> None)"

text \<open>The positions of the accepted requests of a lane, in the order of their admission.\<close>

definition done_positions :: "('r \<Rightarrow> int option) \<Rightarrow> ('p request \<times> 'r result) list \<Rightarrow> int list" where
  "done_positions pos xs = List.map_filter (result_position pos) xs"

lemma result_position_simps [simp]:
  "result_position pos (q, Inl e) = None" "result_position pos (q, Inr r) = pos r"
  by (simp_all add: result_position_def)

lemma done_positions_simps [simp]:
  "done_positions pos [] = []"
  "done_positions pos (x # xs) =
     (case result_position pos x of None \<Rightarrow> done_positions pos xs | Some p \<Rightarrow> p # done_positions pos xs)"
  "done_positions pos (xs @ ys) = done_positions pos xs @ done_positions pos ys"
  by (simp_all add: done_positions_def List.map_filter_def split: option.splits)

lemma done_positions_fail [simp]: "done_positions pos (fail xs err) = []"
  by (simp add: done_positions_def List.map_filter_def fail_def result_position_def filter_empty_conv)

lemma done_positions_replicate:
  "length rs = length (live_requests ctxErr batch) \<Longrightarrow> \<forall>r\<in>set rs. isl r \<Longrightarrow>
   done_positions pos (completions ctxErr batch rs) = []"
proof (induction batch arbitrary: rs)
  case (Cons req batch)
  then show ?case
    by (cases rs; cases "ctxErr req")
      (auto simp: live_requests_def isl_def)
qed simp

lemma done_positions_completions:
  "length rs = length (live_requests ctxErr batch) \<Longrightarrow>
   done_positions pos (completions ctxErr batch (map Inr rs)) = List.map_filter pos rs"
proof (induction batch arbitrary: rs)
  case (Cons req batch)
  show ?case
  proof (cases "ctxErr req")
    case None
    then show ?thesis using Cons
      by (cases rs) (auto simp: live_requests_def List.map_filter_simps split: option.splits)
  qed (use Cons in \<open>simp add: live_requests_def\<close>)
qed (simp add: live_requests_def List.map_filter_simps)

lemma done_positions_runFlush:
  "done_positions pos (runFlush ctxErr res batch) =
     (case res of Outcomes rs \<Rightarrow>
        if length rs = length (live_requests ctxErr batch) then List.map_filter pos rs else []
      | _ \<Rightarrow> [])"
  by (auto simp: runFlush_def live_results_def done_positions_completions done_positions_replicate
      split: flush_result.splits)

text \<open>
  What a backend promises for a batch: its invariant is kept, an outcome says what it says for good,
  there is one outcome per request, and accepted requests get positions after everything that was
  accepted for the boundary before, in the order of the batch.
\<close>

locale batch_executor =
  fixes exec :: "string \<Rightarrow> 'p list \<Rightarrow> 's \<Rightarrow> 's \<Rightarrow> 'r flush_result \<Rightarrow> bool"
    and inv :: "'s \<Rightarrow> bool" and ok :: "'p \<Rightarrow> bool"
    and holds :: "'s \<Rightarrow> string \<Rightarrow> 'p \<Rightarrow> 'r \<Rightarrow> bool"
    and pos :: "'r \<Rightarrow> int option" and mark :: "'s \<Rightarrow> string \<Rightarrow> int"
  assumes exec_inv: "inv s \<Longrightarrow> list_all ok ps \<Longrightarrow> exec b ps s s' res \<Longrightarrow> inv s'"
    and exec_stable: "inv s \<Longrightarrow> list_all ok ps \<Longrightarrow> exec b' ps s s' res \<Longrightarrow> holds s b p r \<Longrightarrow> holds s' b p r"
    and exec_holds: "inv s \<Longrightarrow> list_all ok ps \<Longrightarrow> exec b ps s s' (Outcomes rs) \<Longrightarrow>
          length rs = length ps \<Longrightarrow> i < length ps \<Longrightarrow> holds s' b (ps ! i) (rs ! i)"
    and exec_mark: "inv s \<Longrightarrow> list_all ok ps \<Longrightarrow> exec b' ps s s' res \<Longrightarrow> mark s b \<le> mark s' b"
    and exec_positions: "inv s \<Longrightarrow> list_all ok ps \<Longrightarrow> exec b ps s s' (Outcomes rs) \<Longrightarrow>
          sorted_wrt (<) (List.map_filter pos rs) \<and>
          (\<forall>p\<in>set (List.map_filter pos rs). mark s b < p \<and> p \<le> mark s' b)"
begin

definition requests_ok :: "('p, 'r) Coordinator \<Rightarrow> bool" where
  "requests_ok c \<longleftrightarrow>
     (\<forall>b l. co_lanes c b = Some l \<longrightarrow> (\<forall>r\<in>set (lane_admitted l). ok (Req_prepared r))) \<and>
     (\<forall>b r. (b, r) \<in> set (co_senders c) \<longrightarrow> ok (Req_prepared r))"

definition lane_good :: "'s \<Rightarrow> string \<Rightarrow> ('p, 'r) lane \<Rightarrow> bool" where
  "lane_good s b l \<longleftrightarrow>
     (\<forall>req r. (req, Inr r) \<in> set (lane_done l) \<longrightarrow> holds s b (Req_prepared req) r) \<and>
     sorted_wrt (<) (done_positions pos (lane_done l)) \<and>
     (\<forall>p\<in>set (done_positions pos (lane_done l)). p \<le> mark s b)"

definition system_good :: "('p, 'r) Coordinator \<Rightarrow> 's \<Rightarrow> bool" where
  "system_good c s \<longleftrightarrow>
     inv s \<and> gc_inv c \<and> requests_ok c \<and> (\<forall>b l. co_lanes c b = Some l \<longrightarrow> lane_good s b l)"

lemma worker_good:
  assumes "worker_step cfg shut l l'" "lane_good s b l"
  shows "lane_good s b l'"
  using assms by cases (auto simp: lane_good_def split: option.splits)

lemma batch_ok_requests:
  assumes "system_good c s" "co_lanes c b = Some l" "lane_phase l = WBatch batch carry"
  shows "list_all ok (map Req_prepared (live_requests ctxErr batch))"
proof -
  have "set batch \<subseteq> set (lane_admitted l)"
  proof -
    have "lane_inv (co_config c) (co_closed c) l" using assms(1,2) by (simp add: system_good_def gc_inv_def)
    then have "map fst (lane_done l) @ (batch @ opt_list carry) @ lane_queue l = lane_admitted l"
      using assms(3) by (simp add: lane_inv_def)
    then show ?thesis by (metis (no_types, lifting) UnI1 UnI2 set_append subsetI)
  qed
  then show ?thesis
    using assms(1,2) by (auto simp: system_good_def requests_ok_def list_all_iff live_requests_def)
qed

lemma lane_good_exec:
  assumes "inv s" "list_all ok ps" "exec b' ps s s' res" "lane_good s b l"
  shows "lane_good s' b l"
  using assms exec_stable [OF assms(1-3)] exec_mark [OF assms(1-3), of b]
  by (fastforce simp: lane_good_def)

lemma lane_good_flush:
  assumes "inv s" "list_all ok (map Req_prepared (live_requests ctxErr batch))"
    "exec b (map Req_prepared (live_requests ctxErr batch)) s s' res" "lane_good s b l"
  shows "lane_good s' b (flush_lane ctxErr res batch carry l)"
proof -
  have new: "holds s' b (Req_prepared req) r" if "(req, Inr r) \<in> set (runFlush ctxErr res batch)" for req r
  proof -
    from runFlush_success [OF that] obtain rs i where
      "res = Outcomes rs" "length rs = length (live_requests ctxErr batch)" "i < length rs"
      "live_requests ctxErr batch ! i = req" "rs ! i = r" .
    then show ?thesis using exec_holds [OF assms(1,2), of b s' rs i] assms(3) by auto
  qed
  have old: "lane_good s' b l" by (rule lane_good_exec [OF assms])
  have "sorted_wrt (<) (done_positions pos (runFlush ctxErr res batch)) \<and>
      (\<forall>p\<in>set (done_positions pos (runFlush ctxErr res batch)). mark s b < p \<and> p \<le> mark s' b)"
    using exec_positions [OF assms(1,2), of b s'] assms(3)
    by (auto simp: done_positions_runFlush split: flush_result.splits)
  moreover have "\<forall>p\<in>set (done_positions pos (lane_done l)). p \<le> mark s b"
    using assms(4) by (simp add: lane_good_def)
  ultimately show ?thesis
    using old new by (fastforce simp: lane_good_def flush_lane_def sorted_wrt_append)
qed

lemma system_good_lane:
  assumes "system_good c s" "co_lanes c b = Some l" "lane_good s b l'"
    "lane_admitted l' = lane_admitted l" "gc_inv (c\<lparr>co_lanes := (co_lanes c)(b \<mapsto> l')\<rparr>)"
  shows "system_good (c\<lparr>co_lanes := (co_lanes c)(b \<mapsto> l')\<rparr>) s"
  using assms by (auto simp: system_good_def requests_ok_def split: if_splits)

lemma system_step:
  assumes "gc_step exec ok (c, s) (c', s')" "system_good c s"
  shows "system_good c' s'"
proof -
  have inv': "gc_inv c'" using gc_step_inv [OF assms(1)] assms(2) by (simp add: system_good_def)
  from assms(1) show ?thesis
  proof cases
    case (submit_register events prepared b)
    then show ?thesis using assms(2) inv'
      by (auto simp: system_good_def requests_ok_def Submit_register_def new_lane_def lane_good_def
          split: option.splits if_splits)
  next
    case (submit_enqueue xs b req ys l)
    then show ?thesis using assms(2) inv'
      by (auto simp: system_good_def requests_ok_def enqueue_lane_def lane_good_def split: if_splits)
  next
    case (submit_withdraw xs b req ys)
    then show ?thesis using assms(2) inv' by (auto simp: system_good_def requests_ok_def)
  next
    case (worker b l l')
    have "lane_good s b l'"
      using worker_good [OF worker(4)] assms(2) worker(3) by (simp add: system_good_def)
    from system_good_lane [OF assms(2) worker(3) this] show ?thesis
      using worker_step_keeps [OF worker(4)] worker(1,2) inv' by simp
  next
    case (flush b l batch carry ctxErr res)
    note ok = batch_ok_requests [OF assms(2) flush(2,3), of ctxErr]
    have inv: "inv s" using assms(2) by (simp add: system_good_def)
    have "system_good c s'"
      using assms(2) exec_inv [OF inv ok flush(6)] lane_good_exec [OF inv ok flush(6)]
      by (auto simp: system_good_def)
    moreover have "lane_good s' b (flush_lane ctxErr res batch carry l)"
      using lane_good_flush [OF inv ok flush(6)] assms(2) flush(2) by (simp add: system_good_def)
    ultimately show ?thesis
      using system_good_lane [OF _ flush(2)] inv' flush(1) by (simp add: flush_lane_def)
  next
    case (flush_cancelled b l batch carry ctxErr)
    have "done_positions pos (runFlush ctxErr (Outcomes []) batch) = []"
      by (simp add: done_positions_runFlush List.map_filter_def)
    moreover have "(req, Inr r) \<notin> set (runFlush ctxErr (Outcomes []) batch)" for req and r :: 'r
      by (auto elim!: runFlush_success)
    ultimately have "lane_good s b (flush_lane ctxErr (Outcomes []) batch carry l)"
      using assms(2) flush_cancelled(3) by (auto simp: system_good_def lane_good_def flush_lane_def)
    from system_good_lane [OF assms(2) flush_cancelled(3) this] show ?thesis
      using flush_cancelled(1,2) inv' by (simp add: flush_lane_def)
  next
    case close_signal
    then show ?thesis using assms(2) inv' by (auto simp: system_good_def requests_ok_def)
  next
    case close_queues
    then show ?thesis using assms(2) inv'
      by (auto simp: system_good_def requests_ok_def lane_good_def)
  qed
qed

lemma system_reachable:
  assumes "gc_reachable exec ok s0 (c, s)" "inv s0"
  shows "system_good c s"
proof -
  from assms(1) obtain cfg c0 where new: "New cfg = Some c0" and run: "(gc_step exec ok)\<^sup>*\<^sup>* (c0, s0) (c, s)"
    by (auto simp: gc_reachable_def)
  have "system_good c0 s0"
    using New_inv [OF new] new assms(2)
    by (auto simp: system_good_def requests_ok_def New_def split: if_splits)
  from run this have "system_good (fst (c, s)) (snd (c, s))"
  proof (induction rule: rtranclp_induct)
    case (step y z)
    then show ?case using system_step [of "fst y" "snd y" "fst z" "snd z"] by simp
  qed simp
  then show ?thesis by simp
qed

end

end
