(* ===== verification/Sqlite_Save.thy ===== *)
theory Sqlite_Save
  imports Sqlite_Commit Group_Commit
begin

text \<open>
  The SQLite saver: the group-commit configuration and submission (\<^verbatim>\<open>sqlite/group_commit.go\<close>), the
  executor of a batch (\<^verbatim>\<open>sqlite/group_commit_executor.go\<close>) and \<open>SavePrepared\<close>
  (\<^verbatim>\<open>sqlite/sqlite_eventstore.go\<close>), composed with the coordinator. The event databases of the
  boundary registry are the map \<open>saver_pools\<close>.
\<close>

section \<open>Configuration\<close>

definition normalizeGroupCommitConfig :: "Config \<Rightarrow> Config result" where
  "normalizeGroupCommitConfig cfg0 =
     (let cfg1 = (if MaxBatchRequests cfg0 = 0 then cfg0\<lparr>MaxBatchRequests := 128\<rparr> else cfg0);
          cfg2 = (if MaxBatchEvents cfg1 = 0 then cfg1\<lparr>MaxBatchEvents := 1024\<rparr> else cfg1);
          cfg3 = (if MaxPending cfg2 = 0 then cfg2\<lparr>MaxPending := 4096\<rparr> else cfg2);
          cfg = (if FlushTimeout cfg3 = 0 then cfg3\<lparr>FlushTimeout := 30 * 1000000000\<rparr> else cfg3)
      in if MaxBatchRequests cfg < 0 then Inl (PlainError ''sqlite group commit maxBatchRequests must be >= 0, got %d'')
         else if MaxBatchEvents cfg < 0 then Inl (PlainError ''sqlite group commit maxBatchEvents must be >= 0, got %d'')
         else if MaxDelay cfg < 0 then Inl (PlainError ''sqlite group commit maxDelay must be >= 0, got %s'')
         else if MaxPending cfg < 0 then Inl (PlainError ''sqlite group commit maxPending must be >= 0, got %d'')
         else if FlushTimeout cfg < 0 then Inl (PlainError ''sqlite group commit flushTimeout must be >= 0, got %s'')
         else Inr cfg)"

section \<open>The executor of a batch\<close>

text \<open>
  \<open>saver_notified\<close> is None without a notifier, and otherwise the boundaries \<open>Notify\<close> was called
  with. The counters are the saver's atomic flush counters.
\<close>

record sqlite_saver =
  saver_pools :: "string \<rightharpoonup> sqlite_db"
  saver_notified :: "string list option"
  gcSingleFlushes :: int64
  gcMultiFlushes :: int64

definition accepted_count :: "sqliteSaveResult list \<Rightarrow> nat" where
  "accepted_count outcomes = length (filter (\<lambda>outcome. Result_err outcome = None) outcomes)"

definition notify :: "string \<Rightarrow> sqlite_saver \<Rightarrow> sqlite_saver" where
  "notify boundary st = st\<lparr>saver_notified := map_option (\<lambda>bs. bs @ [boundary]) (saver_notified st)\<rparr>"

definition executeBatch ::
    "sqlite_env \<Rightarrow> goerror option \<Rightarrow> tx_faults \<Rightarrow> string \<Rightarrow> preparedSQLiteSave list \<Rightarrow> sqlite_saver \<Rightarrow>
     sqlite_saver \<times> sqliteSaveResult list result" where
  "executeBatch env takeErr fx boundary live st =
     (case saver_pools st boundary of
        None \<Rightarrow> (st, Inl (Coded InvalidArgument ''unknown boundary: %s''))
      | Some db \<Rightarrow>
          if length live = 0 then (st, Inr [])
          else
            let st1 = (if length live = 1 then st\<lparr>gcSingleFlushes := wrap64 (gcSingleFlushes st + 1)\<rparr>
                       else st\<lparr>gcMultiFlushes := wrap64 (gcMultiFlushes st + 1)\<rparr>)
            in (case takeErr of
                  Some err \<Rightarrow> (st1, Inl (WrapError ''take write conn: '' err))
                | None \<Rightarrow>
                    (case executeTransaction env fx live db of
                       (db', Inl err) \<Rightarrow> (st1\<lparr>saver_pools := (saver_pools st)(boundary \<mapsto> db')\<rparr>, Inl err)
                     | (db', Inr outcomes) \<Rightarrow>
                         let st2 = st1\<lparr>saver_pools := (saver_pools st)(boundary \<mapsto> db')\<rparr>
                         in (if accepted_count outcomes > 0 then notify boundary st2 else st2, Inr outcomes))))"

section \<open>Submitting a save\<close>

definition errSaverClosed :: goerror where
  "errSaverClosed = Coded Unavailable ''sqlite event saver is shut down''"

text \<open>
  \<open>submit\<close> is what the coordinator's \<open>Submit\<close> returns for the prepared request and its number of
  events, \<open>ctxErr\<close> what \<open>ctx.Err()\<close> returns afterwards.
\<close>

definition enqueue_result ::
    "goerror option \<Rightarrow> sqliteSaveResult result \<Rightarrow> (string \<times> int64) result" where
  "enqueue_result ctxErr submitted =
     (case submitted of
        Inl err \<Rightarrow>
          if error_is err ErrClosed then Inl errSaverClosed
          else (case ctxErr of
                  Some e \<Rightarrow> Inl (FromContextError e)
                | None \<Rightarrow> Inl (Coded Internal (error_text err)))
      | Inr res \<Rightarrow>
          (case Result_err res of
             Some e \<Rightarrow> Inl e | None \<Rightarrow> Inr (Result_transactionID res, Result_globalID res)))"

definition enqueue ::
    "sqlite_env \<Rightarrow> (preparedSQLiteSave \<Rightarrow> int \<Rightarrow> sqliteSaveResult result) \<Rightarrow> goerror option \<Rightarrow>
     PreparedEvent list \<Rightarrow> ConsistencyCheck list \<Rightarrow> (string \<times> int64) result" where
  "enqueue env submit ctxErr inserts consistency =
     bindR (prepareSQLiteSave env None inserts consistency) (\<lambda>prepared.
       enqueue_result ctxErr (submit prepared (int (length (Save_inserts prepared)))))"

definition SavePrepared ::
    "sqlite_env \<Rightarrow> sqlite_saver \<Rightarrow> (preparedSQLiteSave \<Rightarrow> int \<Rightarrow> sqliteSaveResult result) \<Rightarrow> goerror option \<Rightarrow>
     PreparedEvent list \<Rightarrow> string \<Rightarrow> ConsistencyCheck list \<Rightarrow> (string \<times> int64) result" where
  "SavePrepared env st submit ctxErr events boundary consistency =
     (if length events = 0 then Inl (Coded InvalidArgument ''events cannot be empty'')
      else case saver_pools st boundary of
        None \<Rightarrow> Inl (Coded InvalidArgument ''unknown boundary: %s'')
      | Some _ \<Rightarrow> enqueue env submit ctxErr events consistency)"

section \<open>The backend as an executor\<close>

text \<open>
  Any fault of SQLite and of the pool may occur, and the contexts of the requests may be cancelled
  when their turn comes.
\<close>

definition with_ctx :: "preparedSQLiteSave list \<Rightarrow> (nat \<Rightarrow> goerror option) \<Rightarrow> preparedSQLiteSave list" where
  "with_ctx live ctxs = map (\<lambda>i. (live ! i)\<lparr>Save_ctx_err := ctxs i\<rparr>) [0..<length live]"

definition flush_of :: "sqliteSaveResult list result \<Rightarrow> sqliteSaveResult flush_result" where
  "flush_of res = (case res of Inl err \<Rightarrow> FlushError err | Inr outs \<Rightarrow> Outcomes outs)"

definition sqlite_exec ::
    "sqlite_env \<Rightarrow> string \<Rightarrow> preparedSQLiteSave list \<Rightarrow> sqlite_saver \<Rightarrow> sqlite_saver \<Rightarrow>
     sqliteSaveResult flush_result \<Rightarrow> bool" where
  "sqlite_exec env boundary live st st' res \<longleftrightarrow>
     (\<exists>takeErr fx ctxs out.
        executeBatch env takeErr fx boundary (with_ctx live ctxs) st = (st', out) \<and> res = flush_of out)"

definition saver_inv :: "sqlite_saver \<Rightarrow> bool" where
  "saver_inv st \<longleftrightarrow> (\<forall>b db. saver_pools st b = Some db \<longrightarrow> store_inv db)"

definition save_holds :: "sqlite_env \<Rightarrow> sqlite_saver \<Rightarrow> string \<Rightarrow> preparedSQLiteSave \<Rightarrow> sqliteSaveResult \<Rightarrow> bool" where
  "save_holds env st b req res \<longleftrightarrow>
     Result_err res \<noteq> None \<or>
     (\<exists>db now. saver_pools st b = Some db \<and> committed_save env now db req (Result_globalID res) \<and>
        Result_transactionID res = FormatInt (Result_globalID res))"

definition save_position :: "sqliteSaveResult \<Rightarrow> int option" where
  "save_position res = (if Result_err res = None then Some (Result_globalID res) else None)"

definition save_mark :: "sqlite_saver \<Rightarrow> string \<Rightarrow> int" where
  "save_mark st b = (case saver_pools st b of None \<Rightarrow> 0 | Some db \<Rightarrow> log_end db)"

section \<open>Lemmas\<close>

lemma normalizeGroupCommitConfig_valid:
  "normalizeGroupCommitConfig cfg = Inr cfg' \<Longrightarrow> valid_config cfg'"
  by (auto simp: normalizeGroupCommitConfig_def valid_config_def Let_def split: if_splits)

lemma with_ctx_simps [simp]:
  "length (with_ctx live ctxs) = length live"
  "i < length live \<Longrightarrow> with_ctx live ctxs ! i = (live ! i)\<lparr>Save_ctx_err := ctxs i\<rparr>"
  "list_all wf_request (with_ctx live ctxs) \<longleftrightarrow> list_all wf_request live"
  by (auto simp: with_ctx_def list_all_length wf_request_def)

lemma committed_save_ctx [simp]:
  "committed_save env now db (req\<lparr>Save_ctx_err := e\<rparr>) gid \<longleftrightarrow> committed_save env now db req gid"
  by (simp add: committed_save_def block_of_def)

lemma flush_of_Outcomes [simp]: "Outcomes outs = flush_of res \<longleftrightarrow> res = Inr outs"
  by (auto simp: flush_of_def split: sum.splits)

text \<open>A committed save stays committed when the log grows.\<close>

lemma committed_save_extends:
  assumes "committed_save env now db req gid" "db_extends db db'"
  shows "committed_save env now db' req gid"
proof -
  from assms(2) obtain es ws where ext: "db_events db' = db_events db @ es" "db_writes db' = db_writes db @ ws"
    by (auto simp: db_extends_def)
  let ?n = "length (Save_inserts req)"
  have gid: "0 < ?n" "int ?n \<le> gid" "gid \<le> log_end db"
    using assms(1) by (simp_all add: committed_save_def Let_def)
  have "block_of db' req gid = block_of db req gid"
    using gid ext by (simp add: block_of_def log_end_def)
  moreover have "db_events (log_prefix db' (gid - int ?n)) = db_events (log_prefix db (gid - int ?n))"
    using gid ext by (simp add: log_prefix_def log_end_def)
  ultimately show ?thesis
    using assms(1) ext gid check_current_events [of "log_prefix db' (gid - int ?n)" "log_prefix db (gid - int ?n)" env]
    by (simp add: committed_save_def Let_def log_end_def)
qed

text \<open>A batch changes at most the database of its boundary, by one transaction.\<close>

lemma executeBatch_cases:
  assumes "executeBatch env takeErr fx boundary live st = (st', out)"
  obtains "saver_pools st' = saver_pools st" "\<And>outs. out = Inr outs \<Longrightarrow> outs = [] \<and> live = []"
  | db db' where "saver_pools st boundary = Some db" "executeTransaction env fx live db = (db', out)"
      "saver_pools st' = (saver_pools st)(boundary \<mapsto> db')"
  using assms
  by (auto simp: executeBatch_def Let_def notify_def split: option.splits if_splits prod.splits sum.splits)

lemma executeTransaction_extends:
  assumes "executeTransaction env fx live db = (db', out)" "store_inv db" "list_all wf_request live"
  shows "db_extends db db'"
proof (cases out)
  case (Inl e)
  then have "db' = db" using executeTransaction_error assms(1) by metis
  then show ?thesis by simp
next
  case (Inr outs)
  from executeTransaction_serial [OF assms(1) [unfolded Inr] assms(2,3)] obtain db1 where
    "serial env (tx_clock fx) 0 live db outs db1" "db' = db1\<lparr>db_next_id := log_end db1 + 1\<rparr>" by blast
  then show ?thesis using serial_extends [of env "tx_clock fx" 0 live db outs db1] by (simp add: db_extends_def)
qed

lemma sqlite_exec_inv:
  assumes "saver_inv st" "list_all wf_request live" "sqlite_exec env b live st st' res"
  shows "saver_inv st'"
proof -
  from assms(3) obtain takeErr fx ctxs out where
    run: "executeBatch env takeErr fx b (with_ctx live ctxs) st = (st', out)" by (auto simp: sqlite_exec_def)
  then show ?thesis
  proof (cases rule: executeBatch_cases)
    case (2 db db')
    then have "store_inv db'"
      using executeTransaction_inv [OF 2(2)] assms(1,2) by (simp add: saver_inv_def)
    then show ?thesis using 2(3) assms(1) by (simp add: saver_inv_def)
  qed (use assms(1) in \<open>simp add: saver_inv_def\<close>)
qed

lemma sqlite_exec_extends:
  assumes "saver_inv st" "list_all wf_request live" "sqlite_exec env b' live st st' res"
    "saver_pools st b = Some db"
  shows "\<exists>db'. saver_pools st' b = Some db' \<and> db_extends db db'"
proof -
  from assms(3) obtain takeErr fx ctxs out where
    run: "executeBatch env takeErr fx b' (with_ctx live ctxs) st = (st', out)" by (auto simp: sqlite_exec_def)
  then show ?thesis
  proof (cases rule: executeBatch_cases)
    case (2 db0 db0')
    then have "db_extends db0 db0'"
      using executeTransaction_extends [OF 2(2)] assms(1,2) by (simp add: saver_inv_def)
    then show ?thesis using 2(1,3) assms(4) by auto
  qed (use assms(4) in simp)
qed

lemma sqlite_exec_outcomes:
  assumes "saver_inv st" "list_all wf_request live" "sqlite_exec env b live st st' (Outcomes outs)" "live \<noteq> []"
  obtains db db1 clock ctxs where "saver_pools st b = Some db"
    "serial env clock 0 (with_ctx live ctxs) db outs db1" "save_mark st b = log_end db"
    "save_mark st' b = log_end db1" "\<exists>db'. saver_pools st' b = Some db' \<and> db_extends db1 db'"
proof -
  from assms(3) obtain takeErr fx ctxs where
    run: "executeBatch env takeErr fx b (with_ctx live ctxs) st = (st', Inr outs)"
    by (auto simp: sqlite_exec_def)
  then show ?thesis
  proof (cases rule: executeBatch_cases)
    case 1
    then have "with_ctx live ctxs = []" by simp
    then show ?thesis using assms(4) by (metis length_0_conv with_ctx_simps(1))
  next
    case (2 db db')
    have "store_inv db" using assms(1) 2(1) by (simp add: saver_inv_def)
    from executeTransaction_serial [OF 2(2) this] assms(2) obtain db1 where
      "serial env (tx_clock fx) 0 (with_ctx live ctxs) db outs db1" "db' = db1\<lparr>db_next_id := log_end db1 + 1\<rparr>"
      by auto
    with 2 show ?thesis by (intro that) (auto simp: save_mark_def log_end_def db_extends_def)
  qed
qed

lemma sqlite_exec_empty:
  assumes "sqlite_exec env b [] st st' (Outcomes outs)"
  shows "outs = []"
proof -
  from assms obtain takeErr fx ctxs where "executeBatch env takeErr fx b (with_ctx [] ctxs) st = (st', Inr outs)"
    by (auto simp: sqlite_exec_def)
  moreover have "with_ctx [] ctxs = []" by (simp add: with_ctx_def)
  ultimately show ?thesis by (auto simp: executeBatch_def split: option.splits)
qed

lemma save_position_order:
  assumes "serial env clock r reqs db outs db1"
  shows "sorted_wrt (<) (List.map_filter save_position outs)"
    "\<forall>p\<in>set (List.map_filter save_position outs). log_end db < p \<and> p \<le> log_end db1"
proof -
  have len: "length outs = length reqs" by (rule serial_length [OF assms])
  have "sorted_wrt (\<lambda>a b. Result_err a = None \<longrightarrow> Result_err b = None \<longrightarrow>
      Result_globalID a < Result_globalID b) outs"
    unfolding sorted_wrt_iff_nth_less
  proof (intro allI impI)
    fix i j assume "i < j" "j < length outs" "Result_err (outs ! i) = None" "Result_err (outs ! j) = None"
    moreover from this have "0 < length (Save_inserts (reqs ! j))"
      using serial_committed [OF assms, of j] len by (simp add: committed_save_def Let_def)
    ultimately show "Result_globalID (outs ! i) < Result_globalID (outs ! j)"
      using serial_order [OF assms, of i j] len by linarith
  qed
  from sorted_wrt_filter [OF this, of "\<lambda>o'. Result_err o' = None"]
  have "sorted_wrt (<) (map Result_globalID (filter (\<lambda>o'. Result_err o' = None) outs))"
    unfolding sorted_wrt_map by (rule sorted_wrt_mono_rel [rotated]) auto
  moreover have eq: "List.map_filter save_position outs =
      map Result_globalID (filter (\<lambda>o'. Result_err o' = None) outs)"
    by (induction outs) (auto simp: List.map_filter_def save_position_def)
  ultimately show "sorted_wrt (<) (List.map_filter save_position outs)" by simp
  show "\<forall>p\<in>set (List.map_filter save_position outs). log_end db < p \<and> p \<le> log_end db1"
    unfolding eq using serial_committed [OF assms] len
    by (auto simp: in_set_conv_nth committed_save_def Let_def)
qed

interpretation sqlite_executor:
  batch_executor "sqlite_exec env" saver_inv wf_request "save_holds env" save_position save_mark for env
proof unfold_locales
  fix s ps b b' p r s' res rs i
  assume inv: "saver_inv s" and ok: "list_all wf_request ps"
  show "saver_inv s'" if "sqlite_exec env b ps s s' res"
    by (rule sqlite_exec_inv [OF inv ok that])
  show "save_holds env s' b p r" if run: "sqlite_exec env b' ps s s' res" and "save_holds env s b p r"
    using that(2) sqlite_exec_extends [OF inv ok run, of b] committed_save_extends
    by (fastforce simp: save_holds_def)
  show "save_mark s b \<le> save_mark s' b" if "sqlite_exec env b' ps s s' res"
  proof (cases "saver_pools s b")
    case None
    then show ?thesis by (simp add: save_mark_def log_end_def split: option.splits)
  next
    case (Some db)
    then show ?thesis using sqlite_exec_extends [OF inv ok that Some]
      by (auto simp: save_mark_def log_end_def db_extends_def)
  qed
  assume run: "sqlite_exec env b ps s s' (Outcomes rs)"
  show "save_holds env s' b (ps ! i) (rs ! i)" if i: "i < length ps"
  proof -
    have "ps \<noteq> []" using i by auto
    from sqlite_exec_outcomes [OF inv ok run this] obtain db db1 clock ctxs where
      ser: "serial env clock 0 (with_ctx ps ctxs) db rs db1"
      and pool: "\<exists>db'. saver_pools s' b = Some db' \<and> db_extends db1 db'" by metis
    show ?thesis
    proof (cases "Result_err (rs ! i) = None")
      case True
      then have "committed_save env (clock i) db1 (ps ! i) (Result_globalID (rs ! i))"
        "Result_transactionID (rs ! i) = FormatInt (Result_globalID (rs ! i))"
        using serial_committed [OF ser, of i] i by simp_all
      then show ?thesis using pool committed_save_extends unfolding save_holds_def by blast
    qed (simp add: save_holds_def)
  qed
  show "sorted_wrt (<) (List.map_filter save_position rs) \<and>
      (\<forall>p\<in>set (List.map_filter save_position rs). save_mark s b < p \<and> p \<le> save_mark s' b)"
  proof (cases "ps = []")
    case True
    then have "rs = []" using sqlite_exec_empty run by metis
    then show ?thesis by (simp add: List.map_filter_def)
  next
    case False
    from sqlite_exec_outcomes [OF inv ok run this] save_position_order show ?thesis by metis
  qed
qed

end
