(* ===== verification/Store_Types.thy ===== *)
theory Store_Types
  imports Event_Data Write_Context
begin

text \<open>
  The transport-neutral messages of the store: read requests and events (\<^verbatim>\<open>orisun/read_batch.go\<close>,
  \<^verbatim>\<open>orisun/latest_batch.go\<close>, \<^verbatim>\<open>orisun/eventstore_messages.go\<close>). A time is a number of nanoseconds.
\<close>

type_synonym gotime = int

definition DefaultReadBatchSize :: nat where
  "DefaultReadBatchSize = 1000"

definition MaxReadBatchSize :: nat where
  "MaxReadBatchSize = 10000"

record ReadEvent =
  Read_WriteId :: string
  Read_EventId :: string
  Read_EventType :: string
  Read_Data :: json_text
  Read_Metadata :: json_text
  Read_CommitPosition :: int64
  Read_PreparePosition :: int64
  Read_DateCreated :: gotime

abbreviation read_position :: "ReadEvent \<Rightarrow> Position" where
  "read_position e \<equiv> Position (Read_CommitPosition e) (Read_PreparePosition e)"

record Event =
  Event_WriteId :: string
  Event_EventId :: string
  Event_EventType :: string
  Event_Data :: json_text
  Event_Metadata :: json_text
  Event_Position :: "Position option"
  Event_DateCreated :: gotime

definition fillEvent :: "ReadEvent \<Rightarrow> Event" where
  "fillEvent read =
     \<lparr>Event_WriteId = Read_WriteId read, Event_EventId = Read_EventId read, Event_EventType = Read_EventType read,
      Event_Data = Read_Data read, Event_Metadata = Read_Metadata read,
      Event_Position = Some (Position (Read_CommitPosition read) (Read_PreparePosition read)),
      Event_DateCreated = Read_DateCreated read\<rparr>"

datatype Direction = Direction_ASC | Direction_DESC

text \<open>\<open>Count\<close> is a \<open>uint32\<close>.\<close>

record GetEventsRequest =
  Get_Query :: "Query option"
  Get_FromPosition :: "Position option"
  Get_Count :: nat
  Get_Direction :: Direction
  Get_Boundary :: string

record GetEventsResponse =
  GetEvents_Events :: "Event list"

definition Batch_Response :: "ReadEvent list \<Rightarrow> GetEventsResponse" where
  "Batch_Response b = \<lparr>GetEvents_Events = map fillEvent b\<rparr>"

record LatestByCriteriaQuery =
  Latest_Boundary :: string
  Latest_Criteria :: "ReadCriterion list"

record LatestCriterionMatch =
  Match_Event :: "ReadEvent option"

text \<open>\<open>Match_Event\<close> is None when \<open>Found\<close> is false.\<close>

record LatestByCriteriaBatch =
  Batch_Matches :: "LatestCriterionMatch list"
  Batch_ContextCommitPosition :: int64
  Batch_ContextPreparePosition :: int64

record WriteResult =
  Result_WriteId :: string
  Result_LogPosition :: Position

record SaveEventsV2Request =
  SaveV2_Boundary :: string
  SaveV2_Events :: "EventToSave option list"
  SaveV2_Consistency :: "ConsistencyObservation option list"

end
