(* ===== verification/Sqlite_Read.thy ===== *)
theory Sqlite_Read
  imports Sqlite_Commit Store_Types
begin

text \<open>
  The read path of the SQLite store: \<open>GetBatch\<close>, \<open>GetLatestByCriteria\<close> and \<open>GetWriteContext\<close>
  (\<^verbatim>\<open>sqlite/sqlite_eventstore.go\<close>, \<^verbatim>\<open>sqlite/write_context.go\<close>).

  A SELECT is executed on the documents of the database: the WHERE text of the criteria is the
  parameter \<open>env_where\<close>, the row-value comparison, the ORDER BY and the LIMIT are written out.
  \<open>read_env\<close> holds the library functions of the read path (\<open>time.Parse\<close> by layout, and the decoding
  of stored observations) and the errors a read may meet.
\<close>

record read_env =
  parse_time :: "string \<Rightarrow> string \<Rightarrow> gotime result"
  unmarshal_stored :: "string \<Rightarrow> storedConsistencyObservation list result"
  read_take :: "goerror option"
  read_begin :: "goerror option"
  read_query :: "nat \<Rightarrow> goerror option"

section \<open>Rows\<close>

definition rfc3339nano :: string where
  "rfc3339nano = ''2006-01-02T15:04:05.999999999Z07:00''"

definition parseSQLiteEventTime :: "read_env \<Rightarrow> string \<Rightarrow> gotime result" where
  "parseSQLiteEventTime renv created =
     (case parse_time renv rfc3339nano created of
        Inl parseErr \<Rightarrow>
          (case parse_time renv ''2006-01-02T15:04:05.000Z'' created of
             Inr t2 \<Rightarrow> Inr t2
           | Inl _ \<Rightarrow> Inl (WrapError ''unparseable date_created %q: '' parseErr))
      | Inr t \<Rightarrow> Inr t)"

definition metadata_column :: "document \<Rightarrow> json_text" where
  "metadata_column d = (case map_of d ''__metadata'' of Some j \<Rightarrow> Json j | None \<Rightarrow> empty_text)"

definition scanReadEventRow :: "read_env \<Rightarrow> document \<Rightarrow> ReadEvent result" where
  "scanReadEventRow renv d =
     bindR (parseSQLiteEventTime renv (column_text d ''__dateCreated'')) (\<lambda>created.
       Inr \<lparr>Read_WriteId = column_text d ''__writeId'', Read_EventId = column_text d ''__eventId'',
            Read_EventType = column_text d ''__eventType'', Read_Data = WithoutStorageEnvelope (Json (JObj d)),
            Read_Metadata = metadata_column d, Read_CommitPosition = transaction_id d,
            Read_PreparePosition = global_id d, Read_DateCreated = created\<rparr>)"

section \<open>GetBatch\<close>

definition select_events ::
    "sqlite_env \<Rightarrow> sqlite_db \<Rightarrow> string option \<Rightarrow> Position option \<Rightarrow> Direction \<Rightarrow> nat \<Rightarrow> document list" where
  "select_events env db criteriaSQL from dir limit =
     (let rows = filter (\<lambda>d. (case criteriaSQL of None \<Rightarrow> True | Some cond \<Rightarrow> env_where env cond d) \<and>
                             (case from of None \<Rightarrow> True
                              | Some p \<Rightarrow> if dir = Direction_DESC then position_of d \<le> p else p \<le> position_of d))
                   (db_events db);
          ordered = sort_key position_of rows
      in take limit (if dir = Direction_DESC then rev ordered else ordered))"

definition page_size :: "nat \<Rightarrow> nat" where
  "page_size count0 =
     (let count = (if count0 = 0 then DefaultReadBatchSize else count0)
      in if count > MaxReadBatchSize then MaxReadBatchSize else count)"

definition query_criteria_sql :: "sqlite_env \<Rightarrow> Query option \<Rightarrow> string option result" where
  "query_criteria_sql env query =
     (case EncodeQueryCriteria query of
        None \<Rightarrow> Inl (PlainError ''runtime error: invalid memory address or nil pointer dereference'')
      | Some [] \<Rightarrow> Inr None
      | Some critList \<Rightarrow>
          (case buildCriteriaSQL (env_json env) critList of
             Inl buildErr \<Rightarrow> Inl (Coded InvalidArgument (''invalid criteria: '' @ error_text buildErr))
           | Inr cond \<Rightarrow> Inr (Some cond)))"

definition GetBatch ::
    "sqlite_env \<Rightarrow> read_env \<Rightarrow> (string \<rightharpoonup> sqlite_db) \<Rightarrow> GetEventsRequest option \<Rightarrow> ReadEvent list result" where
  "GetBatch env renv pools req0 =
     (case req0 of
        None \<Rightarrow> Inl (Coded InvalidArgument ''get events request is required'')
      | Some req \<Rightarrow>
          bindR (ValidateQuery (Get_Query req)) (\<lambda>_.
            case pools (Get_Boundary req) of
              None \<Rightarrow> Inl (Coded InvalidArgument ''unknown boundary: %s'')
            | Some db \<Rightarrow>
                (case read_take renv of
                   Some err \<Rightarrow> Inl (Coded Internal (''take read conn: '' @ error_text err))
                 | None \<Rightarrow>
                     bindR (query_criteria_sql env (Get_Query req)) (\<lambda>cond.
                       case read_query renv 0 of
                         Some err \<Rightarrow> Inl (Coded Internal (''query events: '' @ error_text err))
                       | None \<Rightarrow>
                           map_errorR (\<lambda>err. Coded Internal (''query events: '' @ error_text err))
                             (mapR (scanReadEventRow renv)
                               (select_events env db cond (Get_FromPosition req) (Get_Direction req)
                                 (page_size (Get_Count req))))))))"

section \<open>GetLatestByCriteria\<close>

definition latest_update :: "ReadEvent \<Rightarrow> LatestByCriteriaBatch \<times> bool \<Rightarrow> LatestByCriteriaBatch \<times> bool" where
  "latest_update event x =
     (let (batch, found) = x
      in if \<not> found \<or> (Read_CommitPosition event > Batch_ContextCommitPosition batch \<or>
            (Read_CommitPosition event = Batch_ContextCommitPosition batch \<and>
             Read_PreparePosition event > Batch_ContextPreparePosition batch))
         then (batch\<lparr>Batch_ContextCommitPosition := Read_CommitPosition event,
                     Batch_ContextPreparePosition := Read_PreparePosition event\<rparr>, True)
         else (batch, found))"

fun latest_criteria_loop ::
    "sqlite_env \<Rightarrow> read_env \<Rightarrow> sqlite_db \<Rightarrow> ReadCriterion list \<Rightarrow> nat \<Rightarrow> LatestByCriteriaBatch \<times> bool \<Rightarrow>
     LatestByCriteriaBatch result" where
  "latest_criteria_loop env renv db [] i x = Inr (fst x)"
| "latest_criteria_loop env renv db (criterion # criteria) i x =
     (let anded = EncodeCriterion (ReadCriterion_Tags criterion)
      in if anded = [] then Inl (Coded InvalidArgument ''criterion has no tags'')
         else
           (case buildCriteriaSQL (env_json env) [anded] of
              Inl buildErr \<Rightarrow> Inl (Coded InvalidArgument (''invalid criteria: '' @ error_text buildErr))
            | Inr cond \<Rightarrow>
                (case read_query renv i of
                   Some err \<Rightarrow> Inl (Coded Internal (''query latest by criteria: '' @ error_text err))
                 | None \<Rightarrow>
                     (case run_latest env db (Some cond) of
                        [] \<Rightarrow>
                          latest_criteria_loop env renv db criteria (i + 1)
                            (apfst (\<lambda>b. b\<lparr>Batch_Matches := Batch_Matches b @ [\<lparr>Match_Event = None\<rparr>]\<rparr>) x)
                      | d # _ \<Rightarrow>
                          (case scanReadEventRow renv d of
                             Inl err \<Rightarrow> Inl (Coded Internal (''query latest by criteria: '' @ error_text err))
                           | Inr event \<Rightarrow>
                               latest_criteria_loop env renv db criteria (i + 1)
                                 (latest_update event
                                   (apfst (\<lambda>b. b\<lparr>Batch_Matches := Batch_Matches b @ [\<lparr>Match_Event = Some event\<rparr>]\<rparr>) x)))))))"

definition SqliteGetLatestByCriteria ::
    "sqlite_env \<Rightarrow> read_env \<Rightarrow> (string \<rightharpoonup> sqlite_db) \<Rightarrow> LatestByCriteriaQuery \<Rightarrow> LatestByCriteriaBatch result" where
  "SqliteGetLatestByCriteria env renv pools query =
     bindR (ValidateReadCriteria (Latest_Criteria query)) (\<lambda>_.
       case pools (Latest_Boundary query) of
         None \<Rightarrow> Inl (Coded InvalidArgument ''unknown boundary: %s'')
       | Some db \<Rightarrow>
           if Latest_Criteria query = [] then Inl (Coded InvalidArgument ''at least one criterion is required'')
           else
             (case read_take renv of
                Some err \<Rightarrow> Inl (Coded Internal (''take read conn: '' @ error_text err))
              | None \<Rightarrow>
                  (case read_begin renv of
                     Some err \<Rightarrow> Inl (Coded Internal (''begin read tx: '' @ error_text err))
                   | None \<Rightarrow>
                       latest_criteria_loop env renv db (Latest_Criteria query) 0
                         (\<lparr>Batch_Matches = [], Batch_ContextCommitPosition = -1,
                           Batch_ContextPreparePosition = -1\<rparr>, False))))"

section \<open>GetWriteContext\<close>

text \<open>The rows of the join: the write with the given id, if its event has the given transaction.\<close>

definition select_write :: "sqlite_db \<Rightarrow> Position \<Rightarrow> string list" where
  "select_write db p =
     concat (map (\<lambda>(w, consistency).
        map (\<lambda>_. consistency)
          (filter (\<lambda>e. global_id e = w \<and> w = PreparePosition p \<and> transaction_id e = CommitPosition p) (db_events db)))
      (db_writes db))"

fun write_rows ::
    "read_env \<Rightarrow> sqlite_env \<Rightarrow> string \<Rightarrow> string list \<Rightarrow> WriteContext option \<Rightarrow> WriteContext option result" where
  "write_rows renv env writeId [] res = Inr res"
| "write_rows renv env writeId (row # rows) res =
     bindR (DecodeWriteContext (unmarshal_stored renv) (ext_redecode (env_json env)) writeId row)
       (\<lambda>ctx. write_rows renv env writeId rows (Some ctx))"

definition GetWriteContext ::
    "sqlite_env \<Rightarrow> read_env \<Rightarrow> (string \<rightharpoonup> sqlite_db) \<Rightarrow> GetWriteContextRequest option \<Rightarrow> WriteContext result" where
  "GetWriteContext env renv pools req =
     bindR (ValidateWriteContextRequest req) (\<lambda>i.
       case pools (GetWriteContext_Boundary (the req)) of
         None \<Rightarrow> Inl (Coded InvalidArgument ''unknown boundary: %s'')
       | Some db \<Rightarrow>
           (case read_take renv of
              Some err \<Rightarrow> Inl err
            | None \<Rightarrow>
                (case read_query renv 0 of
                   Some err \<Rightarrow> Inl (Coded Internal (''read write context: '' @ error_text err))
                 | None \<Rightarrow>
                     (case write_rows renv env (GetWriteContext_WriteId (the req)) (select_write db i) None of
                        Inl err \<Rightarrow> Inl (Coded Internal (''read write context: '' @ error_text err))
                      | Inr None \<Rightarrow> Inl (Coded NotFound ''write context not found'')
                      | Inr (Some ctx) \<Rightarrow> Inr ctx))))"

section \<open>Pages\<close>

text \<open>The events a query selects: those that match one of its criteria with tags, or all.\<close>

definition query_selects :: "(json \<Rightarrow> string) \<Rightarrow> Query option \<Rightarrow> document \<Rightarrow> bool" where
  "query_selects sprint query d =
     (case query of
        None \<Rightarrow> True
      | Some q \<Rightarrow>
          (let cs = filter (\<lambda>c. ReadCriterion_Tags c \<noteq> []) (the (query_read_criteria q))
           in cs = [] \<or> list_ex (\<lambda>c. criterion_matches sprint d (ReadCriterion_Tags c)) cs))"

text \<open>What is relied on of SQLite: the WHERE text of the query selects these documents.\<close>

definition where_agrees :: "sqlite_env \<Rightarrow> Query option \<Rightarrow> document set \<Rightarrow> bool" where
  "where_agrees env query docs \<longleftrightarrow>
     (\<forall>cond. query_criteria_sql env query = Inr (Some cond) \<longrightarrow>
        (\<forall>d\<in>docs. env_where env cond d \<longleftrightarrow> query_selects (ext_sprint (env_json env)) query d))"

definition from_selects :: "Position option \<Rightarrow> Direction \<Rightarrow> Position \<Rightarrow> bool" where
  "from_selects from dir p =
     (case from of None \<Rightarrow> True | Some q \<Rightarrow> if dir = Direction_DESC then p \<le> q else q \<le> p)"

definition page_rows :: "(json \<Rightarrow> string) \<Rightarrow> GetEventsRequest \<Rightarrow> document list \<Rightarrow> document list" where
  "page_rows sprint req docs =
     (let rows = filter (\<lambda>d. query_selects sprint (Get_Query req) d \<and>
                             from_selects (Get_FromPosition req) (Get_Direction req) (position_of d)) docs
      in take (page_size (Get_Count req)) (if Get_Direction req = Direction_DESC then rev rows else rows))"

lemma query_criteria_sql_total:
  assumes "ValidateQuery query = Inr ()"
  shows "\<exists>cond. query_criteria_sql env query = Inr cond"
proof (cases query)
  case (Some q)
  from ValidateQuery_no_panic [OF assms] Some obtain cs where cs: "query_read_criteria q = Some cs"
    by (auto simp: EncodeQueryCriteria_def)
  have "\<forall>tags\<in>set (map ReadCriterion_Tags cs). list_all ValidTag tags"
    using query_read_criteria_valid [OF assms [unfolded Some] cs] by simp
  from buildCriteriaSQL_all_total [OF this, of "env_json env"] obtain t where
    "buildCriteriaSQL (env_json env) (EncodeReadCriteria cs) = Inr t"
    by (auto simp: EncodeReadCriteria_def comp_def)
  then show ?thesis
    unfolding query_criteria_sql_def EncodeQueryCriteria_def Some option.case cs option.map
    by (cases "EncodeReadCriteria cs") auto
qed (simp add: query_criteria_sql_def EncodeQueryCriteria_def)

lemma select_events_page:
  assumes "store_layout ns db" "query_criteria_sql env (Get_Query req) = Inr cond"
    "where_agrees env (Get_Query req) (set (db_events db))"
  shows "select_events env db cond (Get_FromPosition req) (Get_Direction req) (page_size (Get_Count req)) =
     page_rows (ext_sprint (env_json env)) req (db_events db)"
proof -
  have sel: "(case cond of None \<Rightarrow> True | Some w \<Rightarrow> env_where env w d) =
      query_selects (ext_sprint (env_json env)) (Get_Query req) d" if "d \<in> set (db_events db)" for d
  proof (cases cond)
    case None
    then show ?thesis using assms(2)
      by (auto simp: query_criteria_sql_def EncodeQueryCriteria_def EncodeReadCriteria_def query_selects_def
          Let_def split: option.splits list.splits sum.splits)
  next
    case (Some w)
    then show ?thesis using assms(2,3) that by (simp add: where_agrees_def)
  qed
  let ?P = "\<lambda>d. (case cond of None \<Rightarrow> True | Some w \<Rightarrow> env_where env w d) \<and>
      (case Get_FromPosition req of None \<Rightarrow> True
       | Some p \<Rightarrow> if Get_Direction req = Direction_DESC then position_of d \<le> p else p \<le> position_of d)"
  have "sort_key position_of (filter ?P (db_events db)) = filter ?P (db_events db)"
    by (intro sort_key_sorted_rows sorted_filter_rows store_layout_sorted [OF assms(1)])
  moreover have "filter ?P (db_events db) =
      filter (\<lambda>d. query_selects (ext_sprint (env_json env)) (Get_Query req) d \<and>
          from_selects (Get_FromPosition req) (Get_Direction req) (position_of d)) (db_events db)"
    using sel by (intro filter_cong) (auto simp: from_selects_def split: option.splits)
  ultimately show ?thesis by (simp add: select_events_def page_rows_def)
qed

lemma scan_position: "scanReadEventRow renv d = Inr e \<Longrightarrow> read_position e = position_of d"
  by (auto simp: scanReadEventRow_def position_of_def)

text \<open>A read returns exactly the page of the query, in order.\<close>

lemma GetBatch_page:
  assumes "pools (Get_Boundary req) = Some db" "store_inv db" "read_take renv = None" "read_query renv 0 = None"
    "ValidateQuery (Get_Query req) = Inr ()" "where_agrees env (Get_Query req) (set (db_events db))"
    "\<forall>d\<in>set (db_events db). \<exists>t. parseSQLiteEventTime renv (column_text d ''__dateCreated'') = Inr t"
  shows "\<exists>es. GetBatch env renv pools (Some req) = Inr es \<and>
    list_all2 (\<lambda>d e. scanReadEventRow renv d = Inr e) (page_rows (ext_sprint (env_json env)) req (db_events db)) es"
proof -
  let ?rows = "page_rows (ext_sprint (env_json env)) req (db_events db)"
  obtain cond where cond: "query_criteria_sql env (Get_Query req) = Inr cond"
    using query_criteria_sql_total [OF assms(5)] by blast
  from assms(2) obtain ns where "store_layout ns db" by (auto simp: store_inv_def)
  note rows = select_events_page [OF this cond assms(6)]
  have "set ?rows \<subseteq> set (db_events db)"
    by (auto simp: page_rows_def Let_def dest!: in_set_takeD split: if_splits)
  then have "\<exists>e. scanReadEventRow renv d = Inr e" if "d \<in> set ?rows" for d
    using assms(7) that by (fastforce simp: scanReadEventRow_def)
  then obtain es where es: "mapR (scanReadEventRow renv) ?rows = Inr es" using mapR_total by metis
  then have "GetBatch env renv pools (Some req) = Inr es"
    using assms(1,3,4,5) cond by (simp only: GetBatch_def option.case bindR_simps rows map_errorR_simps)
  then show ?thesis using es by (auto simp: mapR_Inr_iff)
qed

section \<open>A stored event is read back as it was saved\<close>

lemma scan_stored:
  assumes "stored_documents now events first ds" "i < length events" "1 \<le> first"
    "first + int (length events) \<le> max_int64"
    "Object_fields (Doc_object (events ! i)) = Some flds" "sorted_object flds"
    "\<forall>k\<in>fst ` set flds. \<not> IsReservedKey k" "parseSQLiteEventTime renv now = Inr t"
  shows "scanReadEventRow renv (ds ! i) = Inr
    \<lparr>Read_WriteId = WriteID (first + int (length events) - 1) (first + int (length events) - 1),
     Read_EventId = Doc_eventID (events ! i), Read_EventType = Doc_eventType (events ! i),
     Read_Data = Json (JObj flds), Read_Metadata = MetadataValue (Doc_metadata (events ! i)),
     Read_CommitPosition = first + int (length events) - 1, Read_PreparePosition = first + int i,
     Read_DateCreated = t\<rparr>"
proof -
  let ?tx = "first + int (length events) - 1"
  let ?ev = "events ! i"
  from assms(1,2,5) obtain meta where meta: "MetadataValue (Doc_metadata ?ev) = Json meta"
    and srt: "sorted_object (ds ! i)"
    and doc: "map_of (ds ! i) = map_of flds ++ map_of (envelope now ?tx ?ev (first + int i) meta)"
    unfolding stored_documents_def by force
  have range: "in_int64 ?tx" "in_int64 (first + int i)"
    using assms(2-4) in_int64_range [of first "length events" i]
    by (simp_all add: in_int64_def min_int64_def max_int64_def)
  have "WithoutStorageEnvelope (Json (JObj (ds ! i))) = Json (JObj flds)"
    by (rule WithoutStorageEnvelope_object [OF srt assms(6) public_fields [OF assms(7) reserved_envelope doc]])
  then show ?thesis
    using envelope_columns [OF doc range] envelope_position [OF doc range] meta assms(8)
    by (simp add: scanReadEventRow_def column_text_def metadata_column_def)
qed

section \<open>The context of a latest read\<close>

abbreviation context_position :: "LatestByCriteriaBatch \<Rightarrow> Position" where
  "context_position b \<equiv> Position (Batch_ContextCommitPosition b) (Batch_ContextPreparePosition b)"

definition match_position :: "LatestCriterionMatch \<Rightarrow> Position" where
  "match_position m = (case Match_Event m of None \<Rightarrow> NotExistsPosition | Some e \<Rightarrow> read_position e)"

lemma latest_update_ok:
  assumes "\<not> found \<Longrightarrow> context_position b = NotExistsPosition" "NotExistsPosition < read_position e"
    "latest_update e (b, found) = (b', found')"
  shows "context_position b' = max (context_position b) (read_position e)" "found'"
    "Batch_Matches b' = Batch_Matches b"
proof -
  let ?newer = "Read_CommitPosition e > Batch_ContextCommitPosition b \<or>
      (Read_CommitPosition e = Batch_ContextCommitPosition b \<and>
       Read_PreparePosition e > Batch_ContextPreparePosition b)"
  have newer: "?newer \<longleftrightarrow> context_position b < read_position e" by (auto simp: Position_less_simps)
  have first: "context_position b < read_position e" if "\<not> found" using assms(1,2) that by simp
  have upd: "latest_update e (b, found) =
      (if \<not> found \<or> ?newer
       then (b\<lparr>Batch_ContextCommitPosition := Read_CommitPosition e,
               Batch_ContextPreparePosition := Read_PreparePosition e\<rparr>, True) else (b, found))"
    by (simp add: latest_update_def)
  show "context_position b' = max (context_position b) (read_position e)" "found'"
    "Batch_Matches b' = Batch_Matches b"
    using assms(3) first unfolding upd newer by (auto simp: max_def split: if_splits)
qed

definition criterion_sql :: "sqlite_env \<Rightarrow> ReadCriterion \<Rightarrow> string result" where
  "criterion_sql env c = buildCriteriaSQL (env_json env) [EncodeCriterion (ReadCriterion_Tags c)]"

lemma latest_criteria_loop_sound:
  assumes "store_layout ns db" "latest_criteria_loop env renv db criteria i (b, found) = Inr res"
    "\<not> found \<Longrightarrow> context_position b = NotExistsPosition" "NotExistsPosition \<le> context_position b"
  shows "\<exists>conds. list_all2 (\<lambda>c cond. criterion_sql env c = Inr cond) criteria conds \<and>
    context_position res = max (context_position b) (latest_position (\<lambda>d. \<exists>w\<in>set conds. env_where env w d) db) \<and>
    map match_position (Batch_Matches res) =
      map match_position (Batch_Matches b) @ map (\<lambda>w. latest_position (env_where env w) db) conds"
  using assms(2-4)
proof (induction criteria arbitrary: i b found)
  case Nil
  then show ?case by (simp add: latest_position_none max_absorb1)
next
  case (Cons c criteria)
  from Cons.prems(1) obtain cond where cond: "criterion_sql env c = Inr cond"
    by (auto simp: criterion_sql_def Let_def split: if_splits sum.splits)
  have lp: "(case run_latest env db (Some cond) of [] \<Rightarrow> NotExistsPosition | d # _ \<Rightarrow> position_of d) =
      latest_position (env_where env cond) db"
    using run_latest_position [OF assms(1), of env "Some cond"] by (simp add: query_matches_def [abs_def])
  have "\<exists>j b' found'. latest_criteria_loop env renv db criteria j (b', found') = Inr res \<and>
      context_position b' = max (context_position b) (latest_position (env_where env cond) db) \<and>
      (\<not> found' \<longrightarrow> context_position b' = NotExistsPosition) \<and>
      map match_position (Batch_Matches b') =
        map match_position (Batch_Matches b) @ [latest_position (env_where env cond) db]"
  proof (cases "run_latest env db (Some cond)")
    case Nil
    let ?b = "b\<lparr>Batch_Matches := Batch_Matches b @ [\<lparr>Match_Event = None\<rparr>]\<rparr>"
    have "latest_criteria_loop env renv db criteria (i + 1) (?b, found) = Inr res"
      using Cons.prems(1) cond Nil
      by (auto simp: criterion_sql_def Let_def split: if_splits option.splits)
    moreover have "latest_position (env_where env cond) db = NotExistsPosition" using lp Nil by simp
    ultimately show ?thesis using Cons.prems(2,3)
      by (intro exI [of _ "i + 1"] exI [of _ ?b] exI [of _ found]) (simp add: match_position_def max_absorb1)
  next
    case (Cons d ds)
    from Cons.prems(1) cond Cons obtain e where e: "scanReadEventRow renv d = Inr e"
      by (auto simp: criterion_sql_def Let_def split: if_splits option.splits sum.splits)
    let ?b = "b\<lparr>Batch_Matches := Batch_Matches b @ [\<lparr>Match_Event = Some e\<rparr>]\<rparr>"
    obtain b' found' where up: "latest_update e (?b, found) = (b', found')" by fastforce
    have run: "latest_criteria_loop env renv db criteria (i + 1) (b', found') = Inr res"
      using Cons.prems(1) cond Cons e up
      by (auto simp: criterion_sql_def Let_def split: if_splits option.splits)
    have pos: "read_position e = latest_position (env_where env cond) db"
      using lp Cons scan_position [OF e] by simp
    have "d \<in> set (db_events db)"
      using Cons by (auto simp: run_latest_def dest!: arg_cong [where f = set] in_set_takeD)
    then have "NotExistsPosition < read_position e"
      using store_layout_positions(3) [OF assms(1)] scan_position [OF e] by simp
    from latest_update_ok [OF _ this up] Cons.prems(2)
    have "context_position b' = max (context_position ?b) (read_position e)" "found'"
      "Batch_Matches b' = Batch_Matches ?b" by auto
    then show ?thesis using run pos
      by (intro exI [of _ "i + 1"] exI [of _ b'] exI [of _ found']) (simp add: match_position_def)
  qed
  then obtain j b' found' where nxt: "latest_criteria_loop env renv db criteria j (b', found') = Inr res"
    "context_position b' = max (context_position b) (latest_position (env_where env cond) db)"
    "\<not> found' \<Longrightarrow> context_position b' = NotExistsPosition"
    "map match_position (Batch_Matches b') =
       map match_position (Batch_Matches b) @ [latest_position (env_where env cond) db]" by blast
  have "NotExistsPosition \<le> context_position b'" using nxt(2) Cons.prems(3) by (simp add: max.coboundedI1)
  from Cons.IH [OF nxt(1,3) this] obtain conds where
    "list_all2 (\<lambda>c cond. criterion_sql env c = Inr cond) criteria conds"
    "context_position res = max (context_position b') (latest_position (\<lambda>d. \<exists>w\<in>set conds. env_where env w d) db)"
    "map match_position (Batch_Matches res) =
      map match_position (Batch_Matches b') @ map (\<lambda>w. latest_position (env_where env w) db) conds" by blast
  then show ?case using cond nxt(2,4)
    by (intro exI [of _ "cond # conds"]) (simp add: latest_position_or max.assoc)
qed

lemma latest_position_cong:
  "\<forall>d\<in>set (db_events db). P d \<longleftrightarrow> Q d \<Longrightarrow> latest_position P db = latest_position Q db"
  unfolding latest_position_def by (metis (mono_tags, lifting) Collect_cong)

lemma SqliteGetLatest_run:
  assumes "SqliteGetLatestByCriteria env renv pools query = Inr res"
  obtains db where "pools (Latest_Boundary query) = Some db" "Latest_Criteria query \<noteq> []"
    "ValidateReadCriteria (Latest_Criteria query) = Inr ()"
    "latest_criteria_loop env renv db (Latest_Criteria query) 0
       (\<lparr>Batch_Matches = [], Batch_ContextCommitPosition = -1, Batch_ContextPreparePosition = -1\<rparr>, False) = Inr res"
  using assms
  by (auto simp: SqliteGetLatestByCriteria_def split: option.splits if_splits)

lemma latest_criteria_loop_tags:
  assumes "latest_criteria_loop env renv db criteria i x = Inr res" "c \<in> set criteria"
  shows "ReadCriterion_Tags c \<noteq> []"
  using assms
proof (induction criteria arbitrary: i x)
  case (Cons a criteria)
  from Cons.prems(1) have "ReadCriterion_Tags a \<noteq> [] \<and>
      (\<exists>i' x'. latest_criteria_loop env renv db criteria i' x' = Inr res)"
    by (auto simp: EncodeCriterion_empty Let_def simp del: split_paired_Ex
        split: if_splits sum.splits option.splits list.splits)
  then show ?case using Cons.IH Cons.prems(2) by auto
qed simp

text \<open>The context position is the latest position of an event matching any of the criteria.\<close>

lemma latest_context:
  assumes "SqliteGetLatestByCriteria env renv pools query = Inr res" "pools (Latest_Boundary query) = Some db"
    "store_inv db" "sql_agrees env (Latest_Criteria query) (set (db_events db))"
  shows "context_position res = latest_position (\<lambda>d. \<exists>c\<in>set (Latest_Criteria query).
      criterion_matches (ext_sprint (env_json env)) d (ReadCriterion_Tags c)) db"
    "map match_position (Batch_Matches res) = map (\<lambda>c. latest_position (\<lambda>d.
      criterion_matches (ext_sprint (env_json env)) d (ReadCriterion_Tags c)) db) (Latest_Criteria query)"
proof -
  let ?match = "\<lambda>c d. criterion_matches (ext_sprint (env_json env)) d (ReadCriterion_Tags c)"
  let ?b = "\<lparr>Batch_Matches = [], Batch_ContextCommitPosition = -1, Batch_ContextPreparePosition = -1\<rparr>"
  from assms(1,2) have loop: "latest_criteria_loop env renv db (Latest_Criteria query) 0 (?b, False) = Inr res"
    by (elim SqliteGetLatest_run) simp
  from assms(3) obtain ns where lay: "store_layout ns db" by (auto simp: store_inv_def)
  have b: "context_position ?b = NotExistsPosition" by (simp add: NotExistsPosition_def)
  from latest_criteria_loop_sound [OF lay loop] b obtain conds where
    conds: "list_all2 (\<lambda>c cond. criterion_sql env c = Inr cond) (Latest_Criteria query) conds"
    and ctx: "context_position res = max (context_position ?b) (latest_position (\<lambda>d. \<exists>w\<in>set conds. env_where env w d) db)"
    and ms: "map match_position (Batch_Matches res) = map (\<lambda>w. latest_position (env_where env w) db) conds"
    by auto
  have sel: "env_where env w d \<longleftrightarrow> ?match c d"
    if "c \<in> set (Latest_Criteria query)" "criterion_sql env c = Inr w" "d \<in> set (db_events db)" for c w d
    using assms(4) that by (simp add: sql_agrees_def criterion_sql_def)
  have "(\<exists>w\<in>set conds. env_where env w d) \<longleftrightarrow> (\<exists>c\<in>set (Latest_Criteria query). ?match c d)"
    if "d \<in> set (db_events db)" for d
    using conds sel that by (fastforce simp: list_all2_conv_all_nth in_set_conv_nth)
  from latest_position_cong [of db, OF ballI, OF this] ctx b
  show "context_position res = latest_position (\<lambda>d. \<exists>c\<in>set (Latest_Criteria query). ?match c d) db"
    using latest_position_ge by (simp add: max_absorb2)
  have "map (\<lambda>w. latest_position (env_where env w) db) conds =
      map (\<lambda>c. latest_position (?match c) db) (Latest_Criteria query)"
  proof (rule nth_equalityI)
    fix i assume "i < length (map (\<lambda>w. latest_position (env_where env w) db) conds)"
    then have i: "i < length conds" "length conds = length (Latest_Criteria query)"
      "criterion_sql env (Latest_Criteria query ! i) = Inr (conds ! i)"
      using conds by (auto simp: list_all2_conv_all_nth)
    then have "latest_position (env_where env (conds ! i)) db = latest_position (?match (Latest_Criteria query ! i)) db"
      using sel by (intro latest_position_cong) auto
    then show "map (\<lambda>w. latest_position (env_where env w) db) conds ! i =
        map (\<lambda>c. latest_position (?match c) db) (Latest_Criteria query) ! i" using i by simp
  qed (use conds in \<open>auto dest: list_all2_lengthD\<close>)
  then show "map match_position (Batch_Matches res) = map (\<lambda>c. latest_position (?match c) db) (Latest_Criteria query)"
    using ms by simp
qed

text \<open>
  What a latest read observes passes as a consistency check: on the log it was read from, a save that
  names the same criteria and the context position finds its check current.
\<close>

lemma latest_read_current:
  assumes "SqliteGetLatestByCriteria env renv pools query = Inr res" "pools (Latest_Boundary query) = Some db"
    "store_inv db" "sql_agrees env (Latest_Criteria query) (set (db_events db))"
  shows "list_all (check_current env db) (prepareConsistencyChecks (env_json env)
    [\<lparr>Check_Criteria = Latest_Criteria query, Check_Position = context_position res\<rparr>])"
proof -
  let ?crit = "Latest_Criteria query"
  from assms(1) obtain db' where run: "?crit \<noteq> []" "ValidateReadCriteria ?crit = Inr ()"
    "latest_criteria_loop env renv db' ?crit 0
       (\<lparr>Batch_Matches = [], Batch_ContextCommitPosition = -1, Batch_ContextPreparePosition = -1\<rparr>, False) = Inr res"
    by (elim SqliteGetLatest_run) blast
  have tags: "ReadCriterion_Tags c \<noteq> []" if "c \<in> set ?crit" for c
    by (rule latest_criteria_loop_tags [OF run(3) that])
  have valid: "\<forall>c\<in>set ?crit. list_all ValidTag (ReadCriterion_Tags c)"
    using run(2) by (simp add: ValidateReadCriteria_def forR_ok list_all_iff)
  have some: "\<exists>c\<in>set ?crit. ReadCriterion_Tags c \<noteq> []"
    using run(1) tags by (metis list.set_intros(1) neq_Nil_conv)
  from latestCriteriaQueries_ok [OF valid some assms(4)] obtain queries where
    q: "latestCriteriaQueries (env_json env) ?crit = Inr queries"
    "\<forall>d\<in>set (db_events db). (\<exists>q\<in>set queries. query_matches env q d) \<longleftrightarrow>
       (\<exists>c\<in>set ?crit. ReadCriterion_Tags c \<noteq> [] \<and>
          criterion_matches (ext_sprint (env_json env)) d (ReadCriterion_Tags c))" by blast
  then have "latest_position (\<lambda>d. \<exists>q\<in>set queries. query_matches env q d) db = context_position res"
    unfolding latest_context(1) [OF assms] using tags by (intro latest_position_cong) blast
  then show ?thesis
    using q(1) by (simp add: prepareConsistencyChecks_def check_current_def)
qed

section \<open>Reading a write context\<close>

lemma filter_unique: "distinct (map f xs) \<Longrightarrow> x \<in> set xs \<Longrightarrow> filter (\<lambda>y. f y = f x) xs = [x]"
proof (induction xs)
  case (Cons a xs)
  show ?case
  proof (cases "f a = f x")
    case True
    have "f a \<notin> f ` set xs" using Cons.prems(1) by simp
    then have "\<forall>y\<in>set xs. f y \<noteq> f x" using True by (metis imageI)
    then show ?thesis using Cons.prems(2) True by auto
  qed (use Cons in auto)
qed simp

lemma concat_unique:
  "distinct_keys ws \<Longrightarrow> (k, v) \<in> set ws \<Longrightarrow> (\<And>c. g (k, c) = [c]) \<Longrightarrow>
   (\<And>w c. w \<noteq> k \<Longrightarrow> g (w, c) = []) \<Longrightarrow> concat (map g ws) = [v]"
proof (induction ws)
  case (Cons a ws)
  obtain w c where a: "a = (w, c)" by (cases a)
  show ?case
  proof (cases "w = k")
    case True
    then have "\<forall>x\<in>set ws. g x = []" using Cons.prems a by (force simp: rev_image_eqI)
    then have "concat (map g ws) = []" by simp
    moreover have "c = v" using Cons.prems(1,2) a True by (auto simp: rev_image_eqI)
    ultimately show ?thesis using Cons.prems(3) a True by simp
  qed (use Cons a in auto)
qed simp

lemma write_ids_lower: "w \<in> set (write_ids f ns) \<Longrightarrow> list_all (\<lambda>n. 0 < n) ns \<Longrightarrow> f \<le> w"
  by (induction ns arbitrary: f) fastforce+

lemma write_ids_distinct: "list_all (\<lambda>n. 0 < n) ns \<Longrightarrow> distinct (write_ids f ns)"
proof (induction ns arbitrary: f)
  case (Cons n ns)
  then show ?case using write_ids_lower [of "f + int n - 1" "f + int n" ns] by auto
qed simp

lemma committed_event:
  assumes "committed_save env now db req gid" "store_inv db"
  shows "\<exists>d\<in>set (db_events db). position_of d = Position gid gid"
proof -
  let ?n = "length (Save_inserts req)"
  have c: "0 < ?n" "int ?n \<le> gid" "gid \<le> log_end db"
    "stored_documents now (Save_inserts req) (gid - int ?n + 1) (block_of db req gid)"
    using assms(1) by (simp_all add: committed_save_def Let_def)
  from assms(2) obtain ns where "store_layout ns db" by (auto simp: store_inv_def)
  from log_end_bounds [OF this] have "gid + 1 \<le> max_int64" using c(3) by simp
  then have pos: "map position_of (block_of db req gid) = block (gid - int ?n + 1) ?n"
    using stored_documents_block [OF c(4)] c(2) by simp
  have len: "length (block_of db req gid) = ?n" using c(4) by (simp add: stored_documents_def)
  have "position_of (block_of db req gid ! (?n - 1)) = block (gid - int ?n + 1) ?n ! (?n - 1)"
    using pos len c(1) by (metis diff_less length_map less_one nth_map)
  also have "\<dots> = Position gid gid"
    using c(1) by (cases "Save_inserts req") (simp_all add: block_def nth_append)
  finally have "position_of (block_of db req gid ! (?n - 1)) = Position gid gid" .
  moreover have "block_of db req gid ! (?n - 1) \<in> set (block_of db req gid)" using len c(1) by simp
  moreover have "set (block_of db req gid) \<subseteq> set (db_events db)"
    by (auto simp: block_of_def dest!: in_set_takeD in_set_dropD)
  ultimately show ?thesis by blast
qed

lemma select_write_committed:
  assumes "committed_save env now db req gid" "store_inv db"
  shows "select_write db (Position gid gid) = [Save_consistencyJSON req]"
proof -
  from assms(2) obtain ns where lay: "store_layout ns db" by (auto simp: store_inv_def)
  from committed_event [OF assms] obtain d where d: "d \<in> set (db_events db)" "position_of d = Position gid gid" ..
  have "distinct (map position_of (db_events db))"
    using store_layout_sorted [OF lay] by (simp add: strict_sorted_iff)
  from filter_unique [OF this d(1)] d(2) have one: "filter (\<lambda>e. position_of e = Position gid gid) (db_events db) = [d]"
    by simp
  have "distinct_keys (db_writes db)"
    using lay write_ids_distinct by (auto simp: store_layout_def)
  moreover have "(gid, Save_consistencyJSON req) \<in> set (db_writes db)"
    using assms(1) by (simp add: committed_save_def Let_def)
  moreover have "filter (\<lambda>e. global_id e = gid \<and> transaction_id e = gid) (db_events db) = [d]"
    using one by (simp add: position_of_def conj_commute)
  ultimately show ?thesis
    unfolding select_write_def by (intro concat_unique) (auto simp: filter_empty_conv)
qed

lemma GetWriteContext_committed:
  assumes "pools b = Some db" "b \<noteq> ''''" "store_inv db" "committed_save env now db req gid"
    "MarshalConsistency (env_marshal env) checks = Inr (Save_consistencyJSON req)"
    "stored_codec_ok (env_marshal env) (unmarshal_stored renv)" "redecode_ok (ext_redecode (env_json env))"
    "read_take renv = None" "read_query renv 0 = None"
  shows "GetWriteContext env renv pools
      (Some \<lparr>GetWriteContext_Boundary = b, GetWriteContext_WriteId = WriteID gid gid\<rparr>) =
    Inr \<lparr>WriteContext_WriteId = WriteID gid gid,
         WriteContext_Consistency = map (Some \<circ> check_observation) checks\<rparr>"
proof -
  let ?req = "\<lparr>GetWriteContext_Boundary = b, GetWriteContext_WriteId = WriteID gid gid\<rparr>"
  from assms(3) obtain ns where "store_layout ns db" by (auto simp: store_inv_def)
  then have "in_int64 gid" "0 \<le> gid"
    using log_end_bounds assms(4) by (fastforce simp: committed_save_def Let_def in_int64_def min_int64_def)+
  then have valid: "ValidateWriteContextRequest (Some ?req) = Inr (Position gid gid)"
    using assms(2) by (simp add: ValidateWriteContextRequest_ok)
  note rows = select_write_committed [OF assms(4,3)]
  show ?thesis
    unfolding GetWriteContext_def valid bindR_simps option.sel
    using assms(1,8,9) write_context_roundtrip [OF assms(6,7,5)]
    by (simp add: rows)
qed

end
