(* ===== verification/Sample_Store.thy ===== *)
theory Sample_Store
  imports Sqlite_Refinement Sqlite_Save Sqlite_Read
begin

text \<open>
  A small boundary the examples of the properties use: one event type, one tag, a store without
  faults and concrete instances of the library functions the model takes as arguments.
\<close>

definition sample_tag :: Tag where
  "sample_tag = \<lparr>Tag_Key = ''user'', Tag_Value = ''7'', Tag_Operator = ''''\<rparr>"

definition sample_criterion :: ReadCriterion where
  "sample_criterion = \<lparr>ReadCriterion_Tags = [sample_tag]\<rparr>"

definition sample_sprint :: "json \<Rightarrow> string" where
  "sample_sprint j = (case j of JNum t \<Rightarrow> t | JStr s \<Rightarrow> s | _ \<Rightarrow> ''map[]'')"

definition sample_predicate :: "json \<Rightarrow> TagPredicate" where
  "sample_predicate j =
     (case j of JObj [(_, JStr op), (_, JStr v)] \<Rightarrow> \<lparr>TagPredicate_Operator = op, TagPredicate_Value = v\<rparr>
      | _ \<Rightarrow> \<lparr>TagPredicate_Operator = '''', TagPredicate_Value = ''''\<rparr>)"

definition sample_redecode :: "json \<Rightarrow> TagPredicate list result" where
  "sample_redecode j =
     (case j of JArr js \<Rightarrow> Inr (map sample_predicate js) | _ \<Rightarrow> Inl (PlainError ''not an array''))"

definition sample_check :: ConsistencyCheck where
  "sample_check = \<lparr>Check_Criteria = [sample_criterion], Check_Position = NotExistsPosition\<rparr>"

definition sample_stored :: "storedConsistencyObservation list" where
  "sample_stored =
     [\<lparr>Stored_Criteria = [[(''user'', FString ''7'')]], Stored_TransactionID = -1, Stored_GlobalID = -1\<rparr>]"

definition sample_marshal :: "storedConsistencyObservation list \<Rightarrow> string result" where
  "sample_marshal obs =
     (if obs = sample_stored then Inr ''[{user 7 -1 -1}]'' else if obs = [] then Inr ''[]''
      else Inl (PlainError ''unsupported''))"

definition sample_unmarshal :: "string \<Rightarrow> storedConsistencyObservation list result" where
  "sample_unmarshal s =
     (if s = ''[]'' then Inr [] else Inr (map reload_observation sample_stored))"

definition sample_env :: sqlite_env where
  "sample_env =
     \<lparr>env_json = \<lparr>ext_redecode = sample_redecode, ext_sprint = sample_sprint\<rparr>,
      env_where = (\<lambda>_ d. criterion_matches sample_sprint d [sample_tag]),
      env_marshal = sample_marshal\<rparr>"

definition sample_event :: PreparedEvent where
  "sample_event =
     \<lparr>PreparedEvent_EventId = ''e1'', PreparedEvent_EventType = ''Created'',
      PreparedEvent_DataJSON = Json (JObj [(''user'', JStr ''7'')]), PreparedEvent_MetadataJSON = Json (JObj [])\<rparr>"

definition sample_document :: preparedEventDocument where
  "sample_document =
     \<lparr>Doc_eventID = ''e1'', Doc_eventType = ''Created'', Doc_metadata = Json (JObj []),
      Doc_object = \<lparr>Object_fields = Some [(''user'', JStr ''7'')]\<rparr>, Doc_err = None\<rparr>"

definition sample_save :: preparedSQLiteSave where
  "sample_save =
     \<lparr>Save_ctx_err = None, Save_inserts = [sample_document], Save_consistencyJSON = ''[{user 7 -1 -1}]'',
      Save_preparedChecks = [\<lparr>Prepared_position = NotExistsPosition, Prepared_queries = [Some ''w''], Prepared_err = None\<rparr>]\<rparr>"

definition sample_faults :: tx_faults where
  "sample_faults =
     \<lparr>fault_begin = None, fault_seq = None, fault_update = None, fault_commit = None,
      fault_query = (\<lambda>_ _ _. None), fault_write = (\<lambda>_. None), fault_insert = (\<lambda>_ _. None),
      fault_release = (\<lambda>_. None), tx_clock = (\<lambda>_. ''2026-01-01T00:00:00Z'')\<rparr>"

definition sample_stored_doc :: document where
  "sample_stored_doc =
     [(''__commitPosition'', JNum ''1''), (''__dateCreated'', JStr ''2026-01-01T00:00:00Z''),
      (''__eventId'', JStr ''e1''), (''__eventType'', JStr ''Created''), (''__metadata'', JObj []),
      (''__preparePosition'', JNum ''1''), (''__writeId'', JStr ''1:1''), (''user'', JStr ''7'')]"

definition sample_db :: sqlite_db where
  "sample_db = \<lparr>db_events = [sample_stored_doc], db_writes = [(1, ''[{user 7 -1 -1}]'')], db_next_id = 2\<rparr>"

text \<open>The first save is accepted and a second one with the same observation is a conflict.\<close>

lemma sample_transaction:
  "executeTransaction sample_env sample_faults [sample_save, sample_save] empty_db =
     (sample_db,
      Inr [\<lparr>Result_transactionID = ''1'', Result_globalID = 1, Result_err = None\<rparr>,
           failed_result (Coded AlreadyExists conflict_message)])"
  by code_simp

lemma sample_prepared: "prepareEventDocuments [sample_event] = [sample_document]"
  by (simp add: prepareEventDocuments_def prepareEventDocument_def sample_event_def sample_document_def
      ParseObject_def unmarshal_object_def object_map_def)

section \<open>Reachable runs\<close>

text \<open>The coordinator admits the sample save, drains it alone and flushes it.\<close>

definition sample_config :: Config where
  "sample_config = \<lparr>MaxBatchRequests = 128, MaxBatchEvents = 1024, MaxPending = 4096, MaxDelay = 0,
                    FlushTimeout = 30 * 1000000000\<rparr>"

definition sample_saver :: sqlite_saver where
  "sample_saver = \<lparr>saver_pools = [''orders'' \<mapsto> empty_db], saver_notified = Some [], gcSingleFlushes = 0,
                   gcMultiFlushes = 0\<rparr>"

definition sample_saver_after :: sqlite_saver where
  "sample_saver_after = \<lparr>saver_pools = [''orders'' \<mapsto> sample_db], saver_notified = Some [''orders''],
                         gcSingleFlushes = 1, gcMultiFlushes = 0\<rparr>"

definition sample_request :: "preparedSQLiteSave request" where
  "sample_request = \<lparr>Req_id = 0, Req_prepared = sample_save, Req_events = 1\<rparr>"

definition sample_outcome :: sqliteSaveResult where
  "sample_outcome = \<lparr>Result_transactionID = ''1'', Result_globalID = 1, Result_err = None\<rparr>"

definition sample_lane :: "(preparedSQLiteSave, sqliteSaveResult) lane" where
  "sample_lane =
     \<lparr>lane_queue = [], lane_queue_closed = False, lane_phase = WAfter None,
      lane_done = [(sample_request, Inr sample_outcome)], lane_admitted = [sample_request]\<rparr>"

definition sample_coordinator :: "(preparedSQLiteSave, sqliteSaveResult) Coordinator" where
  "sample_coordinator =
     \<lparr>co_config = sample_config, co_closed = False, co_lanes = [''orders'' \<mapsto> sample_lane], co_senders = [],
      co_next = 1\<rparr>"

lemma sample_batch:
  "executeBatch sample_env None sample_faults ''orders'' [sample_save] sample_saver =
     (sample_saver_after, Inr [sample_outcome])"
proof -
  have "executeTransaction sample_env sample_faults [sample_save] empty_db =
     (sample_db, Inr [\<lparr>Result_transactionID = ''1'', Result_globalID = 1, Result_err = None\<rparr>])"
    by code_simp
  then show ?thesis
    by (simp add: executeBatch_def sample_saver_def sample_saver_after_def sample_outcome_def
        accepted_count_def notify_def wrap64_def)
qed

lemma sample_wf: "wf_request sample_save"
  by (simp add: wf_request_def sample_save_def sample_document_def object_ok_def)

lemma sample_exec:
  "sqlite_exec sample_env ''orders'' [sample_save] sample_saver sample_saver_after (Outcomes [sample_outcome])"
proof -
  have "with_ctx [sample_save] (\<lambda>_. None) = [sample_save]"
    by (simp add: with_ctx_def sample_save_def)
  then show ?thesis
    using sample_batch unfolding sqlite_exec_def flush_of_def by (metis (no_types, lifting) sum.simps(6))
qed

lemma sample_saver_inv: "saver_inv sample_saver"
  by (simp add: saver_inv_def sample_saver_def empty_db_inv)

definition lane_at :: "preparedSQLiteSave request list \<Rightarrow> preparedSQLiteSave phase \<Rightarrow>
    (preparedSQLiteSave, sqliteSaveResult) lane" where
  "lane_at q ph = \<lparr>lane_queue = q, lane_queue_closed = False, lane_phase = ph, lane_done = [],
                   lane_admitted = [sample_request]\<rparr>"

definition coordinator_at :: "preparedSQLiteSave request list \<Rightarrow> preparedSQLiteSave phase \<Rightarrow>
    (preparedSQLiteSave, sqliteSaveResult) Coordinator" where
  "coordinator_at q ph =
     \<lparr>co_config = sample_config, co_closed = False, co_lanes = [''orders'' \<mapsto> lane_at q ph], co_senders = [],
      co_next = 1\<rparr>"

lemma sample_worker:
  assumes "worker_step sample_config False (lane_at q ph) (lane_at q' ph')"
  shows "gc_step exec ok (coordinator_at q ph, s) (coordinator_at q' ph', s)"
proof -
  have "gc_step exec ok (coordinator_at q ph, s)
      ((coordinator_at q ph)\<lparr>co_lanes := (co_lanes (coordinator_at q ph))(''orders'' \<mapsto> lane_at q' ph')\<rparr>, s)"
    using assms by (intro gc_step.worker) (simp_all add: coordinator_at_def)
  then show ?thesis by (simp add: coordinator_at_def)
qed

lemma sample_admission:
  "(gc_step exec wf_request)\<^sup>*\<^sup>*
     (\<lparr>co_config = sample_config, co_closed = False, co_lanes = Map.empty, co_senders = [], co_next = 0\<rparr>, s)
     (coordinator_at [sample_request] (WIdle None), s)"
proof -
  let ?c0 = "\<lparr>co_config = sample_config, co_closed = False, co_lanes = Map.empty, co_senders = [], co_next = 0\<rparr> ::
     (preparedSQLiteSave, sqliteSaveResult) Coordinator"
  let ?c1 = "Submit_register ?c0 ''orders'' sample_save 1"
  have c1: "?c1 = \<lparr>co_config = sample_config, co_closed = False, co_lanes = [''orders'' \<mapsto> new_lane],
      co_senders = [(''orders'', sample_request)], co_next = 1\<rparr>"
    by (simp add: Submit_register_def sample_request_def)
  have "gc_step exec wf_request (?c0, s) (?c1, s)"
    by (intro gc_step.submit_register) (simp_all add: Submit_check_def sample_wf)
  moreover have "gc_step exec wf_request (?c1, s) (coordinator_at [sample_request] (WIdle None), s)"
    using gc_step.submit_enqueue [of ?c1 "[]" "''orders''" sample_request "[]" new_lane exec wf_request s]
    unfolding c1
    by (simp add: new_lane_def enqueue_lane_def coordinator_at_def lane_at_def sample_config_def)
  ultimately show ?thesis by (meson converse_rtranclp_into_rtranclp r_into_rtranclp)
qed

lemma sample_request_simps [simp]:
  "Req_events sample_request = 1" "Req_prepared sample_request = sample_save"
  by (simp_all add: sample_request_def)

lemma sample_drain:
  "(gc_step exec ok)\<^sup>*\<^sup>* (coordinator_at [sample_request] (WIdle None), s)
     (coordinator_at [] (WBatch [sample_request] None), s)"
proof -
  have "worker_step sample_config False (lane_at [sample_request] (WIdle None)) (lane_at [] (WGot sample_request))"
    using worker_step.take_queue [where l = "lane_at [sample_request] (WIdle None)" and req = sample_request
        and q = "[]" and cfg = sample_config and shut = False] by (simp add: lane_at_def)
  moreover have "worker_step sample_config False (lane_at [] (WGot sample_request)) (lane_at [] (WDrain [sample_request] 1))"
    using worker_step.got_open [where l = "lane_at [] (WGot sample_request)" and req = sample_request
        and cfg = sample_config and shut = False] by (simp add: lane_at_def)
  moreover have "worker_step sample_config False (lane_at [] (WDrain [sample_request] 1)) (lane_at [] (WBatch [sample_request] None))"
    using worker_step.drain_stop [where l = "lane_at [] (WDrain [sample_request] 1)" and batch = "[sample_request]"
        and events = 1 and cfg = sample_config and shut = False] by (simp add: lane_at_def sample_config_def)
  ultimately show ?thesis by (meson sample_worker converse_rtranclp_into_rtranclp rtranclp.rtrancl_refl)
qed

lemma sample_reachable:
  "gc_reachable (sqlite_exec sample_env) wf_request sample_saver (sample_coordinator, sample_saver_after)"
proof -
  have new: "New sample_config = Some \<lparr>co_config = sample_config, co_closed = False, co_lanes = Map.empty,
      co_senders = [], co_next = 0\<rparr>"
    by (simp add: New_def valid_config_def sample_config_def)
  have live: "live_requests (\<lambda>_. None) [sample_request] = [sample_request]"
    by (simp add: live_requests_def)
  have exec: "sqlite_exec sample_env ''orders'' (map Req_prepared (live_requests (\<lambda>_. None) [sample_request]))
      sample_saver sample_saver_after (Outcomes [sample_outcome])"
    by (simp add: live sample_exec)
  have "gc_step (sqlite_exec sample_env) wf_request (coordinator_at [] (WBatch [sample_request] None), sample_saver)
      ((coordinator_at [] (WBatch [sample_request] None))\<lparr>co_lanes :=
         (co_lanes (coordinator_at [] (WBatch [sample_request] None)))(''orders'' \<mapsto>
           flush_lane (\<lambda>_. None) (Outcomes [sample_outcome]) [sample_request] None
             (lane_at [] (WBatch [sample_request] None)))\<rparr>, sample_saver_after)"
    using exec by (intro gc_step.flush) (simp_all add: coordinator_at_def lane_at_def live)
  moreover have "(coordinator_at [] (WBatch [sample_request] None))\<lparr>co_lanes :=
         (co_lanes (coordinator_at [] (WBatch [sample_request] None)))(''orders'' \<mapsto>
           flush_lane (\<lambda>_. None) (Outcomes [sample_outcome]) [sample_request] None
             (lane_at [] (WBatch [sample_request] None)))\<rparr> = sample_coordinator"
    by (simp add: coordinator_at_def lane_at_def flush_lane_def runFlush_def live live_results_def
        sample_coordinator_def sample_lane_def)
  ultimately have flushed: "gc_step (sqlite_exec sample_env) wf_request
      (coordinator_at [] (WBatch [sample_request] None), sample_saver) (sample_coordinator, sample_saver_after)"
    by (simp only:)
  from rtranclp.rtrancl_into_rtrancl [OF rtranclp_trans [OF sample_admission sample_drain] flushed] new
  show ?thesis unfolding gc_reachable_def by blast
qed

text \<open>The same coordinator after \<open>Close\<close>.\<close>

definition sample_closed_lane :: "(preparedSQLiteSave, sqliteSaveResult) lane" where
  "sample_closed_lane = sample_lane\<lparr>lane_queue_closed := True\<rparr>"

definition sample_closed :: "(preparedSQLiteSave, sqliteSaveResult) Coordinator" where
  "sample_closed = sample_coordinator\<lparr>co_closed := True, co_lanes := [''orders'' \<mapsto> sample_closed_lane]\<rparr>"

lemma sample_closed_reachable:
  "gc_reachable (sqlite_exec sample_env) wf_request sample_saver (sample_closed, sample_saver_after)"
proof -
  let ?step = "gc_step (sqlite_exec sample_env) wf_request"
  let ?c = "sample_coordinator\<lparr>co_closed := True\<rparr>"
  have one: "?step (sample_coordinator, sample_saver_after) (?c, sample_saver_after)"
    by (rule gc_step.close_signal)
  have "?step (?c, sample_saver_after)
      (?c\<lparr>co_lanes := (\<lambda>b. map_option (\<lambda>l. l\<lparr>lane_queue_closed := True\<rparr>) (co_lanes ?c b))\<rparr>, sample_saver_after)"
    by (rule gc_step.close_queues) (simp_all add: sample_coordinator_def)
  moreover have "?c\<lparr>co_lanes := (\<lambda>b. map_option (\<lambda>l. l\<lparr>lane_queue_closed := True\<rparr>) (co_lanes ?c b))\<rparr> = sample_closed"
    by (simp add: sample_closed_def sample_coordinator_def sample_closed_lane_def fun_eq_iff)
  ultimately have two: "?step (?c, sample_saver_after) (sample_closed, sample_saver_after)" by (simp only:)
  from sample_reachable obtain c0 cfg where "New cfg = Some c0" "?step\<^sup>*\<^sup>* (c0, sample_saver) (sample_coordinator, sample_saver_after)"
    unfolding gc_reachable_def by blast
  with one two show ?thesis unfolding gc_reachable_def by (meson rtranclp.rtrancl_into_rtrancl)
qed

text \<open>A reader without faults, and the request for the sample events.\<close>

definition sample_renv :: read_env where
  "sample_renv =
     \<lparr>parse_time = (\<lambda>_ _. Inr 0), unmarshal_stored = sample_unmarshal, read_take = None, read_begin = None,
      read_query = (\<lambda>_. None)\<rparr>"

definition sample_query :: "Query option" where
  "sample_query = Some \<lparr>Query_Criteria = [Some \<lparr>Criterion_Tags = [Some sample_tag]\<rparr>]\<rparr>"

definition sample_get :: GetEventsRequest where
  "sample_get = \<lparr>Get_Query = sample_query, Get_FromPosition = None, Get_Count = 10, Get_Direction = Direction_DESC,
                 Get_Boundary = ''orders''\<rparr>"

lemma sample_time: "parseSQLiteEventTime sample_renv s = Inr 0"
  by (simp add: parseSQLiteEventTime_def sample_renv_def)

lemma sample_db_inv: "store_inv sample_db"
proof -
  have "saver_inv sample_saver_after"
    using sqlite_exec_inv [OF sample_saver_inv _ sample_exec] sample_wf by simp
  then show ?thesis by (simp add: saver_inv_def sample_saver_after_def)
qed

lemma sample_valid: "ValidateQuery sample_query = Inr ()"
  by code_simp

lemma sample_where: "where_agrees sample_env sample_query docs"
  by (auto simp: where_agrees_def sample_env_def query_selects_def sample_query_def query_read_criteria_def)

lemma sample_sql: "sql_agrees sample_env [sample_criterion] docs"
  by (auto simp: sql_agrees_def sample_env_def sample_criterion_def)

end
