(* ===== verification/Save_Metrics.thy ===== *)
theory Save_Metrics
  imports Store_Types "HOL-Library.Sublist"
begin

text \<open>
  The instrumented save (\<^verbatim>\<open>orisun/eventstore_metrics.go\<close>): the classification of a backend's error, and the
  measurements recorded for a commit attempt. OpenTelemetry is not modelled: a measurement is a value
  of \<open>measurement\<close>, and the caches of attribute sets are left out. The durations are left out as well.
  \<open>text_size\<close> gives the number of bytes of a JSON text.
\<close>

definition normalizeSaveError :: "goerror \<Rightarrow> goerror" where
  "normalizeSaveError err =
     (let (code, _, ok) = FromError err
      in if ok \<and> code \<noteq> Unknown then err
         else if sublist ''OptimisticConcurrencyException'' (error_text err)
         then Coded AlreadyExists (error_text err) else err)"

definition code_status :: "Code \<Rightarrow> string" where
  "code_status code =
     (case code of
        Canceled \<Rightarrow> ''CANCELLED''
      | InvalidArgument \<Rightarrow> ''INVALID_ARGUMENT''
      | DeadlineExceeded \<Rightarrow> ''DEADLINE_EXCEEDED''
      | NotFound \<Rightarrow> ''NOT_FOUND''
      | AlreadyExists \<Rightarrow> ''ALREADY_EXISTS''
      | PermissionDenied \<Rightarrow> ''PERMISSION_DENIED''
      | Unauthenticated \<Rightarrow> ''UNAUTHENTICATED''
      | Unavailable \<Rightarrow> ''UNAVAILABLE''
      | Unimplemented \<Rightarrow> ''UNIMPLEMENTED''
      | FailedPrecondition \<Rightarrow> ''FAILED_PRECONDITION''
      | _ \<Rightarrow> ''INTERNAL'')"

definition commitStatus :: "goerror option \<Rightarrow> string" where
  "commitStatus err =
     (case err of
        None \<Rightarrow> ''OK''
      | Some e \<Rightarrow>
          if error_is e CtxCanceled then ''CANCELLED''
          else if error_is e CtxDeadline then ''DEADLINE_EXCEEDED''
          else code_status (CodeOf (Some e)))"

definition cccCriterionShape :: "ConsistencyCheck list \<Rightarrow> string" where
  "cccCriterionShape consistency =
     (case consistency of
        [] \<Rightarrow> ''unscoped''
      | [check] \<Rightarrow>
          (case Check_Criteria check of
             [] \<Rightarrow> ''empty_criterion''
           | [criterion] \<Rightarrow>
               if length (ReadCriterion_Tags criterion) = 0 then ''empty_criterion''
               else if length (ReadCriterion_Tags criterion) = 1 then ''single_criterion_single_tag''
               else ''single_criterion_multiple_tags''
           | _ \<Rightarrow> ''multiple_criteria'')
      | _ \<Rightarrow> ''multiple_queries'')"

definition preparedPayloadBytes :: "(json_text \<Rightarrow> nat) \<Rightarrow> PreparedEvent list \<Rightarrow> int64" where
  "preparedPayloadBytes text_size events =
     foldl (\<lambda>size event. wrap64 (size + int (text_size (PreparedEvent_DataJSON event) +
                                             text_size (PreparedEvent_MetadataJSON event)))) 0 events"

datatype measurement =
    CommitDuration string string
  | Commits string int64
  | CommittedEvents string int64
  | PayloadSize string int64
  | Conflicts string string int64

definition recordCommitAttempt ::
    "(json_text \<Rightarrow> nat) \<Rightarrow> string \<Rightarrow> PreparedEvent list \<Rightarrow> ConsistencyCheck list \<Rightarrow> goerror option \<Rightarrow>
     measurement list \<Rightarrow> measurement list" where
  "recordCommitAttempt text_size boundary events consistency err m =
     (let status = commitStatus err; m1 = m @ [CommitDuration boundary status]
      in if err = None
         then m1 @ [Commits boundary 1, CommittedEvents boundary (int (length events)),
                    PayloadSize boundary (preparedPayloadBytes text_size events)]
         else if status = ''ALREADY_EXISTS''
         then m1 @ [Conflicts boundary (cccCriterionShape consistency) 1] else m1)"

text \<open>
  \<open>outcome\<close> is what \<open>SavePrepared\<close> of the backend gave: None when it panicked. The measurements are
  None until they are enabled.
\<close>

definition savePreparedWithMetrics ::
    "(json_text \<Rightarrow> nat) \<Rightarrow> string \<Rightarrow> PreparedEvent list \<Rightarrow> ConsistencyCheck list \<Rightarrow>
     (string \<times> int64) result option \<Rightarrow> measurement list option \<Rightarrow>
     measurement list option \<times> (string \<times> int64) result option" where
  "savePreparedWithMetrics text_size boundary events consistency outcome metrics =
     (case outcome of
        None \<Rightarrow> (metrics, None)
      | Some res \<Rightarrow>
          (let res' = map_errorR normalizeSaveError res
           in (map_option (recordCommitAttempt text_size boundary events consistency
                 (case res' of Inl err \<Rightarrow> Some err | Inr _ \<Rightarrow> None)) metrics, Some res')))"

section \<open>Lemmas\<close>

text \<open>A measured commit is a successful one, and a measured conflict is an \<open>AlreadyExists\<close> error.\<close>

lemma status_conflict: "code_status c = ''ALREADY_EXISTS'' \<longleftrightarrow> c = AlreadyExists"
  by (cases c) (simp_all add: code_status_def)

lemma recordCommitAttempt_commits:
  "Commits b n \<in> set (recordCommitAttempt ts boundary events checks err m) \<longleftrightarrow>
     Commits b n \<in> set m \<or> (err = None \<and> b = boundary \<and> n = 1)"
  by (auto simp: recordCommitAttempt_def Let_def)

lemma recordCommitAttempt_conflict:
  assumes "Conflicts b shape n \<in> set (recordCommitAttempt ts boundary events checks err m)"
    and "Conflicts b shape n \<notin> set m"
  obtains e where "err = Some e" "CodeOf (Some e) = AlreadyExists"
  using assms
  by (cases err) (auto simp: recordCommitAttempt_def Let_def commitStatus_def status_conflict split: if_splits)

end
