(* ===== verification/Boundary_Name.thy ===== *)
theory Boundary_Name
  imports Status_Code
begin

text \<open>
  The identifier contract of boundary and index names: \<open>ValidateName\<close> of
  \<^verbatim>\<open>boundary/types.go\<close> and \<open>validateIdentifier\<close> of \<^verbatim>\<open>sqlite/sqlite_eventstore.go\<close>,
  which splices a name into SQL text and file names only after this check.
\<close>

definition letter :: "char \<Rightarrow> bool" where
  "letter character \<longleftrightarrow>
     CHR ''a'' \<le> character \<and> character \<le> CHR ''z'' \<or>
     CHR ''A'' \<le> character \<and> character \<le> CHR ''Z''"

definition digit :: "char \<Rightarrow> bool" where
  "digit character \<longleftrightarrow> CHR ''0'' \<le> character \<and> character \<le> CHR ''9''"

text \<open>The loop \<open>for i := 1; i < len(name); i++\<close> runs over the bytes after the first one.\<close>

fun ValidateName_loop :: "string \<Rightarrow> unit result" where
  "ValidateName_loop [] = Inr ()"
| "ValidateName_loop (character # rest) =
     (if \<not> letter character \<and> \<not> digit character \<and> character \<noteq> CHR ''_''
      then Inl (PlainError ''boundary name can only contain letters, digits, and underscores, invalid character %q at position %d'')
      else ValidateName_loop rest)"

definition ValidateName :: "string \<Rightarrow> unit result" where
  "ValidateName name =
     (if length name = 0 \<or> length name > 63
      then Inl (PlainError ''boundary name must be 1-63 characters, got %d'')
      else if \<not> letter (name ! 0) \<and> name ! 0 \<noteq> CHR ''_''
      then Inl (PlainError ''boundary name must start with a letter or underscore, got %q'')
      else ValidateName_loop (drop 1 name))"

definition isAlpha :: "char \<Rightarrow> bool" where
  "isAlpha c \<longleftrightarrow> (CHR ''a'' \<le> c \<and> c \<le> CHR ''z'') \<or> (CHR ''A'' \<le> c \<and> c \<le> CHR ''Z'')"

definition isDigit :: "char \<Rightarrow> bool" where
  "isDigit c \<longleftrightarrow> CHR ''0'' \<le> c \<and> c \<le> CHR ''9''"

fun validateIdentifier_loop :: "string \<Rightarrow> unit result" where
  "validateIdentifier_loop [] = Inr ()"
| "validateIdentifier_loop (c # rest) =
     (if \<not> isAlpha c \<and> \<not> isDigit c \<and> c \<noteq> CHR ''_''
      then Inl (PlainError ''identifier may only contain letters, digits, underscores, invalid char %q at %d'')
      else validateIdentifier_loop rest)"

definition validateIdentifier :: "string \<Rightarrow> unit result" where
  "validateIdentifier name =
     (if length name = 0 \<or> length name > 63
      then Inl (PlainError ''identifier must be 1-63 characters, got %d'')
      else if \<not> isAlpha (name ! 0) \<and> name ! 0 \<noteq> CHR ''_''
      then Inl (PlainError ''identifier must start with a letter or underscore, got %q'')
      else validateIdentifier_loop (drop 1 name))"

section \<open>Both validators accept the same language\<close>

definition name_char :: "char \<Rightarrow> bool" where
  "name_char c \<longleftrightarrow> letter c \<or> digit c \<or> c = CHR ''_''"

lemma ValidateName_loop_ok: "ValidateName_loop s = Inr () \<longleftrightarrow> list_all name_char s"
  by (induction s) (auto simp: name_char_def)

lemma isAlpha_letter [simp]: "isAlpha = letter"
  by (simp add: fun_eq_iff isAlpha_def letter_def)

lemma isDigit_digit [simp]: "isDigit = digit"
  by (simp add: fun_eq_iff isDigit_def digit_def)

lemma validateIdentifier_loop_ok: "validateIdentifier_loop s = Inr () \<longleftrightarrow> list_all name_char s"
  by (induction s) (auto simp: name_char_def)

lemma ValidateName_ok:
  "ValidateName name = Inr () \<longleftrightarrow>
     1 \<le> length name \<and> length name \<le> 63 \<and> list_all name_char name \<and> \<not> digit (hd name)"
proof (cases name)
  case (Cons c cs)
  have "letter c \<or> c = CHR ''_'' \<longleftrightarrow> name_char c \<and> \<not> digit c"
    by (auto simp: name_char_def letter_def digit_def less_eq_char_def)
  with Cons show ?thesis
    by (auto simp: ValidateName_def ValidateName_loop_ok)
qed (simp add: ValidateName_def)

lemma validateIdentifier_ok: "validateIdentifier name = Inr () \<longleftrightarrow> ValidateName name = Inr ()"
  by (auto simp: ValidateName_def validateIdentifier_def ValidateName_loop_ok
      validateIdentifier_loop_ok)

text \<open>
  C30. The boundary-name check of the model and the identifier check of the storage backends accept
  exactly the same names: 1 to 63 letters, digits and underscores that do not start with a digit. None
  of these characters can end a quoted SQL identifier or separate path components.
\<close>

theorem boundary_names_agree:
  "(validateIdentifier name = Inr () \<longleftrightarrow> ValidateName name = Inr ()) \<and>
   (ValidateName name = Inr () \<longleftrightarrow>
     1 \<le> length name \<and> length name \<le> 63 \<and> list_all name_char name \<and> \<not> digit (hd name)) \<and>
   {c. name_char c} \<inter> {CHR 0x27, CHR 0x22, CHR ''/'', CHR ''.'', CHR '':'', CHR '' ''} = {}"
  by (auto simp: validateIdentifier_ok ValidateName_ok name_char_def letter_def digit_def less_eq_char_def)

end
