(* ===== verification/Event_Store.thy ===== *)
theory Event_Store
  imports Save_Metrics Boundary_Name Observation_Checks
begin

text \<open>
  The event-store API (\<^verbatim>\<open>orisun/eventstore.go\<close>, \<^verbatim>\<open>orisun/write_context_server.go\<close>): the boundary
  activation gate, authorization, and the handlers for saving, reading and managing indexes.

  The backend is an argument: the record \<open>backend\<close> holds the operations of the interfaces
  \<open>EventsSaver\<close>, \<open>EventsRetriever\<close>, \<open>WriteContextRetriever\<close> and \<open>BoundaryIndexManager\<close> on a state \<open>'s\<close>.
  A save may panic, which is the result None. The receiver and the stored user value are never nil or of
  another type.
\<close>

section \<open>Roles and indexes\<close>

type_synonym Role = string

definition RoleAdmin :: Role where
  "RoleAdmin = ''ADMIN''"

definition RoleOperations :: Role where
  "RoleOperations = ''OPERATIONS''"

record User =
  User_Id :: string
  User_Name :: string
  User_Username :: string
  User_HashedPassword :: string
  User_Roles :: "Role list"

record BoundaryIndexField =
  Field_JsonKey :: string
  Field_ValueType :: string

record BoundaryIndexCondition =
  Condition_Key :: string
  Condition_Operator :: string
  Condition_Value :: string

record BoundaryIndex =
  Index_Name :: string
  Index_Fields :: "BoundaryIndexField list"
  Index_Conditions :: "BoundaryIndexCondition list"
  Index_Combinator :: string
  Index_State :: string

datatype ValueType = ValueType_TEXT | ValueType_NUMERIC | ValueType_BOOLEAN | ValueType_TIMESTAMPTZ

text \<open>\<open>strings.ToLower(f.ValueType.String())\<close>; a number outside the enumeration prints as \<open>TEXT\<close>.\<close>

fun value_type_name :: "ValueType \<Rightarrow> string" where
  "value_type_name ValueType_NUMERIC = ''numeric''"
| "value_type_name ValueType_BOOLEAN = ''boolean''"
| "value_type_name ValueType_TIMESTAMPTZ = ''timestamptz''"
| "value_type_name ValueType_TEXT = ''text''"

datatype ConditionCombinator = ConditionCombinator_AND | ConditionCombinator_OR

record CreateIndexRequest =
  CreateIndex_Boundary :: string
  CreateIndex_Name :: string
  CreateIndex_Fields :: "(string \<times> ValueType) option list"
  CreateIndex_Conditions :: "BoundaryIndexCondition option list"
  CreateIndex_Combinator :: ConditionCombinator

section \<open>Backend and state\<close>

record 's backend =
  be_save :: "'s \<Rightarrow> PreparedEvent list \<Rightarrow> string \<Rightarrow> ConsistencyCheck list \<Rightarrow> 's \<times> (string \<times> int64) result option"
  be_get :: "'s \<Rightarrow> GetEventsRequest \<Rightarrow> ReadEvent list result"
  be_latest :: "'s \<Rightarrow> LatestByCriteriaQuery \<Rightarrow> LatestByCriteriaBatch result"
  be_write_context :: "('s \<Rightarrow> GetWriteContextRequest \<Rightarrow> WriteContext result) option"

record 's index_manager =
  ix_create :: "'s \<Rightarrow> string \<Rightarrow> string \<Rightarrow> BoundaryIndexField list \<Rightarrow> BoundaryIndexCondition list \<Rightarrow> string \<Rightarrow>
                's \<times> unit result"
  ix_drop :: "'s \<Rightarrow> string \<Rightarrow> string \<Rightarrow> 's \<times> unit result"
  ix_list :: "'s \<Rightarrow> string \<Rightarrow> BoundaryIndex list result"
  ix_get :: "'s \<Rightarrow> string \<Rightarrow> string \<Rightarrow> BoundaryIndex result"

record EventStore =
  enforceBoundaryActivation :: bool
  activeBoundaries :: "string set"

definition NewEventStoreServer :: EventStore where
  "NewEventStoreServer = \<lparr>enforceBoundaryActivation = False, activeBoundaries = {}\<rparr>"

section \<open>The activation gate\<close>

definition EnableBoundaryActivationGate :: "string list \<Rightarrow> EventStore \<Rightarrow> EventStore \<times> unit result" where
  "EnableBoundaryActivationGate initiallyActive s =
     (case forR (\<lambda>boundary. map_errorR (WrapError ''invalid active boundary %q: '') (ValidateName boundary)) initiallyActive of
        Inl err \<Rightarrow> (s, Inl err)
      | Inr _ \<Rightarrow>
          (s\<lparr>activeBoundaries := activeBoundaries s \<union> set initiallyActive, enforceBoundaryActivation := True\<rparr>, Inr ()))"

definition ActivateBoundary :: "string \<Rightarrow> EventStore \<Rightarrow> EventStore \<times> unit result" where
  "ActivateBoundary boundary s =
     (case ValidateName boundary of
        Inl err \<Rightarrow> (s, Inl (WrapError ''invalid active boundary %q: '' err))
      | Inr _ \<Rightarrow> (s\<lparr>activeBoundaries := insert boundary (activeBoundaries s)\<rparr>, Inr ()))"

definition RequireBoundaryActive :: "EventStore \<Rightarrow> string \<Rightarrow> unit result" where
  "RequireBoundaryActive s boundary =
     (if \<not> enforceBoundaryActivation s then Inr ()
      else
        (case ValidateName boundary of
           Inl err \<Rightarrow> Inl (Coded InvalidArgument (''invalid boundary %q: '' @ error_text err))
         | Inr _ \<Rightarrow>
             if boundary \<notin> activeBoundaries s
             then Inl (Coded FailedPrecondition ''boundary %q is not active'') else Inr ()))"

text \<open>\<open>jsConfigured\<close> is false when the store has no JetStream client.\<close>

definition EnsureBoundary :: "bool \<Rightarrow> goerror option \<Rightarrow> string \<Rightarrow> unit result" where
  "EnsureBoundary jsConfigured ctxErr boundary =
     (if \<not> jsConfigured then Inl (PlainError ''event store is not configured'')
      else
        bindR (map_errorR (WrapError ''invalid boundary %q: '') (ValidateName boundary)) (\<lambda>_.
          case ctxErr of Some err \<Rightarrow> Inl err | None \<Rightarrow> Inr ()))"

text \<open>A request without a user in its context is allowed; \<open>user\<close> is the context's value.\<close>

definition authorizeRequest :: "User option \<Rightarrow> Role list \<Rightarrow> unit result" where
  "authorizeRequest user roles =
     (case user of
        None \<Rightarrow> Inr ()
      | Some userObj \<Rightarrow>
          if roles = [] then Inr ()
          else if list_ex (\<lambda>requiredRole. requiredRole \<in> set (User_Roles userObj)) roles then Inr ()
          else Inl (Coded PermissionDenied ''user does not have any of the required roles''))"

section \<open>Saving\<close>

text \<open>The errors of a backend keep their code; others become \<open>Internal\<close>.\<close>

definition wrap_backend_error :: "string \<Rightarrow> goerror \<Rightarrow> goerror" where
  "wrap_backend_error msg err =
     (let (code, _, ok) = FromError err
      in if ok \<and> code \<noteq> Unknown then err else Coded Internal (msg @ error_text err))"

definition validateSaveEventsV2Request :: "SaveEventsV2Request option \<Rightarrow> unit result" where
  "validateSaveEventsV2Request req =
     (case req of
        None \<Rightarrow> Inl (Coded InvalidArgument ''Invalid request: missing request body'')
      | Some r \<Rightarrow>
          if length (SaveV2_Events r) = 0 then Inl (Coded InvalidArgument ''Invalid request: no events provided'')
          else Inr ())"

text \<open>
  \<open>parseInt64\<close> is \<open>fmt.Sscanf(s, "%d", &i)\<close>: leading white space is skipped, a newline in it is an
  error, and what follows the digits is not read.
\<close>

definition blanks :: "string list" where
  "blanks = filter (\<lambda>w. w \<noteq> [CHR 0x0A]) spaces"

definition parseInt64 :: "string \<Rightarrow> int64 result" where
  "parseInt64 s =
     (let t = trim_left blanks s;
          sign = takeWhile (\<lambda>c. c \<in> {CHR ''+'', CHR ''-''}) (take 1 t);
          ds = takeWhile is_digit (drop (length sign) t)
      in if ds = [] then Inl (WrapError ''failed to parse int64: '' (PlainError ''expected integer''))
         else (case ParseInt (sign @ ds) of
                 None \<Rightarrow> Inl (WrapError ''failed to parse int64: '' (PlainError ''integer overflow on token %s''))
               | Some i \<Rightarrow> Inr i))"

text \<open>The state of a save is the backend's and the measurements.\<close>

type_synonym 's save_state = "measurement list option \<times> 's"

definition saveEvents ::
    "'s backend \<Rightarrow> (json_text \<Rightarrow> nat) \<Rightarrow> EventStore \<Rightarrow> string \<Rightarrow> EventToSave option list \<Rightarrow> ConsistencyCheck list \<Rightarrow>
     's save_state \<Rightarrow> 's save_state \<times> WriteResult result" where
  "saveEvents be ts s boundary events checks st =
     (case RequireBoundaryActive s boundary of
        Inl err \<Rightarrow> (st, Inl err)
      | Inr _ \<Rightarrow>
          (case prepareRequestedEventsForSave events of
             Inl prepareErr \<Rightarrow> (st, Inl (Coded InvalidArgument (''invalid event JSON: '' @ error_text prepareErr)))
           | Inr prepared \<Rightarrow>
               (let (b', outcome) = be_save be (snd st) prepared boundary checks;
                    (m', res) = savePreparedWithMetrics ts boundary prepared checks outcome (fst st);
                    st' = (m', b')
                in (case res of
                      None \<Rightarrow> (st', Inl (Coded Internal ''Internal server error''))
                    | Some (Inl err) \<Rightarrow> (st', Inl (wrap_backend_error ''failed to save events: '' err))
                    | Some (Inr (transactionID, globalID)) \<Rightarrow>
                        (case parseInt64 transactionID of
                           Inl err \<Rightarrow> (st', Inl (Coded Internal (''failed to save events: '' @ error_text err)))
                         | Inr tranId \<Rightarrow>
                             (st', Inr \<lparr>Result_WriteId = WriteID tranId globalID,
                                        Result_LogPosition = Position tranId globalID\<rparr>))))))"

definition saveEventsV2Request ::
    "'s backend \<Rightarrow> (json_text \<Rightarrow> nat) \<Rightarrow> EventStore \<Rightarrow> SaveEventsV2Request option \<Rightarrow> 's save_state \<Rightarrow>
     's save_state \<times> WriteResult result" where
  "saveEventsV2Request be ts s req st =
     (case validateSaveEventsV2Request req of
        Inl err \<Rightarrow> (st, Inl err)
      | Inr _ \<Rightarrow>
          (case ConsistencyChecksFromObservations (SaveV2_Consistency (the req)) of
             Inl err \<Rightarrow> (st, Inl err)
           | Inr checks \<Rightarrow> saveEvents be ts s (SaveV2_Boundary (the req)) (SaveV2_Events (the req)) checks st))"

definition SaveEventsV2 ::
    "'s backend \<Rightarrow> (json_text \<Rightarrow> nat) \<Rightarrow> EventStore \<Rightarrow> User option \<Rightarrow> SaveEventsV2Request option \<Rightarrow> 's save_state \<Rightarrow>
     's save_state \<times> WriteResult result" where
  "SaveEventsV2 be ts s user req st =
     (case authorizeRequest user [RoleAdmin, RoleOperations] of
        Inl err \<Rightarrow> (st, Inl err)
      | Inr _ \<Rightarrow> saveEventsV2Request be ts s req st)"

section \<open>Reading\<close>

definition GetEvents ::
    "'s backend \<Rightarrow> EventStore \<Rightarrow> GetEventsRequest option \<Rightarrow> 's \<Rightarrow> GetEventsResponse result" where
  "GetEvents be s req0 st =
     (case req0 of
        None \<Rightarrow> Inl (Coded InvalidArgument ''get events request is required'')
      | Some req \<Rightarrow>
          if Get_Count req = 0 then Inl (Coded InvalidArgument ''Count cannot be 0'')
          else if Get_Count req > MaxReadBatchSize then Inl (Coded InvalidArgument ''Count cannot exceed %d'')
          else bindR (ValidateQuery (Get_Query req)) (\<lambda>_.
               bindR (RequireBoundaryActive s (Get_Boundary req)) (\<lambda>_.
               bindR (be_get be st req) (\<lambda>batch. Inr (Batch_Response batch)))))"

record GetLatestByCriteriaRequest =
  LatestReq_Boundary :: string
  LatestReq_Criteria :: "Criterion option list"

record LatestCriterionResult =
  LatestResult_Criterion :: "Criterion option"
  LatestResult_Event :: "Event option"

record GetLatestByCriteriaResponse =
  LatestResp_Results :: "LatestCriterionResult list"
  LatestResp_ContextPosition :: Position

text \<open>The conversion dereferences every pointer; it is called after they have been checked.\<close>

definition latestQueryFromRequest :: "GetLatestByCriteriaRequest \<Rightarrow> LatestByCriteriaQuery" where
  "latestQueryFromRequest req =
     \<lparr>Latest_Boundary = LatestReq_Boundary req,
      Latest_Criteria = map (\<lambda>criterion. \<lparr>ReadCriterion_Tags = map the (Criterion_Tags (the criterion))\<rparr>)
                          (LatestReq_Criteria req)\<rparr>"

definition latestBatchResponse ::
    "LatestByCriteriaBatch \<Rightarrow> Criterion option list \<Rightarrow> GetLatestByCriteriaResponse" where
  "latestBatchResponse batch criteria =
     \<lparr>LatestResp_Results =
        map (\<lambda>i. \<lparr>LatestResult_Criterion = criteria ! i,
                  LatestResult_Event =
                    (if i < length (Batch_Matches batch) then map_option fillEvent (Match_Event (Batch_Matches batch ! i))
                     else None)\<rparr>) [0..<length criteria],
      LatestResp_ContextPosition =
        Position (Batch_ContextCommitPosition batch) (Batch_ContextPreparePosition batch)\<rparr>"

definition check_criterion_tags :: "Criterion option \<Rightarrow> unit result" where
  "check_criterion_tags criterion =
     (case criterion of
        None \<Rightarrow> Inl (Coded InvalidArgument ''criterion %d has no tags'')
      | Some c \<Rightarrow>
          if length (Criterion_Tags c) = 0 then Inl (Coded InvalidArgument ''criterion %d has no tags'')
          else forR (\<lambda>tag. if tag = None then Inl (Coded InvalidArgument ''criterion %d tag %d is nil'') else Inr ())
                 (Criterion_Tags c))"

definition GetLatestByCriteria ::
    "'s backend \<Rightarrow> EventStore \<Rightarrow> GetLatestByCriteriaRequest option \<Rightarrow> 's \<Rightarrow> GetLatestByCriteriaResponse result" where
  "GetLatestByCriteria be s req0 st =
     (case req0 of
        None \<Rightarrow> Inl (Coded InvalidArgument ''get latest by criteria request is required'')
      | Some req \<Rightarrow>
          if LatestReq_Boundary req = '''' then Inl (Coded InvalidArgument ''boundary is required'')
          else bindR (RequireBoundaryActive s (LatestReq_Boundary req)) (\<lambda>_.
            if length (LatestReq_Criteria req) = 0
            then Inl (Coded InvalidArgument ''at least one criterion is required'')
            else bindR (ValidateQuery (Some \<lparr>Query_Criteria = LatestReq_Criteria req\<rparr>)) (\<lambda>_.
                 bindR (forR check_criterion_tags (LatestReq_Criteria req)) (\<lambda>_.
                 bindR (be_latest be st (latestQueryFromRequest req)) (\<lambda>batch.
                   if length (Batch_Matches batch) \<noteq> length (LatestReq_Criteria req)
                   then Inl (Coded Internal ''latest result count %d does not match criterion count %d'')
                   else Inr (latestBatchResponse batch (LatestReq_Criteria req)))))))"

definition EventStore_GetWriteContext ::
    "'s backend \<Rightarrow> EventStore \<Rightarrow> GetWriteContextRequest option \<Rightarrow> 's \<Rightarrow> WriteContext result" where
  "EventStore_GetWriteContext be s req st =
     bindR (ValidateWriteContextRequest req) (\<lambda>_.
     bindR (RequireBoundaryActive s (GetWriteContext_Boundary (the req))) (\<lambda>_.
       case be_write_context be of
         None \<Rightarrow> Inl (Coded Unimplemented ''backend does not expose write contexts'')
       | Some get \<Rightarrow> get st (the req)))"

section \<open>Indexes\<close>

definition index_field :: "(string \<times> ValueType) option \<Rightarrow> BoundaryIndexField result" where
  "index_field f =
     (case f of
        None \<Rightarrow> Inl (Coded InvalidArgument ''field %d is nil'')
      | Some (key, vt) \<Rightarrow>
          if key = '''' then Inl (Coded InvalidArgument ''each field must have a json_key'')
          else Inr \<lparr>Field_JsonKey = key, Field_ValueType = value_type_name vt\<rparr>)"

definition index_condition :: "BoundaryIndexCondition option \<Rightarrow> BoundaryIndexCondition result" where
  "index_condition c =
     (case c of
        None \<Rightarrow> Inl (Coded InvalidArgument ''condition %d is nil'')
      | Some cond \<Rightarrow>
          if Condition_Key cond = '''' then Inl (Coded InvalidArgument ''each condition must have a key'') else Inr cond)"

definition unimplemented_index :: goerror where
  "unimplemented_index = Coded Unimplemented ''index management is not configured''"

definition CreateIndex ::
    "'s index_manager option \<Rightarrow> EventStore \<Rightarrow> User option \<Rightarrow> CreateIndexRequest option \<Rightarrow> 's \<Rightarrow> 's \<times> unit result" where
  "CreateIndex im s user req0 st =
     (case bindR (authorizeRequest user [RoleAdmin]) (\<lambda>_.
             case (im, req0) of
               (None, _) \<Rightarrow> Inl unimplemented_index
             | (_, None) \<Rightarrow> Inl (Coded InvalidArgument ''create index request is required'')
             | (Some m, Some req) \<Rightarrow>
                 if CreateIndex_Boundary req = '''' \<or> CreateIndex_Name req = '''' \<or> length (CreateIndex_Fields req) = 0
                 then Inl (Coded InvalidArgument ''boundary, name, and at least one field are required'')
                 else bindR (RequireBoundaryActive s (CreateIndex_Boundary req)) (\<lambda>_.
                      bindR (mapR index_field (CreateIndex_Fields req)) (\<lambda>fs.
                      bindR (mapR index_condition (CreateIndex_Conditions req)) (\<lambda>cs. Inr (m, req, fs, cs))))) of
        Inl err \<Rightarrow> (st, Inl err)
      | Inr (m, req, fs, cs) \<Rightarrow>
          (case ix_create m st (CreateIndex_Boundary req) (CreateIndex_Name req) fs cs
                  (if CreateIndex_Combinator req = ConditionCombinator_OR then ''OR'' else ''AND'') of
             (st', Inl err) \<Rightarrow> (st', Inl (wrap_backend_error ''failed to create index: '' err))
           | (st', Inr _) \<Rightarrow> (st', Inr ())))"

definition DropIndex ::
    "'s index_manager option \<Rightarrow> EventStore \<Rightarrow> User option \<Rightarrow> (string \<times> string) option \<Rightarrow> 's \<Rightarrow> 's \<times> unit result" where
  "DropIndex im s user req0 st =
     (case bindR (authorizeRequest user [RoleAdmin]) (\<lambda>_.
             case (im, req0) of
               (None, _) \<Rightarrow> Inl unimplemented_index
             | (_, None) \<Rightarrow> Inl (Coded InvalidArgument ''drop index request is required'')
             | (Some m, Some (boundary, name)) \<Rightarrow>
                 if boundary = '''' \<or> name = '''' then Inl (Coded InvalidArgument ''boundary and name are required'')
                 else bindR (RequireBoundaryActive s boundary) (\<lambda>_. Inr (m, boundary, name))) of
        Inl err \<Rightarrow> (st, Inl err)
      | Inr (m, boundary, name) \<Rightarrow>
          (case ix_drop m st boundary name of
             (st', Inl err) \<Rightarrow> (st', Inl (wrap_backend_error ''failed to drop index: '' err))
           | (st', Inr _) \<Rightarrow> (st', Inr ())))"

definition ListIndexes ::
    "'s index_manager option \<Rightarrow> EventStore \<Rightarrow> User option \<Rightarrow> string option \<Rightarrow> 's \<Rightarrow> BoundaryIndex list result" where
  "ListIndexes im s user req st =
     bindR (authorizeRequest user [RoleAdmin, RoleOperations]) (\<lambda>_.
       case im of
         None \<Rightarrow> Inl unimplemented_index
       | Some m \<Rightarrow>
           (case req of
              None \<Rightarrow> Inl (Coded InvalidArgument ''boundary is required'')
            | Some boundary \<Rightarrow>
                if boundary = '''' then Inl (Coded InvalidArgument ''boundary is required'')
                else bindR (RequireBoundaryActive s boundary) (\<lambda>_.
                     map_errorR (wrap_backend_error ''failed to list indexes: '') (ix_list m st boundary))))"

definition GetIndex ::
    "'s index_manager option \<Rightarrow> EventStore \<Rightarrow> User option \<Rightarrow> (string \<times> string) option \<Rightarrow> 's \<Rightarrow> BoundaryIndex result" where
  "GetIndex im s user req st =
     bindR (authorizeRequest user [RoleAdmin, RoleOperations]) (\<lambda>_.
       case im of
         None \<Rightarrow> Inl unimplemented_index
       | Some m \<Rightarrow>
           (case req of
              None \<Rightarrow> Inl (Coded InvalidArgument ''boundary and name are required'')
            | Some (boundary, name) \<Rightarrow>
                if boundary = '''' \<or> name = '''' then Inl (Coded InvalidArgument ''boundary and name are required'')
                else bindR (RequireBoundaryActive s boundary) (\<lambda>_.
                     map_errorR (wrap_backend_error ''failed to get index: '') (ix_get m st boundary name))))"

section \<open>Lemmas\<close>

lemma trim_left_none: "list_all (\<lambda>w. \<not> prefix w s) ws \<Longrightarrow> trim_left ws s = s"
  by (subst trim_left.simps) (auto simp: find_None_iff list_all_iff split: option.splits dest: find_Some_iff [THEN iffD1])

lemma blanks_heads: "list_all (\<lambda>w. w \<noteq> [] \<and> \<not> is_digit (hd w) \<and> hd w \<noteq> CHR ''-'') blanks"
  by code_simp

lemma blanks_no_number:
  assumes "is_digit c \<or> c = CHR ''-''"
  shows "trim_left blanks (c # cs) = c # cs"
proof (rule trim_left_none)
  have "\<not> prefix w (c # cs)" if "w \<in> set blanks" for w
  proof -
    have "w \<noteq> []" "hd w \<noteq> c" using blanks_heads that assms by (auto simp: list_all_iff)
    then show ?thesis by (cases w) simp_all
  qed
  then show "list_all (\<lambda>w. \<not> prefix w (c # cs)) blanks" by (simp add: list_all_iff)
qed

lemma parseInt64_FormatInt [simp]:
  assumes "in_int64 i"
  shows "parseInt64 (FormatInt i) = Inr i"
proof (cases "i < 0")
  case True
  obtain c cs where ds: "nat_digits (nat (- i)) = c # cs" "is_digit c"
    using nat_digits_Cons by blast
  with True nat_digits_all [of "nat (- i)"] show ?thesis
    using ParseInt_FormatInt [OF assms]
    by (simp add: parseInt64_def FormatInt_def blanks_no_number list_all_iff takeWhile_eq_all_conv [THEN iffD2])
next
  case False
  obtain c cs where ds: "nat_digits (nat i) = c # cs" "is_digit c"
    using nat_digits_Cons by blast
  have "c \<noteq> CHR ''+''" "c \<noteq> CHR ''-''"
    using ds(2) by (auto simp: is_digit_def)
  with ds False nat_digits_all [of "nat i"] show ?thesis
    using ParseInt_FormatInt [OF assms]
    by (simp add: parseInt64_def FormatInt_def blanks_no_number list_all_iff takeWhile_eq_all_conv [THEN iffD2])
qed

definition error_class :: "goerror \<Rightarrow> Code option" where
  "error_class err = map_option fst (error_as err)"

lemma wrap_backend_error_class: "\<exists>c. error_class (wrap_backend_error msg err) = Some c \<and> c \<noteq> Unknown"
  by (cases "error_as err") (auto simp: wrap_backend_error_def error_class_def FromError_def)

lemma RequireBoundaryActive_class:
  "RequireBoundaryActive s b = Inl err \<Longrightarrow> error_class err = Some InvalidArgument \<or> error_class err = Some FailedPrecondition"
  by (auto simp: RequireBoundaryActive_def error_class_def split: if_splits sum.splits)

text \<open>A boundary passes the gate exactly when the gate is open or the boundary is valid and active.\<close>

lemma RequireBoundaryActive_iff:
  "RequireBoundaryActive s b = Inr () \<longleftrightarrow>
     (enforceBoundaryActivation s \<longrightarrow> ValidateName b = Inr () \<and> b \<in> activeBoundaries s)"
  by (auto simp: RequireBoundaryActive_def split: sum.splits)

lemma RequireBoundaryActive_closed:
  assumes "enforceBoundaryActivation s" "b \<notin> activeBoundaries s"
  shows "\<exists>err. RequireBoundaryActive s b = Inl err"
  using assms RequireBoundaryActive_iff [of s b] by (cases "RequireBoundaryActive s b") auto

text \<open>Activation opens the gate for its boundary, and never closes it for another one.\<close>

lemma ActivateBoundary_opens:
  "ActivateBoundary b s = (s', Inr ()) \<Longrightarrow> RequireBoundaryActive s' b = Inr ()"
  by (auto simp: ActivateBoundary_def RequireBoundaryActive_iff split: sum.splits)

lemma ActivateBoundary_mono:
  "ActivateBoundary b s = (s', res) \<Longrightarrow> RequireBoundaryActive s b' = Inr () \<Longrightarrow> RequireBoundaryActive s' b' = Inr ()"
  by (auto simp: ActivateBoundary_def RequireBoundaryActive_iff split: sum.splits)

lemma EnableBoundaryActivationGate_exact:
  "EnableBoundaryActivationGate bs NewEventStoreServer = (s', Inr ()) \<Longrightarrow>
     RequireBoundaryActive s' b = Inr () \<longleftrightarrow> ValidateName b = Inr () \<and> b \<in> set bs"
  by (auto simp: EnableBoundaryActivationGate_def RequireBoundaryActive_iff NewEventStoreServer_def split: sum.splits)

lemma authorizeRequest_denied:
  "authorizeRequest (Some u) (r # rs) = Inr () \<longleftrightarrow> set (User_Roles u) \<inter> set (r # rs) \<noteq> {}"
  by (auto simp: authorizeRequest_def list_ex_iff)

lemma SaveEventsV2_success:
  assumes "SaveEventsV2 be ts s user req st = (st', Inr w)"
  obtains r checks prepared tx gid where
    "req = Some r" "ConsistencyChecksFromObservations (SaveV2_Consistency r) = Inr checks"
    "RequireBoundaryActive s (SaveV2_Boundary r) = Inr ()"
    "prepareRequestedEventsForSave (SaveV2_Events r) = Inr prepared"
    "be_save be (snd st) prepared (SaveV2_Boundary r) checks = (snd st', Some (Inr (tx, gid)))"
    "\<exists>t. parseInt64 tx = Inr t \<and> w = \<lparr>Result_WriteId = WriteID t gid, Result_LogPosition = Position t gid\<rparr>"
  using assms
  by (fastforce simp: SaveEventsV2_def saveEventsV2Request_def validateSaveEventsV2Request_def saveEvents_def
      savePreparedWithMetrics_def Let_def split: sum.splits option.splits prod.splits if_splits)

end
