(* ===== verification/Sqlite_Backend.thy ===== *)
theory Sqlite_Backend
  imports Event_Store Sqlite_Save Sqlite_Read
begin

text \<open>
  The event-store API over the SQLite backend: the operations of \<open>backend\<close> are those of the SQLite
  saver and retriever. Here a save is flushed alone; the coordinator's interleavings are in the theory
  of the group commit.
\<close>

definition sqlite_submit ::
    "sqlite_env \<Rightarrow> goerror option \<Rightarrow> tx_faults \<Rightarrow> sqlite_saver \<Rightarrow> string \<Rightarrow> preparedSQLiteSave \<Rightarrow>
     sqlite_saver \<times> sqliteSaveResult result" where
  "sqlite_submit env takeErr fx st boundary prepared =
     (let (st', out) = executeBatch env takeErr fx boundary [prepared] st
      in (st', hd (live_results 1 (flush_of out))))"

definition sqlite_save ::
    "sqlite_env \<Rightarrow> goerror option \<Rightarrow> tx_faults \<Rightarrow> goerror option \<Rightarrow> sqlite_saver \<Rightarrow> PreparedEvent list \<Rightarrow> string \<Rightarrow>
     ConsistencyCheck list \<Rightarrow> sqlite_saver \<times> (string \<times> int64) result option" where
  "sqlite_save env takeErr fx ctxErr st events boundary checks =
     (let submit = sqlite_submit env takeErr fx st boundary;
          res = SavePrepared env st (\<lambda>p _. snd (submit p)) ctxErr events boundary checks
      in (if length events = 0 \<or> saver_pools st boundary = None then st
          else (case prepareSQLiteSave env None events checks of Inl _ \<Rightarrow> st | Inr p \<Rightarrow> fst (submit p)),
          Some res))"

definition sqlite_backend ::
    "sqlite_env \<Rightarrow> read_env \<Rightarrow> goerror option \<Rightarrow> tx_faults \<Rightarrow> goerror option \<Rightarrow> sqlite_saver backend" where
  "sqlite_backend env renv takeErr fx ctxErr =
     \<lparr>be_save = sqlite_save env takeErr fx ctxErr,
      be_get = (\<lambda>st req. GetBatch env renv (saver_pools st) (Some req)),
      be_latest = (\<lambda>st. SqliteGetLatestByCriteria env renv (saver_pools st)),
      be_write_context = Some (\<lambda>st req. GetWriteContext env renv (saver_pools st) (Some req))\<rparr>"

section \<open>Lemmas\<close>

lemma ParseObject_keys: "ParseObject t = Inr ob \<Longrightarrow> Object_fields ob = Some flds \<Longrightarrow> distinct_keys flds"
  using unmarshal_object_keys by (auto simp: ParseObject_def split: option.splits)

lemma prepareSQLiteSave_wf: "prepareSQLiteSave env ctx events checks = Inr p \<Longrightarrow> wf_request p"
  by (auto simp: prepareSQLiteSave_def wf_request_def prepareEventDocuments_def prepareEventDocument_def list_all_iff
      object_ok_def ParseObject_keys split: sum.splits option.splits)

lemma sqlite_save_committed:
  assumes "sqlite_save env takeErr fx ctxErr st events b checks = (st', Some (Inr (tx, gid)))" "saver_inv st"
  obtains p db now where "prepareSQLiteSave env None events checks = Inr p" "saver_pools st' b = Some db"
    "committed_save env now db p gid" "tx = FormatInt gid" "saver_inv st'"
proof -
  from assms(1) obtain p where p: "prepareSQLiteSave env None events checks = Inr p"
    and run: "fst (sqlite_submit env takeErr fx st b p) = st'"
    and res: "enqueue_result ctxErr (snd (sqlite_submit env takeErr fx st b p)) = Inr (tx, gid)"
    by (auto simp: sqlite_save_def SavePrepared_def enqueue_def Let_def split: if_splits option.splits sum.splits)
  obtain out where out: "executeBatch env takeErr fx b [p] st = (st', out)"
    using run by (auto simp: sqlite_submit_def split: prod.splits)
  with res have "snd (sqlite_submit env takeErr fx st b p) = hd (live_results 1 (flush_of out))"
    by (simp add: sqlite_submit_def)
  with res obtain o1 where o1: "out = Inr [o1]" "Result_err o1 = None" "Result_transactionID o1 = tx" "Result_globalID o1 = gid"
    by (auto simp: enqueue_result_def live_results_def flush_of_def length_Suc_conv
        split: sum.splits option.splits if_splits flush_result.splits)
  have wf: "list_all wf_request [p]" using prepareSQLiteSave_wf [OF p] by simp
  have ex: "sqlite_exec env b [p] st st' (Outcomes [o1])"
  proof -
    have "with_ctx [p] (\<lambda>_. Save_ctx_err p) = [p]" by (simp add: with_ctx_def)
    then show ?thesis using out o1(1) unfolding sqlite_exec_def flush_of_def
      by (intro exI [of _ takeErr] exI [of _ fx] exI [of _ "\<lambda>_. Save_ctx_err p"] exI [of _ out]) simp
  qed
  from sqlite_exec_inv [OF assms(2) wf ex] have inv: "saver_inv st'" .
  from sqlite_executor.exec_holds [OF assms(2) wf ex, of 0] o1 obtain db now where
    "saver_pools st' b = Some db" "committed_save env now db p gid" "tx = FormatInt gid"
    by (auto simp: save_holds_def)
  then show ?thesis using that p inv by blast
qed

lemma committed_bounds:
  assumes "committed_save env now db p gid" "store_inv db"
  shows "in_int64 gid \<and> 0 \<le> gid"
proof -
  from assms(2) obtain ns where "store_layout ns db" by (auto simp: store_inv_def)
  from log_end_bounds [OF this] show ?thesis
    using assms(1) by (auto simp: committed_save_def Let_def in_int64_def min_int64_def)
qed

text \<open>The event a prepared event is read back as.\<close>

definition reads_back :: "PreparedEvent \<Rightarrow> int64 \<Rightarrow> int64 \<Rightarrow> ReadEvent \<Rightarrow> bool" where
  "reads_back pe commit prepare e \<longleftrightarrow>
     Read_EventId e = PreparedEvent_EventId pe \<and> Read_EventType e = PreparedEvent_EventType pe \<and>
     Read_Data e = PreparedEvent_DataJSON pe \<and> Read_Metadata e = MetadataValue (PreparedEvent_MetadataJSON pe) \<and>
     Read_WriteId e = WriteID commit commit \<and> read_position e = Position commit prepare"

lemma prepared_document:
  assumes "PreparedEvent_DataJSON pe = Json (JObj ms)" "sorted_object ms"
  shows "Object_fields (Doc_object (prepareEventDocument pe)) = Some ms"
    "Doc_eventID (prepareEventDocument pe) = PreparedEvent_EventId pe"
    "Doc_eventType (prepareEventDocument pe) = PreparedEvent_EventType pe"
    "Doc_metadata (prepareEventDocument pe) = PreparedEvent_MetadataJSON pe"
  using assms by (simp_all add: prepareEventDocument_def ParseObject_def)

lemma committed_reads_back:
  assumes "prepareRequestedEventsForSave events = Inr prepared"
    "prepareSQLiteSave env None prepared checks = Inr p" "committed_save env now db p gid" "store_inv db"
    "parseSQLiteEventTime renv now = Inr t" "i < length prepared"
  shows "\<exists>d\<in>set (db_events db). \<exists>e. scanReadEventRow renv d = Inr e \<and>
    reads_back (prepared ! i) gid (gid - int (length prepared) + 1 + int i) e"
proof -
  let ?n = "length prepared" and ?first = "gid - int (length prepared) + 1"
  have ins: "Save_inserts p = map prepareEventDocument prepared"
    using assms(2) by (auto simp: prepareSQLiteSave_def prepareEventDocuments_def)
  have c: "int ?n \<le> gid" "gid \<le> log_end db" "stored_documents now (Save_inserts p) ?first (block_of db p gid)"
    using assms(3) by (simp_all add: committed_save_def Let_def ins)
  from assms(4) obtain ns where "store_layout ns db" by (auto simp: store_inv_def)
  from log_end_bounds [OF this] have bound: "gid + 1 \<le> max_int64" using c(2) by simp
  obtain ms where ms: "PreparedEvent_DataJSON (prepared ! i) = Json (JObj ms)" "sorted_object ms"
    "\<forall>k\<in>fst ` set ms. \<not> IsReservedKey k"
    using PreparedEvents_data [OF assms(1) nth_mem [OF assms(6)]] by blast
  have doc: "Save_inserts p ! i = prepareEventDocument (prepared ! i)" "length (Save_inserts p) = ?n"
    using assms(6) by (simp_all add: ins)
  have len: "length (block_of db p gid) = ?n" using c(3) doc(2) by (simp add: stored_documents_def)
  have "set (block_of db p gid) \<subseteq> set (db_events db)"
    unfolding block_of_def by (meson order_trans set_take_subset set_drop_subset)
  then have mem: "block_of db p gid ! i \<in> set (db_events db)" using len assms(6) by (simp add: subset_iff)
  have "i < length (Save_inserts p)" "1 \<le> ?first" "?first + int (length (Save_inserts p)) \<le> max_int64"
    using assms(6) c(1) bound by (simp_all add: doc(2))
  note scan = scan_stored [OF c(3) this, of ms renv t]
  have "\<exists>e. scanReadEventRow renv (block_of db p gid ! i) = Inr e \<and> reads_back (prepared ! i) gid (?first + int i) e"
    using scan ms assms(5) by (simp add: doc prepared_document [OF ms(1,2)] reads_back_def)
  then show ?thesis using mem by blast
qed

end
