(* ===== verification/Subscription_Drain.thy ===== *)
theory Subscription_Drain
  imports Store_Types
begin

text \<open>
  The delivery loop of a catch-up subscription (\<^verbatim>\<open>orisun/subscription_drain.go\<close>).

  The drain calls its context, its activity check, the backend and the handler; \<open>drain_world\<close> says
  what the call made at each tick returns, so that anything may change between two calls. The events
  the handler accepted are kept in \<open>drain_delivered\<close>. The loop may run forever when the log grows
  forever: it takes fuel, None is running out of it.
\<close>

section \<open>State and calls\<close>

record subscriptionDrain =
  drain_boundary :: string
  drain_query :: "Query option"
  drain_cursor :: "Position option"
  drain_initialized :: bool
  drain_pending :: bool
  drain_tick :: nat
  drain_delivered :: "ReadEvent list"

record drain_world =
  world_ctx :: "nat \<Rightarrow> goerror option"
  world_check :: "nat \<Rightarrow> goerror option"
  world_get :: "nat \<Rightarrow> GetEventsRequest \<Rightarrow> ReadEvent list result"
  world_handler :: "nat \<Rightarrow> ReadEvent \<Rightarrow> goerror option"

definition newSubscriptionDrain :: "string \<Rightarrow> Query option \<Rightarrow> Position option \<Rightarrow> subscriptionDrain" where
  "newSubscriptionDrain boundary query after =
     \<lparr>drain_boundary = boundary, drain_query = query, drain_cursor = after,
      drain_initialized = (after \<noteq> None), drain_pending = False, drain_tick = 0, drain_delivered = []\<rparr>"

definition wake :: "subscriptionDrain \<Rightarrow> subscriptionDrain" where
  "wake d = d\<lparr>drain_pending := True\<rparr>"

definition tick :: "subscriptionDrain \<Rightarrow> subscriptionDrain" where
  "tick d = d\<lparr>drain_tick := drain_tick d + 1\<rparr>"

definition checkActive :: "drain_world \<Rightarrow> subscriptionDrain \<Rightarrow> goerror option" where
  "checkActive w d =
     (case world_ctx w (drain_tick d) of Some err \<Rightarrow> Some err | None \<Rightarrow> world_check w (drain_tick d))"

fun validate_loop :: "Position option \<Rightarrow> nat \<Rightarrow> ReadEvent list \<Rightarrow> goerror option" where
  "validate_loop previous i [] = None"
| "validate_loop previous i (event # batch) =
     (if (case previous of
            None \<Rightarrow> False
          | Some p \<Rightarrow>
              \<not> positionValuesAfter (Read_CommitPosition event) (Read_PreparePosition event)
                  (CommitPosition p) (PreparePosition p) \<and>
              (i \<noteq> 0 \<or> Read_CommitPosition event \<noteq> CommitPosition p \<or>
               Read_PreparePosition event \<noteq> PreparePosition p))
      then Some (PlainError ''non-advancing position at batch index %d'')
      else validate_loop (Some (read_position event)) (i + 1) batch)"

definition validate :: "subscriptionDrain \<Rightarrow> ReadEvent list \<Rightarrow> nat \<Rightarrow> goerror option" where
  "validate d batch limit =
     (if length batch > limit then Some (PlainError ''backend returned %d events for limit %d'')
      else validate_loop (drain_cursor d) 0 batch)"

section \<open>Delivery\<close>

fun deliver_batch :: "drain_world \<Rightarrow> ReadEvent list \<Rightarrow> subscriptionDrain \<Rightarrow> subscriptionDrain \<times> goerror option" where
  "deliver_batch w [] d = (d, None)"
| "deliver_batch w (event # batch) d =
     (if drain_cursor d = Some (read_position event) then deliver_batch w batch d
      else
        (case checkActive w d of
           Some err \<Rightarrow> (tick d, Some err)
         | None \<Rightarrow>
             let d1 = tick d
             in (case world_handler w (drain_tick d1) event of
                   Some err \<Rightarrow>
                     (tick d1, Some (Coded Internal (''subscription event handler failed: '' @ error_text err)))
                 | None \<Rightarrow>
                     deliver_batch w batch
                       ((tick d1)\<lparr>drain_cursor := Some (read_position event),
                                  drain_delivered := drain_delivered d1 @ [event]\<rparr>))))"

definition drain_batch_size :: nat where
  "drain_batch_size = 100"

definition drain_request :: "subscriptionDrain \<Rightarrow> GetEventsRequest" where
  "drain_request d =
     (let req = \<lparr>Get_Query = drain_query d, Get_FromPosition = None, Get_Count = drain_batch_size,
                 Get_Direction = Direction_ASC, Get_Boundary = drain_boundary d\<rparr>
      in if \<not> drain_initialized d then req\<lparr>Get_Direction := Direction_DESC, Get_Count := 1\<rparr>
         else req\<lparr>Get_FromPosition := drain_cursor d\<rparr>)"

fun drain :: "nat \<Rightarrow> drain_world \<Rightarrow> subscriptionDrain \<Rightarrow> (subscriptionDrain \<times> goerror option) option" where
  "drain 0 w d = None"
| "drain (Suc fuel) w d =
     (case checkActive w d of
        Some err \<Rightarrow> Some (tick d, Some err)
      | None \<Rightarrow>
          let d1 = tick d; req = drain_request d1; initial = \<not> drain_initialized d1; d2 = tick d1
          in (case world_get w (drain_tick d1) req of
                Inl err \<Rightarrow>
                  (case world_ctx w (drain_tick d2) of
                     Some ctxErr \<Rightarrow> Some (d2, Some ctxErr)
                   | None \<Rightarrow> Some (d2, Some (Coded Internal (''failed to get subscription events: '' @ error_text err))))
              | Inr batch \<Rightarrow>
                  (case validate d2 batch (Get_Count req) of
                     Some err \<Rightarrow> Some (d2, Some (Coded Internal (''invalid subscription batch: '' @ error_text err)))
                   | None \<Rightarrow>
                       (case deliver_batch w batch d2 of
                          (d3, Some err) \<Rightarrow> Some (d3, Some err)
                        | (d3, None) \<Rightarrow>
                            let d4 = d3\<lparr>drain_initialized := True\<rparr>
                            in if length batch = 0 \<or> (\<not> initial \<and> length batch < drain_batch_size)
                               then Some (d4, None) else drain fuel w d4))))"

text \<open>One round of \<open>run\<close>: a pending wake-up is consumed before the log is read.\<close>

definition run_round ::
    "nat \<Rightarrow> drain_world \<Rightarrow> subscriptionDrain \<Rightarrow> (subscriptionDrain \<times> goerror option) option" where
  "run_round fuel w d =
     (case world_ctx w (drain_tick d) of
        Some err \<Rightarrow> Some (tick d, Some err)
      | None \<Rightarrow>
          if \<not> drain_pending d then Some (tick d, None)
          else drain fuel w ((tick d)\<lparr>drain_pending := False\<rparr>))"

section \<open>Cursors\<close>

definition after :: "Position option \<Rightarrow> Position \<Rightarrow> bool" where
  "after c p = (case c of None \<Rightarrow> True | Some q \<Rightarrow> q < p)"

abbreviation pending_events :: "Position option \<Rightarrow> ReadEvent list \<Rightarrow> ReadEvent list" where
  "pending_events c es \<equiv> filter (\<lambda>e. after c (read_position e)) es"

abbreviation between_events :: "Position option \<Rightarrow> Position option \<Rightarrow> ReadEvent list \<Rightarrow> ReadEvent list" where
  "between_events s c es \<equiv> filter (\<lambda>e. after s (read_position e) \<and> \<not> after c (read_position e)) es"

lemma pending_events_tl:
  assumes "sorted_wrt (<) (map read_position es)" "pending_events c es = e # rest"
  shows "pending_events (Some (read_position e)) es = rest"
    and "after s (read_position e) \<Longrightarrow>
      between_events s (Some (read_position e)) es = between_events s c es @ [e]"
proof -
  from assms(2) obtain xs ys where es: "es = xs @ e # ys" "\<forall>x\<in>set xs. \<not> after c (read_position x)"
    "after c (read_position e)" "rest = pending_events c ys"
    by (auto simp: filter_eq_Cons_iff)
  have lt: "\<forall>x\<in>set xs. read_position x < read_position e" "\<forall>y\<in>set ys. read_position e < read_position y"
    using assms(1) unfolding es(1) by (auto simp: sorted_wrt_append)
  have ys: "after c (read_position y)" if "y \<in> set ys" for y
    using es(3) lt(2) that by (auto simp: after_def split: option.splits intro: less_trans)
  then have "pending_events c ys = ys" by (intro filter_True) simp
  moreover have "pending_events (Some (read_position e)) ys = ys"
    using lt(2) by (intro filter_True) (simp add: after_def)
  moreover have "pending_events (Some (read_position e)) xs = []"
    using lt(1) by (auto simp: filter_empty_conv after_def)
  ultimately show "pending_events (Some (read_position e)) es = rest"
    using es(1,4) by (simp add: after_def)
  assume s: "after s (read_position e)"
  have "between_events s (Some (read_position e)) xs = between_events s c xs"
    using es(2) lt(1) by (intro filter_cong) (auto simp: after_def)
  moreover have "between_events s (Some (read_position e)) ys = []" "between_events s c ys = []"
    using lt(2) ys by (auto simp: filter_empty_conv after_def)
  ultimately show "between_events s (Some (read_position e)) es = between_events s c es @ [e]"
    using es(1,3) s by (simp add: after_def)
qed

section \<open>What the drain relies on of a backend\<close>

text \<open>
  The matching events at each tick form a log that only grows at its end, with increasing positions,
  and a successful read returns the first events from the requested position, inclusively.
\<close>

locale page_log =
  fixes log :: "nat \<Rightarrow> ReadEvent list" and w :: drain_world and query :: "Query option" and boundary :: string
  assumes log_grows: "m \<le> n \<Longrightarrow> \<exists>es. log n = log m @ es"
    and log_sorted: "sorted_wrt (<) (map read_position (log n))"
    and get_page: "Get_Query req = query \<Longrightarrow> Get_Boundary req = boundary \<Longrightarrow> Get_Direction req = Direction_ASC \<Longrightarrow>
      Get_Count req = drain_batch_size \<Longrightarrow> world_get w n req = Inr batch \<Longrightarrow>
      batch = take drain_batch_size
        (filter (\<lambda>e. case Get_FromPosition req of None \<Rightarrow> True | Some p \<Rightarrow> p \<le> read_position e) (log n))"
begin

text \<open>
  The drain has delivered exactly the matching events after the start and up to its cursor, in order.
\<close>

definition drained :: "Position option \<Rightarrow> ReadEvent list \<Rightarrow> subscriptionDrain \<Rightarrow> bool" where
  "drained s old d \<longleftrightarrow>
     drain_initialized d \<and> drain_query d = query \<and> drain_boundary d = boundary \<and>
     drain_delivered d = old @ between_events s (drain_cursor d) (log (drain_tick d)) \<and>
     (drain_cursor d = s \<or> (\<exists>e\<in>set (log (drain_tick d)). drain_cursor d = Some (read_position e) \<and> after s (read_position e)))"

lemma grown_between:
  assumes "log n = log m @ es" "c = s \<or> (\<exists>e\<in>set (log m). c = Some (read_position e))"
  shows "between_events s c (log n) = between_events s c (log m)"
proof -
  have "\<forall>x\<in>set (log m). \<forall>y\<in>set es. read_position x < read_position y"
    using log_sorted [of n] unfolding assms(1) by (auto simp: sorted_wrt_append)
  then have "between_events s c es = []"
    using assms(2) by (auto simp: filter_empty_conv after_def)
  then show ?thesis by (simp add: assms(1))
qed

lemma drained_later:
  assumes "drained s old d" "drain_tick d \<le> n"
  shows "drained s old (d\<lparr>drain_tick := n\<rparr>)"
proof -
  obtain es where es: "log n = log (drain_tick d) @ es" using log_grows [OF assms(2)] by blast
  have "between_events s (drain_cursor d) (log n) = between_events s (drain_cursor d) (log (drain_tick d))"
    using assms(1) by (intro grown_between [OF es]) (auto simp: drained_def)
  then show ?thesis using assms(1) by (auto simp: drained_def es)
qed

lemma drained_tick: "drained s old d \<Longrightarrow> drained s old (tick d)"
  using drained_later [of s old d "drain_tick d + 1"] by (simp add: tick_def)

text \<open>Delivering the next pending event advances the cursor over it.\<close>

lemma drained_deliver:
  assumes "drained s old d" "n \<le> drain_tick d" "pending_events (drain_cursor d) (log n) = e # rest"
  shows "drained s old (d\<lparr>drain_cursor := Some (read_position e), drain_delivered := drain_delivered d @ [e]\<rparr>)"
    "pending_events (Some (read_position e)) (log n) = rest"
proof -
  obtain es where es: "log (drain_tick d) = log n @ es" using log_grows [OF assms(2)] by blast
  then obtain rest' where next': "pending_events (drain_cursor d) (log (drain_tick d)) = e # rest'"
    using assms(3) by simp
  have mem: "e \<in> set (log (drain_tick d))" "after (drain_cursor d) (read_position e)"
    using next' by (auto simp: filter_eq_Cons_iff)
  have aft: "after s (read_position e)"
    using assms(1) mem(2) by (auto simp: drained_def after_def split: option.splits intro: less_trans)
  show "pending_events (Some (read_position e)) (log n) = rest"
    by (rule pending_events_tl(1) [OF log_sorted assms(3)])
  show "drained s old (d\<lparr>drain_cursor := Some (read_position e), drain_delivered := drain_delivered d @ [e]\<rparr>)"
    using assms(1) pending_events_tl(2) [OF log_sorted next' aft] mem(1) aft by (auto simp: drained_def)
qed

lemma deliver_pending:
  assumes "deliver_batch w batch d = (d', err)" "drained s old d" "n \<le> drain_tick d"
    "batch = take k (pending_events (drain_cursor d) (log n))"
  shows "drained s old d' \<and> n \<le> drain_tick d' \<and>
    (err = None \<longrightarrow> pending_events (drain_cursor d') (log n) = drop k (pending_events (drain_cursor d) (log n)))"
  using assms
proof (induction batch arbitrary: d k)
  case Nil
  then have "k = 0 \<or> pending_events (drain_cursor d) (log n) = []" by (metis take_eq_Nil)
  then have "drop k (pending_events (drain_cursor d) (log n)) = pending_events (drain_cursor d) (log n)" by auto
  then show ?case using Nil.prems(1-3) by simp
next
  case (Cons e batch)
  from Cons.prems(4) obtain rest k' where rest: "pending_events (drain_cursor d) (log n) = e # rest" "k = Suc k'" "batch = take k' rest"
    by (cases k; cases "pending_events (drain_cursor d) (log n)") auto
  have "after (drain_cursor d) (read_position e)" using rest(1) by (auto simp: filter_eq_Cons_iff)
  then have fresh: "drain_cursor d \<noteq> Some (read_position e)" by (auto simp: after_def)
  let ?t = "tick (tick d)"
  have t: "drained s old ?t" using Cons.prems(2) by (intro drained_tick)
  have le: "n \<le> drain_tick ?t" using Cons.prems(3) by (simp add: tick_def)
  have cur: "drain_cursor ?t = drain_cursor d" by (simp add: tick_def)
  from drained_deliver [OF t le rest(1) [folded cur]]
  have step: "drained s old (?t\<lparr>drain_cursor := Some (read_position e), drain_delivered := drain_delivered ?t @ [e]\<rparr>)"
    "batch = take k' (pending_events (Some (read_position e)) (log n))" using rest(3) by simp_all
  show ?case
  proof (cases "checkActive w d = None \<and> world_handler w (drain_tick (tick d)) e = None")
    case True
    then have "deliver_batch w batch (?t\<lparr>drain_cursor := Some (read_position e),
        drain_delivered := drain_delivered ?t @ [e]\<rparr>) = (d', err)"
      using Cons.prems(1) fresh by (simp add: Let_def tick_def)
    note ih = Cons.IH [OF this step(1), of k']
    have "drop k (pending_events (drain_cursor d) (log n)) = drop k' rest" unfolding rest(1,2) by simp
    moreover have "pending_events (Some (read_position e)) (log n) = rest"
      by (rule drained_deliver(2) [OF t le rest(1) [folded cur]])
    moreover have "n \<le> drain_tick (?t\<lparr>drain_cursor := Some (read_position e),
        drain_delivered := drain_delivered ?t @ [e]\<rparr>)" using le by simp
    ultimately show ?thesis using ih step(2) by simp
  next
    case False
    then have "(d' = tick d \<or> d' = ?t) \<and> err \<noteq> None"
    proof (cases "checkActive w d")
      case None
      with False obtain e' where "world_handler w (drain_tick (tick d)) e = Some e'" by auto
      then show ?thesis using Cons.prems(1) fresh None by (auto simp: Let_def)
    next
      case (Some a)
      then have "d' = tick d" "err = Some a" using Cons.prems(1) fresh by simp_all
      then show ?thesis by simp
    qed
    moreover have "n \<le> drain_tick (tick d)" using Cons.prems(3) by (simp add: tick_def)
    ultimately show ?thesis using drained_tick [OF Cons.prems(2)] t le by auto
  qed
qed

text \<open>The rows of an inclusive page, without the row at the cursor itself.\<close>

lemma page_skip:
  fixes w' :: drain_world and n m :: nat and c :: "Position option"
  assumes "drain_cursor d = c"
  defines "page \<equiv> filter (\<lambda>e. case c of None \<Rightarrow> True | Some p \<Rightarrow> p \<le> read_position e) (log n)"
  shows "\<exists>k. deliver_batch w' (take m page) d = deliver_batch w' (take k (pending_events c (log n))) d \<and>
    m \<le> Suc k \<and> (length (take m page) < m \<longrightarrow> drop k (pending_events c (log n)) = []) \<and>
    (validate_loop c 0 (take m page) = None) \<and> length (take m page) \<le> Suc (length (pending_events c (log n)))"
proof -
  have after: "positionValuesAfter (Read_CommitPosition e) (Read_PreparePosition e) (CommitPosition p) (PreparePosition p)
      \<longleftrightarrow> p < read_position e" for e p
    by (cases p) (auto simp: positionValuesAfter_def Position_less_simps)
  have valid: "validate_loop (Some p) i es = None"
    if "sorted_wrt (<) (map read_position es)" "\<forall>e\<in>set es. p < read_position e" for p i es
    using that
  proof (induction es arbitrary: p i)
    case (Cons e es)
    then show ?case by (auto simp: after)
  qed simp
  have srt: "sorted_wrt (<) (map read_position (take j (filter P (log n))))" for j P
    using log_sorted [of n] by (simp add: sorted_wrt_map sorted_wrt_filter sorted_wrt_take)
  show ?thesis
  proof (cases c)
    case None
    have "validate_loop None 0 es = None" if "sorted_wrt (<) (map read_position es)" for es
      using that valid by (cases es) auto
    then show ?thesis using None srt [of m "\<lambda>_. True"]
      by (intro exI [of _ m]) (simp add: after_def page_def)
  next
    case (Some p)
    let ?pend = "filter (\<lambda>e. p < read_position e) (log n)"
    have page: "page = filter (\<lambda>e. p \<le> read_position e) (log n)" by (simp add: page_def Some)
    have pend_valid: "validate_loop (Some p) i (take j ?pend) = None" for i j
      using srt [of j "\<lambda>e. p < read_position e"] by (intro valid) (auto dest: in_set_takeD)
    show ?thesis
    proof (cases "\<exists>e\<in>set (log n). read_position e = p")
      case True
      then obtain xs e ys where es: "log n = xs @ e # ys" "read_position e = p" by (metis split_list)
      have lt: "\<forall>x\<in>set xs. read_position x < p" "\<forall>y\<in>set ys. p < read_position y"
        using log_sorted [of n] unfolding es(1) es(2) [symmetric] by (auto simp: sorted_wrt_append)
      have "filter (\<lambda>e. p \<le> read_position e) xs = []" "filter (\<lambda>e. p < read_position e) xs = []"
        using lt(1) by (auto simp: filter_empty_conv)
      moreover have "filter (\<lambda>e. p \<le> read_position e) ys = ys" "filter (\<lambda>e. p < read_position e) ys = ys"
        using lt(2) by (auto intro!: filter_True)
      ultimately have eq: "page = e # ys" "?pend = ys" using es page by simp_all
      have "validate_loop (Some p) 0 (take m page) = None"
        using pend_valid [of 1 "m - 1"] eq es(2) by (cases m) auto
      then show ?thesis using Some assms(1) es(2) eq
        by (intro exI [of _ "m - 1"]) (cases m; simp add: after_def)
    next
      case False
      then have "page = ?pend" unfolding page by (intro filter_cong) auto
      then show ?thesis using Some pend_valid [of 0 m] by (intro exI [of _ m]) (simp add: after_def)
    qed
  qed
qed

lemma drain_request_page:
  assumes "drained s old d" "world_get w n (drain_request d) = Inr batch"
  shows "batch = take drain_batch_size (filter (\<lambda>e. case drain_cursor d of None \<Rightarrow> True | Some p \<Rightarrow> p \<le> read_position e) (log n))"
  using get_page [OF _ _ _ _ assms(2)] assms(1) by (simp add: drained_def drain_request_def Let_def)

text \<open>Whatever fails and however the log grows, the drain delivers every event once and in order.\<close>

lemma drain_safe:
  assumes "drain fuel w d = Some (d', err)" "drained s old d"
  shows "drained s old d' \<and>
    (err = None \<longrightarrow> (\<exists>n\<le>drain_tick d'. drain_tick d \<le> n \<and> pending_events (drain_cursor d') (log n) = []))"
  using assms
proof (induction fuel arbitrary: d)
  case (Suc fuel)
  show ?case
  proof (cases "checkActive w d")
    case (Some e)
    then show ?thesis using Suc.prems drained_tick by auto
  next
    case None
    let ?d1 = "tick d" and ?d2 = "tick (tick d)"
    let ?n = "drain_tick ?d1"
    have dr: "drained s old ?d1" "drained s old ?d2" using Suc.prems(2) drained_tick by blast+
    have init: "drain_initialized ?d1" using dr(1) by (simp add: drained_def)
    show ?thesis
    proof (cases "world_get w ?n (drain_request ?d1)")
      case (Inl e)
      then have "d' = ?d2 \<and> err \<noteq> None"
        using Suc.prems(1) None
        by (cases "world_ctx w (drain_tick ?d2)") (auto simp: Let_def intro: sym)
      then show ?thesis using dr(2) by auto
    next
      case (Inr batch)
      note page = drain_request_page [OF dr(1) Inr]
      have cur: "drain_cursor ?d2 = drain_cursor ?d1" by (simp add: tick_def)
      obtain k where k: "deliver_batch w batch ?d2 = deliver_batch w (take k (pending_events (drain_cursor ?d1) (log ?n))) ?d2"
        "length batch < drain_batch_size \<longrightarrow> drop k (pending_events (drain_cursor ?d1) (log ?n)) = []"
        using page_skip [OF cur, of w drain_batch_size ?n] unfolding page [symmetric] by blast
      obtain d3 err3 where del: "deliver_batch w batch ?d2 = (d3, err3)" by fastforce
      have le: "?n \<le> drain_tick ?d2" by (simp add: tick_def)
      have d3: "drained s old d3" "?n \<le> drain_tick d3"
        "err3 = None \<longrightarrow> pending_events (drain_cursor d3) (log ?n) = drop k (pending_events (drain_cursor ?d1) (log ?n))"
        using deliver_pending [OF del [unfolded k(1)] dr(2) le, of k] cur by simp_all
      let ?d4 = "d3\<lparr>drain_initialized := True\<rparr>"
      have d4: "drained s old ?d4" using d3(1) by (simp add: drained_def)
      have cases: "(d' = ?d2 \<and> err \<noteq> None) \<or> (d' = d3 \<and> err = err3 \<and> err \<noteq> None) \<or>
          (err3 = None \<and> (length batch < drain_batch_size \<and> d' = ?d4 \<and> err = None \<or> drain fuel w ?d4 = Some (d', err)))"
        using Suc.prems(1) None Inr del init
        by (cases "validate ?d2 batch (Get_Count (drain_request ?d1))"; cases err3)
          (auto simp: Let_def drain_batch_size_def intro: sym split: if_splits)
      have later: "drain_tick d \<le> drain_tick ?d4" using d3(2) by (simp add: tick_def)
      from cases show ?thesis
      proof (elim disjE conjE)
        assume "err3 = None" "length batch < drain_batch_size" "d' = ?d4" "err = None"
        then show ?thesis using d4 d3 k(2) by (intro conjI) (auto intro!: exI [of _ ?n] simp: tick_def)
      next
        assume "drain fuel w ?d4 = Some (d', err)"
        from Suc.IH [OF this d4] later show ?thesis by (meson order_trans)
      qed (use dr(2) d3(1) in auto)
    qed
  qed
qed simp

text \<open>Without errors on a log at rest, the drain returns and has delivered everything.\<close>

lemma deliver_no_error:
  assumes "\<And>n. world_ctx w n = None" "\<And>n. world_check w n = None" "\<And>n e. world_handler w n e = None"
  shows "snd (deliver_batch w batch d) = None"
  using assms by (induction batch arbitrary: d) (simp_all add: checkActive_def Let_def)

lemma drain_complete:
  assumes "\<And>n. world_ctx w n = None" "\<And>n. world_check w n = None" "\<And>n e. world_handler w n e = None"
    "\<And>n req. Get_Query req = query \<Longrightarrow> Get_Boundary req = boundary \<Longrightarrow> \<exists>batch. world_get w n req = Inr batch"
    "drained s old d" "\<And>n. drain_tick d \<le> n \<Longrightarrow> log n = L" "length (pending_events (drain_cursor d) L) < fuel"
  shows "\<exists>d'. drain fuel w d = Some (d', None) \<and> drain_delivered d' = old @ pending_events s L"
  using assms(5-)
proof (induction fuel arbitrary: d)
  case (Suc fuel)
  let ?d1 = "tick d" and ?d2 = "tick (tick d)"
  let ?n = "drain_tick ?d1"
  have dr: "drained s old ?d1" "drained s old ?d2" using Suc.prems(1) drained_tick by blast+
  have L: "log ?n = L" by (rule Suc.prems(2)) (simp add: tick_def)
  have act: "checkActive w d = None" using assms(1,2) by (simp add: checkActive_def)
  have init: "drain_initialized ?d1" using dr(1) by (simp add: drained_def)
  have lim: "Get_Count (drain_request ?d1) = drain_batch_size"
    using init by (simp add: drain_request_def Let_def)
  from assms(4) [of "drain_request ?d1" ?n] dr(1) obtain batch where
    get: "world_get w ?n (drain_request ?d1) = Inr batch" by (auto simp: drained_def drain_request_def Let_def)
  note page = drain_request_page [OF dr(1) get]
  have cur: "drain_cursor ?d2 = drain_cursor ?d1" by (simp add: tick_def)
  let ?pend = "pending_events (drain_cursor ?d1) (log ?n)"
  obtain k where k: "deliver_batch w batch ?d2 = deliver_batch w (take k ?pend) ?d2" "drain_batch_size \<le> Suc k"
    "length batch < drain_batch_size \<longrightarrow> drop k ?pend = []"
    "validate_loop (drain_cursor ?d1) 0 batch = None" "length batch \<le> Suc (length ?pend)"
    using page_skip [OF cur, of w drain_batch_size ?n] unfolding page [symmetric] by blast
  have valid: "validate ?d2 batch (Get_Count (drain_request ?d1)) = None"
    using k(4) cur lim page by (simp add: validate_def)
  obtain d3 where del: "deliver_batch w batch ?d2 = (d3, None)"
    using deliver_no_error [OF assms(1-3), of batch ?d2] by (metis prod.exhaust_sel)
  have le: "?n \<le> drain_tick ?d2" by (simp add: tick_def)
  have d3: "drained s old d3" "?n \<le> drain_tick d3" "pending_events (drain_cursor d3) L = drop k ?pend"
    using deliver_pending [OF del [unfolded k(1)] dr(2) le, of k] cur L by simp_all
  let ?d4 = "d3\<lparr>drain_initialized := True\<rparr>"
  have d4: "drained s old ?d4" using d3(1) by (simp add: drained_def)
  have run: "drain (Suc fuel) w d =
      (if length batch = 0 \<or> length batch < drain_batch_size then Some (?d4, None) else drain fuel w ?d4)"
    using act get valid del init by (simp add: Let_def)
  show ?case
  proof (cases "length batch < drain_batch_size")
    case True
    then have none: "pending_events (drain_cursor d3) L = []" using d3(3) k(3) by simp
    have "log (drain_tick d3) = L" using d3(2) by (intro Suc.prems(2)) (simp add: tick_def)
    then have "drain_delivered ?d4 = old @ between_events s (drain_cursor d3) L"
      using d3(1) by (simp add: drained_def)
    also have "between_events s (drain_cursor d3) L = pending_events s L"
      using none by (intro filter_cong) (auto simp: filter_empty_conv)
    finally show ?thesis unfolding run using True by simp
  next
    case False
    have "0 < k" using k(2) by (simp add: drain_batch_size_def)
    moreover have "?pend \<noteq> []" using False k(5) by (auto simp: drain_batch_size_def)
    ultimately have "length (drop k ?pend) < length ?pend" by (cases "?pend") auto
    moreover have "length ?pend = length (pending_events (drain_cursor d) L)" using L by (simp add: tick_def)
    ultimately have "length (pending_events (drain_cursor ?d4) L) < fuel"
      using Suc.prems(3) d3(3) by simp
    moreover have "log n = L" if "drain_tick ?d4 \<le> n" for n
      using that d3(2) by (intro Suc.prems(2)) (simp add: tick_def)
    ultimately have "\<exists>d'. drain fuel w ?d4 = Some (d', None) \<and> drain_delivered d' = old @ pending_events s L"
      by (intro Suc.IH [OF d4]) auto
    then show ?thesis unfolding run using False by (auto simp: drain_batch_size_def)
  qed
qed simp

end

end
