(* ===== verification/Sqlite_Subscription.thy ===== *)
theory Sqlite_Subscription
  imports Subscription_Drain Sqlite_Read Sqlite_Save
begin

text \<open>
  A subscription over the SQLite store. The database the drain reads at each tick is the one after
  any number of group-commit transactions, with any requests and faults; \<open>sub_start\<close> of them precede
  the subscription. The contract of the drain's backend holds of \<open>GetBatch\<close> on it.
\<close>

section \<open>A store that grows while it is read\<close>

fun sqlite_history ::
    "sqlite_env \<Rightarrow> (nat \<Rightarrow> tx_faults) \<Rightarrow> (nat \<Rightarrow> preparedSQLiteSave list) \<Rightarrow> nat \<Rightarrow> sqlite_db" where
  "sqlite_history env fx reqs 0 = empty_db"
| "sqlite_history env fx reqs (Suc n) =
     fst (executeTransaction env (fx n) (filter wf_request (reqs n)) (sqlite_history env fx reqs n))"

record sqlite_subscription =
  sub_env :: sqlite_env
  sub_read :: read_env
  sub_faults :: "nat \<Rightarrow> tx_faults"
  sub_saves :: "nat \<Rightarrow> preparedSQLiteSave list"
  sub_start :: nat
  sub_ctx :: "nat \<Rightarrow> goerror option"
  sub_check :: "nat \<Rightarrow> goerror option"
  sub_handler :: "nat \<Rightarrow> ReadEvent \<Rightarrow> goerror option"

abbreviation sub_db :: "sqlite_subscription \<Rightarrow> nat \<Rightarrow> sqlite_db" where
  "sub_db x n \<equiv> sqlite_history (sub_env x) (sub_faults x) (sub_saves x) (sub_start x + n)"

definition sqlite_world :: "sqlite_subscription \<Rightarrow> string \<Rightarrow> drain_world" where
  "sqlite_world x b =
     \<lparr>world_ctx = sub_ctx x, world_check = sub_check x,
      world_get = (\<lambda>n req. GetBatch (sub_env x) (sub_read x) [b \<mapsto> sub_db x n] (Some req)),
      world_handler = sub_handler x\<rparr>"

text \<open>The event of a row; a row whose time cannot be read fails the whole read.\<close>

definition row_event :: "read_env \<Rightarrow> document \<Rightarrow> ReadEvent" where
  "row_event renv d =
     \<lparr>Read_WriteId = column_text d ''__writeId'', Read_EventId = column_text d ''__eventId'',
      Read_EventType = column_text d ''__eventType'', Read_Data = WithoutStorageEnvelope (Json (JObj d)),
      Read_Metadata = metadata_column d, Read_CommitPosition = transaction_id d,
      Read_PreparePosition = global_id d,
      Read_DateCreated = (case parseSQLiteEventTime renv (column_text d ''__dateCreated'') of Inr t \<Rightarrow> t | Inl _ \<Rightarrow> 0)\<rparr>"

definition row_selected :: "sqlite_env \<Rightarrow> Query option \<Rightarrow> document \<Rightarrow> bool" where
  "row_selected env query d =
     (case query_criteria_sql env query of Inr (Some cond) \<Rightarrow> env_where env cond d | _ \<Rightarrow> True)"

definition matching_events :: "sqlite_subscription \<Rightarrow> Query option \<Rightarrow> nat \<Rightarrow> ReadEvent list" where
  "matching_events x query n =
     map (row_event (sub_read x)) (filter (row_selected (sub_env x) query) (db_events (sub_db x n)))"

section \<open>The contract\<close>

lemma history_inv: "store_inv (sqlite_history env fx reqs n)"
proof (induction n)
  case (Suc n)
  then show ?case
    using executeTransaction_inv [OF _ Suc, of env "fx n" "filter wf_request (reqs n)"]
    by (simp add: list_all_iff prod_eq_iff)
qed (simp add: empty_db_inv)

lemma history_step:
  "\<exists>es. db_events (sqlite_history env fx reqs (Suc n)) = db_events (sqlite_history env fx reqs n) @ es"
proof -
  obtain db' out where "executeTransaction env (fx n) (filter wf_request (reqs n)) (sqlite_history env fx reqs n) = (db', out)"
    by fastforce
  with executeTransaction_extends [OF this history_inv] show ?thesis
    by (simp add: list_all_iff db_extends_def)
qed

lemma history_grows:
  "m \<le> n \<Longrightarrow> \<exists>es. db_events (sqlite_history env fx reqs n) = db_events (sqlite_history env fx reqs m) @ es"
proof (induction n rule: dec_induct)
  case (step n)
  then show ?case using history_step [of env fx reqs n] by fastforce
qed simp

lemma row_event_scan: "scanReadEventRow renv d = Inr e \<Longrightarrow> e = row_event renv d"
  by (auto simp: scanReadEventRow_def row_event_def)

lemma row_event_position: "read_position (row_event renv d) = position_of d"
  by (simp add: row_event_def position_of_def)

lemma mapR_rows: "mapR (scanReadEventRow renv) rows = Inr es \<Longrightarrow> es = map (row_event renv) rows"
  by (induction rows arbitrary: es) (auto simp: row_event_scan)

lemma GetBatch_rows:
  assumes "GetBatch env renv pools (Some req) = Inr batch"
  obtains cond db where "pools (Get_Boundary req) = Some db" "query_criteria_sql env (Get_Query req) = Inr cond"
    "batch = map (row_event renv)
       (select_events env db cond (Get_FromPosition req) (Get_Direction req) (page_size (Get_Count req)))"
  using assms
  by (auto simp: GetBatch_def map_errorR_def split: option.splits sum.splits dest!: mapR_rows)

lemma matching_grows: "m \<le> n \<Longrightarrow> \<exists>es. matching_events x query n = matching_events x query m @ es"
  using history_grows [of "sub_start x + m" "sub_start x + n" "sub_env x" "sub_faults x" "sub_saves x"] by (auto simp: matching_events_def)

lemma matching_sorted: "sorted_wrt (<) (map read_position (matching_events x query n))"
proof -
  obtain ns where "store_layout ns (sub_db x n)"
    using history_inv [of "sub_env x" "sub_faults x" "sub_saves x" "sub_start x + n"] by (auto simp: store_inv_def)
  from sorted_filter_rows [OF store_layout_sorted [OF this]] show ?thesis
    by (simp add: matching_events_def comp_def row_event_position)
qed

lemma matching_page:
  assumes get: "GetBatch (sub_env x) (sub_read x) [boundary \<mapsto> sub_db x n] (Some req) = Inr batch"
    and req: "Get_Query req = query" "Get_Direction req = Direction_ASC" "Get_Count req = k" "0 < k" "k \<le> MaxReadBatchSize"
  shows "batch = take k (filter (\<lambda>e. case Get_FromPosition req of None \<Rightarrow> True | Some p \<Rightarrow> p \<le> read_position e)
    (matching_events x query n))"
proof -
  let ?db = "sub_db x n"
  let ?from = "\<lambda>p. case Get_FromPosition req of None \<Rightarrow> True | Some q \<Rightarrow> q \<le> p"
  obtain cond where cond: "query_criteria_sql (sub_env x) query = Inr cond"
    and batch: "batch = map (row_event (sub_read x))
       (select_events (sub_env x) ?db cond (Get_FromPosition req) Direction_ASC (page_size k))"
    using get req by (auto elim!: GetBatch_rows split: if_splits)
  obtain ns where lay: "store_layout ns ?db"
    using history_inv [of "sub_env x" "sub_faults x" "sub_saves x" "sub_start x + n"] by (auto simp: store_inv_def)
  have size: "page_size k = k" using req(4,5) by (simp add: page_size_def)
  have sel: "(case cond of None \<Rightarrow> True | Some w \<Rightarrow> env_where (sub_env x) w d) = row_selected (sub_env x) query d" for d
    by (simp add: row_selected_def cond split: option.splits)
  let ?rows = "filter (\<lambda>d. row_selected (sub_env x) query d \<and> ?from (position_of d)) (db_events ?db)"
  have "sort_key position_of ?rows = ?rows"
    by (intro sort_key_sorted_rows sorted_filter_rows store_layout_sorted [OF lay])
  then have rows: "select_events (sub_env x) ?db cond (Get_FromPosition req) Direction_ASC (page_size k) = take k ?rows"
    by (simp add: select_events_def sel size cong: option.case_cong)
  have "filter (\<lambda>e. ?from (read_position e)) (matching_events x query n) = map (row_event (sub_read x)) ?rows"
    by (simp add: matching_events_def filter_map comp_def row_event_position conj_commute cong: option.case_cong)
  then show ?thesis by (simp add: batch rows take_map)
qed

interpretation sqlite_pages:
  page_log "matching_events x query" "sqlite_world x boundary" query boundary for x query boundary
proof
  show "\<exists>es. matching_events x query n = matching_events x query m @ es" if "m \<le> n" for m n :: nat
    by (rule matching_grows [OF that])
  show "sorted_wrt (<) (map read_position (matching_events x query n))" for n
    by (rule matching_sorted)
  show "batch = take drain_batch_size (filter (\<lambda>e. case Get_FromPosition req of None \<Rightarrow> True | Some p \<Rightarrow> p \<le> read_position e)
      (matching_events x query n))"
    if "Get_Query req = query" "Get_Direction req = Direction_ASC" "Get_Count req = drain_batch_size"
      "world_get (sqlite_world x boundary) n req = Inr batch" for req :: GetEventsRequest and n batch
    by (rule matching_page [of _ boundary]) (use that in \<open>simp_all add: sqlite_world_def drain_batch_size_def MaxReadBatchSize_def\<close>)
qed

section \<open>A quiet store\<close>

lemma executeTransaction_none: "db_events (fst (executeTransaction env fx [] db)) = db_events db"
  by (simp add: executeTransaction_def Let_def split: option.splits)

lemma history_quiet:
  assumes "\<And>k. start \<le> k \<Longrightarrow> reqs k = []"
  shows "db_events (sqlite_history env fx reqs (start + n)) = db_events (sqlite_history env fx reqs start)"
  using assms by (induction n) (simp_all add: executeTransaction_none)

lemma matching_quiet:
  assumes "\<And>k. sub_start x \<le> k \<Longrightarrow> sub_saves x k = []"
  shows "matching_events x query n = matching_events x query 0"
  using history_quiet [OF assms] by (simp add: matching_events_def)

definition reader_healthy :: "read_env \<Rightarrow> bool" where
  "reader_healthy renv \<longleftrightarrow>
     read_take renv = None \<and> read_query renv 0 = None \<and> (\<forall>s. \<exists>t. parseSQLiteEventTime renv s = Inr t)"

lemma GetBatch_total:
  assumes "reader_healthy renv" "ValidateQuery (Get_Query req) = Inr ()" "pools (Get_Boundary req) = Some db"
  shows "\<exists>batch. GetBatch env renv pools (Some req) = Inr batch"
proof -
  obtain cond where cond: "query_criteria_sql env (Get_Query req) = Inr cond"
    using query_criteria_sql_total [OF assms(2)] by blast
  have "\<exists>e. scanReadEventRow renv d = Inr e" for d
    using assms(1) by (auto simp: reader_healthy_def scanReadEventRow_def)
  then have "\<exists>es. mapR (scanReadEventRow renv) rows = Inr es" for rows by (intro mapR_total)
  then show ?thesis using assms cond by (auto simp: GetBatch_def reader_healthy_def)
qed

end
