(* ===== verification/Core_Store.thy ===== *)
theory Core_Store
  imports Store_Types
begin

text \<open>
  The neutral event-store model of the slices (\<^verbatim>\<open>eventstore/types.go\<close>) and the adapter from it to the
  storage interfaces (\<^verbatim>\<open>internal/eventstoreadapter/adapter.go\<close>). The neutral criteria, events, latest
  results and positions have the fields of the storage ones and are the same types here, so that the
  conversions \<open>readCriteria\<close>, \<open>neutralReadEvent\<close> and \<open>storagePosition\<close> are the identity.
\<close>

section \<open>Messages\<close>

record ReadRequest =
  ReadReq_Boundary :: string
  ReadReq_FromPosition :: "Position option"
  ReadReq_Count :: nat
  ReadReq_Direction :: Direction
  ReadReq_Query :: "ReadCriterion list"

record EventToAppend =
  Append_EventID :: string
  Append_EventType :: string
  Append_Data :: json_text
  Append_Metadata :: json_text

record core_observation =
  Core_Query :: "ReadCriterion list"
  Core_Position :: Position

record AppendRequest =
  Append_Boundary :: string
  Append_Events :: "EventToAppend list"
  Append_Consistency :: "core_observation list"

section \<open>The adapter\<close>

definition storageQuery :: "ReadCriterion list \<Rightarrow> Query option" where
  "storageQuery criteria =
     (if length criteria = 0 then None
      else Some \<lparr>Query_Criteria = map (\<lambda>c. Some \<lparr>Criterion_Tags = map Some (ReadCriterion_Tags c)\<rparr>) criteria\<rparr>)"

definition storage_observation :: "core_observation \<Rightarrow> ConsistencyObservation option" where
  "storage_observation ob =
     Some \<lparr>Observation_Query = storageQuery (Core_Query ob), Observation_Position = Some (Core_Position ob)\<rparr>"

definition append_input :: "EventToAppend \<Rightarrow> EventWithMapTags" where
  "append_input event =
     \<lparr>MapEvent_EventId = Append_EventID event, MapEvent_EventType = Append_EventType event,
      MapEvent_Data = InputText (Append_Data event),
      MapEvent_Metadata = InputText (Append_Metadata event)\<rparr>"

text \<open>\<open>save\<close>, \<open>get\<close> and \<open>latest\<close> are the operations of the saver and the retriever.\<close>

definition Adapter_Append ::
    "(PreparedEvent list \<Rightarrow> string \<Rightarrow> ConsistencyCheck list \<Rightarrow> 's \<Rightarrow> 's \<times> (string \<times> int64) result) \<Rightarrow>
     AppendRequest \<Rightarrow> 's \<Rightarrow> 's \<times> Position result" where
  "Adapter_Append save request st =
     (case bindR (PrepareEventsForSave (map append_input (Append_Events request))) (\<lambda>prepared.
           bindR (ConsistencyChecksFromObservations (map storage_observation (Append_Consistency request)))
             (\<lambda>consistency. Inr (prepared, consistency))) of
        Inl err \<Rightarrow> (st, Inl err)
      | Inr (prepared, consistency) \<Rightarrow>
          (case save prepared (Append_Boundary request) consistency st of
             (st', Inl err) \<Rightarrow> (st', Inl err)
           | (st', Inr (transactionID, globalID)) \<Rightarrow>
               (case ParseInt transactionID of
                  None \<Rightarrow> (st', Inl (WrapError ''parse transaction id %q: '' (PlainError ''strconv.ParseInt'')))
                | Some commitPosition \<Rightarrow> (st', Inr (Position commitPosition globalID)))))"

definition Adapter_Read ::
    "(GetEventsRequest \<Rightarrow> 's \<Rightarrow> ReadEvent list result) \<Rightarrow> ReadRequest \<Rightarrow> 's \<Rightarrow> ReadEvent list result" where
  "Adapter_Read get request st =
     get \<lparr>Get_Query = storageQuery (ReadReq_Query request), Get_FromPosition = ReadReq_FromPosition request,
          Get_Count = ReadReq_Count request, Get_Direction = ReadReq_Direction request,
          Get_Boundary = ReadReq_Boundary request\<rparr> st"

definition Adapter_LatestByCriteria ::
    "(LatestByCriteriaQuery \<Rightarrow> 's \<Rightarrow> LatestByCriteriaBatch result) \<Rightarrow> string \<Rightarrow> ReadCriterion list \<Rightarrow> 's \<Rightarrow>
     LatestByCriteriaBatch result" where
  "Adapter_LatestByCriteria latest boundary criteria st =
     latest \<lparr>Latest_Boundary = boundary, Latest_Criteria = criteria\<rparr> st"

end
