(* ===== verification/Paged_Log.thy ===== *)
theory Paged_Log
  imports Store_Types
begin

text \<open>
  Facts about reading a log page by page from an inclusive cursor, which the catalog replay and the
  boundary subscribers share. A log is a list of events with strictly increasing positions.
\<close>

abbreviation log_sorted :: "ReadEvent list \<Rightarrow> bool" where
  "log_sorted es \<equiv> sorted_wrt (<) (map read_position es)"

abbreviation upto_cursor :: "Position \<Rightarrow> ReadEvent list \<Rightarrow> ReadEvent list" where
  "upto_cursor cursor es \<equiv> filter (\<lambda>e. read_position e \<le> cursor) es"

abbreviation from_cursor :: "Position \<Rightarrow> ReadEvent list \<Rightarrow> ReadEvent list" where
  "from_cursor cursor es \<equiv> filter (\<lambda>e. cursor \<le> read_position e) es"

abbreviation past_cursor :: "Position \<Rightarrow> ReadEvent list \<Rightarrow> ReadEvent list" where
  "past_cursor cursor es \<equiv> filter (\<lambda>e. cursor < read_position e) es"

lemma log_sorted_filter: "log_sorted es \<Longrightarrow> log_sorted (filter P es)"
  by (induction es) auto

lemma log_sorted_take: "log_sorted es \<Longrightarrow> log_sorted (take k es)"
  using sorted_wrt_take [of "(<)" "map read_position es" k] by (simp add: take_map)

lemma log_split: "log_sorted es \<Longrightarrow> es = upto_cursor cursor es @ past_cursor cursor es"
proof (induction es)
  case (Cons e es)
  show ?case
  proof (cases "read_position e \<le> cursor")
    case False
    then have "\<forall>x\<in>set es. cursor < read_position x" using Cons.prems by fastforce
    then show ?thesis using False by (auto simp: filter_empty_conv filter_id_conv not_le)
  qed (use Cons in auto)
qed simp

lemma from_cursor_split:
  assumes "log_sorted es"
  shows "\<exists>skipped. from_cursor cursor es = skipped @ past_cursor cursor es \<and> length skipped \<le> 1 \<and>
    (\<forall>e\<in>set skipped. read_position e = cursor)"
  using assms
proof (induction es)
  case (Cons e es)
  have later: "\<forall>x\<in>set es. read_position e < read_position x" using Cons.prems by simp
  consider "read_position e < cursor" | "read_position e = cursor" | "cursor < read_position e" by force
  then show ?case
  proof cases
    case 2
    then have "from_cursor cursor es = es" "past_cursor cursor es = es"
      using later by (auto simp: filter_id_conv less_imp_le)
    then show ?thesis using 2 by (intro exI [of _ "[e]"]) simp
  next
    case 3
    then have "from_cursor cursor es = es" "past_cursor cursor es = es"
      using later by (auto simp: filter_id_conv dest: less_trans less_imp_le)
    then show ?thesis using 3 by (intro exI [of _ "[]"]) simp
  qed (use Cons in auto)
qed simp

lemma upto_last:
  assumes "log_sorted es" "new = take j (past_cursor cursor es)" "new \<noteq> []"
  shows "upto_cursor (read_position (last new)) es = upto_cursor cursor es @ new"
proof -
  let ?B = "past_cursor cursor es"
  let ?p = "read_position (last new)"
  have B: "?B = new @ drop j ?B" by (simp add: assms(2))
  have srt: "log_sorted (new @ drop j ?B)" using log_sorted_filter [OF assms(1)] by (simp only: B [symmetric])
  obtain xs x where new: "new = xs @ [x]" using assms(3) by (cases new rule: rev_cases) simp_all
  have le: "\<forall>e\<in>set new. read_position e \<le> ?p"
    using srt by (auto simp: new sorted_wrt_append less_imp_le)
  have gt: "\<forall>e\<in>set (drop j ?B). ?p < read_position e"
    using srt by (auto simp: new sorted_wrt_append)
  have "x \<in> set (take j ?B)" using assms(2) new by (metis in_set_conv_decomp)
  then have "cursor < ?p" by (auto simp: new dest!: in_set_takeD)
  then have "upto_cursor ?p (upto_cursor cursor es) = upto_cursor cursor es"
    by (auto intro: filter_cong)
  moreover have "upto_cursor ?p (new @ drop j ?B) = new"
  proof -
    have "upto_cursor ?p new = new" using le by (simp add: filter_id_conv)
    moreover have "upto_cursor ?p (drop j ?B) = []" using gt by (auto simp: filter_empty_conv)
    ultimately show ?thesis by (simp only: filter_append append_Nil2)
  qed
  ultimately show ?thesis
    using arg_cong [OF log_split [OF assms(1), of cursor], of "upto_cursor ?p"] B
    by (simp only: filter_append)
qed

text \<open>What a page adds: the events past the cursor it holds, and all of them if it is not full.\<close>

lemma page_new:
  assumes "log_sorted es" "batch = take k (from_cursor cursor es)"
  shows "\<exists>j. past_cursor cursor batch = take j (past_cursor cursor es) \<and> k - 1 \<le> j"
    and "length batch < k \<Longrightarrow> past_cursor cursor batch = past_cursor cursor es"
    and "log_sorted batch"
proof -
  from from_cursor_split [OF assms(1)] obtain skipped where
    sk: "from_cursor cursor es = skipped @ past_cursor cursor es" "length skipped \<le> 1"
      "\<forall>e\<in>set skipped. read_position e = cursor" by blast
  have "past_cursor cursor (take k skipped) = []"
    using sk(3) by (auto simp: filter_empty_conv dest!: in_set_takeD)
  moreover have "past_cursor cursor (take j (past_cursor cursor es)) = take j (past_cursor cursor es)" for j
    by (auto simp: filter_id_conv dest!: in_set_takeD)
  ultimately have "past_cursor cursor batch = take (k - length skipped) (past_cursor cursor es)"
    by (simp add: assms(2) sk(1))
  then show "\<exists>j. past_cursor cursor batch = take j (past_cursor cursor es) \<and> k - 1 \<le> j"
    using sk(2) by (intro exI [of _ "k - length skipped"]) simp
  show "past_cursor cursor batch = past_cursor cursor es" if "length batch < k"
  proof -
    have "batch = from_cursor cursor es" using that assms(2) by simp
    then show ?thesis by (auto intro: filter_cong)
  qed
  show "log_sorted batch"
    unfolding assms(2) by (intro log_sorted_take log_sorted_filter assms(1))
qed

lemma log_prefix_upto:
  assumes "log_sorted (es @ more_events)" "cursor = read_position e" "e \<in> set es"
  shows "upto_cursor cursor (es @ more_events) = upto_cursor cursor es"
  using assms by (auto simp: sorted_wrt_append filter_empty_conv not_le)

end
