(* ===== verification/Boundary_Catalog.thy ===== *)
theory Boundary_Catalog
  imports Core_Store Boundary_Name Paged_Log
begin

text \<open>
  The lifecycle of boundaries: the model and its events (\<^verbatim>\<open>boundary/types.go\<close>,
  \<^verbatim>\<open>boundary/events/events.go\<close>), the catalog that folds them (\<^verbatim>\<open>boundary_catalog/event_handler.go\<close>) and
  the queries that rebuild it page by page (\<^verbatim>\<open>boundary_catalog/query_handler.go\<close>). The decoding of the
  event data is that of go-json, the record \<open>boundary_codec\<close>.
\<close>

section \<open>Boundaries and their events\<close>

datatype Status = StatusProvisioning | StatusActive | StatusFailed

record Placement =
  Placement_Backend :: string
  Placement_Namespace :: string

record Definition =
  Definition_Name :: string
  Definition_Description :: string
  Definition_Placement :: Placement

record Boundary =
  Boundary_Name :: string
  Boundary_Description :: string
  Boundary_Placement :: Placement
  Boundary_Status :: Status
  Boundary_LastError :: string
  Boundary_DefinitionPosition :: "Position option"
  Boundary_StatusPosition :: "Position option"

definition EventTypeBoundaryCreated :: string where
  "EventTypeBoundaryCreated = ''$BoundaryCreated''"

definition EventTypeBoundaryActivated :: string where
  "EventTypeBoundaryActivated = ''$BoundaryActivated''"

definition EventTypeBoundaryFailed :: string where
  "EventTypeBoundaryFailed = ''$BoundaryProvisioningFailed''"

record BoundaryCreated =
  Created_Boundary :: string
  Created_Description :: string
  Created_Placement :: Placement

record BoundaryActivated =
  Activated_Boundary :: string

record BoundaryProvisioningFailed =
  Failed_Boundary :: string
  Failed_Error :: string

record boundary_codec =
  unmarshal_created :: "json_text \<Rightarrow> BoundaryCreated result"
  unmarshal_activated :: "json_text \<Rightarrow> BoundaryActivated result"
  unmarshal_failed :: "json_text \<Rightarrow> BoundaryProvisioningFailed result"
  marshal_created :: "BoundaryCreated \<Rightarrow> json_text result"
  marshal_activated :: "BoundaryActivated \<Rightarrow> json_text result"
  marshal_failed :: "BoundaryProvisioningFailed \<Rightarrow> json_text result"

section \<open>The catalog\<close>

type_synonym Catalog = "(string \<times> Boundary) list"

definition NewCatalog :: Catalog where
  "NewCatalog = []"

definition Catalog_define ::
    "string \<Rightarrow> string \<Rightarrow> Placement \<Rightarrow> Position \<Rightarrow> Catalog \<Rightarrow> Catalog \<times> unit result" where
  "Catalog_define name description placement position c =
     (if name = '''' then (c, Inl (PlainError ''boundary catalog: boundary name is required''))
      else if Placement_Backend placement = ''''
      then (c, Inl (PlainError ''boundary catalog: boundary %q has no placement backend''))
      else if Placement_Namespace placement = ''''
      then (c, Inl (PlainError ''boundary catalog: boundary %q has no placement namespace''))
      else if has_key c name then (c, Inl (PlainError ''boundary catalog: boundary %q is already defined''))
      else (AList.update name
              \<lparr>Boundary_Name = name, Boundary_Description = description, Boundary_Placement = placement,
               Boundary_Status = StatusProvisioning, Boundary_LastError = '''',
               Boundary_DefinitionPosition = Some position, Boundary_StatusPosition = Some position\<rparr> c, Inr ()))"

definition decode_error :: "goerror \<Rightarrow> goerror" where
  "decode_error err = WrapError ''boundary catalog: decode %s: '' err"

definition apply_activated :: "BoundaryActivated \<Rightarrow> Position \<Rightarrow> Catalog \<Rightarrow> Catalog \<times> unit result" where
  "apply_activated data position c =
     (if Activated_Boundary data = '''' then (c, Inl (PlainError ''boundary catalog: %s has no boundary''))
      else (case map_of c (Activated_Boundary data) of
              None \<Rightarrow> (c, Inr ())
            | Some boundary \<Rightarrow>
                (AList.update (Activated_Boundary data)
                   (boundary\<lparr>Boundary_Status := StatusActive, Boundary_LastError := '''',
                             Boundary_StatusPosition := Some position\<rparr>) c, Inr ())))"

definition apply_failed :: "BoundaryProvisioningFailed \<Rightarrow> Position \<Rightarrow> Catalog \<Rightarrow> Catalog \<times> unit result" where
  "apply_failed data position c =
     (if Failed_Boundary data = '''' then (c, Inl (PlainError ''boundary catalog: %s has no boundary''))
      else (case map_of c (Failed_Boundary data) of
              None \<Rightarrow> (c, Inr ())
            | Some boundary \<Rightarrow>
                if Failed_Error data = '''' then (c, Inl (PlainError ''boundary catalog: %s has empty error''))
                else if Boundary_Status boundary = StatusActive then (c, Inr ())
                else (AList.update (Failed_Boundary data)
                        (boundary\<lparr>Boundary_Status := StatusFailed, Boundary_LastError := Failed_Error data,
                                  Boundary_StatusPosition := Some position\<rparr>) c, Inr ())))"

text \<open>The flag tells whether the event is a lifecycle event.\<close>

definition Catalog_Apply :: "boundary_codec \<Rightarrow> ReadEvent \<Rightarrow> Catalog \<Rightarrow> Catalog \<times> bool \<times> unit result" where
  "Catalog_Apply codec event c =
     (if Read_EventType event = EventTypeBoundaryCreated then
        (case unmarshal_created codec (Read_Data event) of
           Inl err \<Rightarrow> (c, True, Inl (decode_error err))
         | Inr data \<Rightarrow>
             (let (c', res) = Catalog_define (Created_Boundary data) (Created_Description data)
                                (Created_Placement data) (read_position event) c
              in (c', True, res)))
      else if Read_EventType event = EventTypeBoundaryActivated then
        (case unmarshal_activated codec (Read_Data event) of
           Inl err \<Rightarrow> (c, True, Inl (decode_error err))
         | Inr data \<Rightarrow> (let (c', res) = apply_activated data (read_position event) c in (c', True, res)))
      else if Read_EventType event = EventTypeBoundaryFailed then
        (case unmarshal_failed codec (Read_Data event) of
           Inl err \<Rightarrow> (c, True, Inl (decode_error err))
         | Inr data \<Rightarrow> (let (c', res) = apply_failed data (read_position event) c in (c', True, res)))
      else (c, False, Inr ()))"

definition Catalog_Get :: "string \<Rightarrow> Catalog \<Rightarrow> Boundary option" where
  "Catalog_Get name c = map_of c name"

definition Catalog_List :: "Catalog \<Rightarrow> Boundary list" where
  "Catalog_List c = sort_key Boundary_Name (map snd c)"

section \<open>Queries\<close>

definition catalogReadBatchSize :: nat where
  "catalogReadBatchSize = 1000"

definition lifecycleQuery :: "string \<Rightarrow> ReadCriterion list" where
  "lifecycleQuery name =
     map (\<lambda>eventType.
        \<lparr>ReadCriterion_Tags =
           [\<lparr>Tag_Key = ''__eventType'', Tag_Value = eventType, Tag_Operator = ''''\<rparr>] @
           (if name \<noteq> '''' then [\<lparr>Tag_Key = ''boundary'', Tag_Value = name, Tag_Operator = ''''\<rparr>] else [])\<rparr>)
       [EventTypeBoundaryCreated, EventTypeBoundaryActivated, EventTypeBoundaryFailed]"

fun replay_batch ::
    "boundary_codec \<Rightarrow> ReadEvent list \<Rightarrow> Position \<Rightarrow> bool \<Rightarrow> Catalog \<Rightarrow> (Position \<times> bool \<times> Catalog) result" where
  "replay_batch codec [] cursor advanced c = Inr (cursor, advanced, c)"
| "replay_batch codec (event # batch) cursor advanced c =
     (if read_position event = cursor then replay_batch codec batch cursor advanced c
      else
        (case Catalog_Apply codec event c of
           (c', applied, Inl applyErr) \<Rightarrow>
             Inl (Coded Internal (''rebuild boundary catalog at %d/%d: '' @ error_text applyErr))
         | (c', applied, Inr _) \<Rightarrow>
             if \<not> applied then Inl (Coded Internal ''boundary catalog query returned unrelated event %q'')
             else replay_batch codec batch (read_position event) True c'))"

definition catalog_request :: "string \<Rightarrow> string \<Rightarrow> Position \<Rightarrow> ReadRequest" where
  "catalog_request adminBoundary name cursor =
     \<lparr>ReadReq_Boundary = adminBoundary, ReadReq_FromPosition = Some cursor,
      ReadReq_Count = catalogReadBatchSize, ReadReq_Direction = Direction_ASC,
      ReadReq_Query = lifecycleQuery name\<rparr>"

text \<open>
  The log may grow while it is replayed: \<open>read n\<close> is the n-th read. None is a loop that is still
  running when the fuel ends.
\<close>

fun replay_loop ::
    "nat \<Rightarrow> (nat \<Rightarrow> ReadRequest \<Rightarrow> ReadEvent list result) \<Rightarrow> boundary_codec \<Rightarrow> string \<Rightarrow> string \<Rightarrow> nat \<Rightarrow>
     Position \<Rightarrow> Catalog \<Rightarrow> Catalog result option" where
  "replay_loop 0 read codec adminBoundary name n cursor c = None"
| "replay_loop (Suc fuel) read codec adminBoundary name n cursor c =
     (case read n (catalog_request adminBoundary name cursor) of
        Inl err \<Rightarrow> Some (Inl err)
      | Inr batch \<Rightarrow>
          (case replay_batch codec batch cursor False c of
             Inl err \<Rightarrow> Some (Inl err)
           | Inr (cursor', advanced, c') \<Rightarrow>
               if length batch < catalogReadBatchSize \<or> \<not> advanced then Some (Inr c')
               else replay_loop fuel read codec adminBoundary name (n + 1) cursor' c'))"

definition replayCatalog ::
    "nat \<Rightarrow> (nat \<Rightarrow> ReadRequest \<Rightarrow> ReadEvent list result) option \<Rightarrow> boundary_codec \<Rightarrow> string \<Rightarrow> string \<Rightarrow>
     Catalog result option" where
  "replayCatalog fuel retriever codec adminBoundary name =
     (case retriever of
        None \<Rightarrow> Some (Inl (Coded Internal ''boundary catalog query handler is not configured''))
      | Some read \<Rightarrow>
          if adminBoundary = ''''
          then Some (Inl (Coded Internal ''boundary catalog query handler is not configured''))
          else replay_loop fuel read codec adminBoundary name 0 NotExistsPosition NewCatalog)"

definition ListBoundariesQueryHandler ::
    "nat \<Rightarrow> (nat \<Rightarrow> ReadRequest \<Rightarrow> ReadEvent list result) option \<Rightarrow> boundary_codec \<Rightarrow> string \<Rightarrow>
     Boundary list result option" where
  "ListBoundariesQueryHandler fuel retriever codec adminBoundary =
     map_option (\<lambda>res. bindR res (\<lambda>c. Inr (Catalog_List c)))
       (replayCatalog fuel retriever codec adminBoundary '''')"

definition GetBoundaryQueryHandler ::
    "nat \<Rightarrow> (nat \<Rightarrow> ReadRequest \<Rightarrow> ReadEvent list result) option \<Rightarrow> boundary_codec \<Rightarrow> string \<Rightarrow> string \<Rightarrow>
     Boundary result option" where
  "GetBoundaryQueryHandler fuel retriever codec adminBoundary query =
     (let name = TrimSpace query
      in (case ValidateName name of
            Inl err \<Rightarrow> Some (Inl (Coded InvalidArgument (''invalid boundary %q: '' @ error_text err)))
          | Inr _ \<Rightarrow>
              map_option (\<lambda>res. bindR res (\<lambda>c.
                  case Catalog_Get name c of
                    None \<Rightarrow> Inl (Coded NotFound ''boundary %q was not found'')
                  | Some boundary \<Rightarrow> Inr boundary))
                (replayCatalog fuel retriever codec adminBoundary name)))"

section \<open>The lifecycle\<close>

text \<open>
  What a catalog holds: every boundary is under its own name, has a name and a placement, keeps an
  error exactly when it failed, and its status is not older than its definition.
\<close>

definition boundary_ok :: "string \<Rightarrow> Boundary \<Rightarrow> bool" where
  "boundary_ok name b \<longleftrightarrow>
     Boundary_Name b = name \<and> name \<noteq> '''' \<and> Placement_Backend (Boundary_Placement b) \<noteq> '''' \<and>
     Placement_Namespace (Boundary_Placement b) \<noteq> '''' \<and>
     (Boundary_LastError b \<noteq> '''' \<longleftrightarrow> Boundary_Status b = StatusFailed) \<and>
     (\<exists>p q. Boundary_DefinitionPosition b = Some p \<and> Boundary_StatusPosition b = Some q \<and> p \<le> q)"

definition catalog_ok :: "Catalog \<Rightarrow> bool" where
  "catalog_ok c \<longleftrightarrow> distinct_keys c \<and> (\<forall>name b. map_of c name = Some b \<longrightarrow> boundary_ok name b)"

text \<open>How a boundary may change: the definition is immutable and ACTIVE is terminal.\<close>

definition boundary_le :: "Boundary \<Rightarrow> Boundary \<Rightarrow> bool" where
  "boundary_le b b' \<longleftrightarrow>
     Boundary_Name b' = Boundary_Name b \<and> Boundary_Description b' = Boundary_Description b \<and>
     Boundary_Placement b' = Boundary_Placement b \<and>
     Boundary_DefinitionPosition b' = Boundary_DefinitionPosition b \<and>
     (Boundary_Status b = StatusActive \<longrightarrow> Boundary_Status b' = StatusActive) \<and>
     (Boundary_Status b' = StatusProvisioning \<longrightarrow> Boundary_Status b = StatusProvisioning)"

definition catalog_le :: "Catalog \<Rightarrow> Catalog \<Rightarrow> bool" where
  "catalog_le c c' \<longleftrightarrow> (\<forall>name b. map_of c name = Some b \<longrightarrow> (\<exists>b'. map_of c' name = Some b' \<and> boundary_le b b'))"

lemma boundary_le_refl [simp]: "boundary_le b b"
  by (simp add: boundary_le_def)

lemma boundary_le_trans: "boundary_le a b \<Longrightarrow> boundary_le b d \<Longrightarrow> boundary_le a d"
  unfolding boundary_le_def by metis

lemma catalog_le_refl [simp]: "catalog_le c c"
  by (simp add: catalog_le_def)

lemma catalog_le_trans: "catalog_le a b \<Longrightarrow> catalog_le b c \<Longrightarrow> catalog_le a c"
  unfolding catalog_le_def using boundary_le_trans by meson

lemma Catalog_define_cases:
  assumes "Catalog_define name description placement position c = (c', res)"
  obtains (same) "c' = c"
  | (new) b where "c' = AList.update name b c" "map_of c name = None" "boundary_ok name b"
      "Boundary_Status b = StatusProvisioning" "Boundary_DefinitionPosition b = Some position"
proof (cases "c' = c")
  case False
  let ?b = "\<lparr>Boundary_Name = name, Boundary_Description = description, Boundary_Placement = placement,
    Boundary_Status = StatusProvisioning, Boundary_LastError = '''', Boundary_DefinitionPosition = Some position,
    Boundary_StatusPosition = Some position\<rparr>"
  from False assms have "c' = AList.update name ?b c" "map_of c name = None" "boundary_ok name ?b"
    by (auto simp: Catalog_define_def boundary_ok_def map_of_eq_None_iff split: if_splits)
  then show ?thesis by (rule new) simp_all
qed (rule same)

lemma apply_activated_cases:
  "apply_activated d p c = (c', res) \<Longrightarrow> c' = c \<or> (\<exists>b. map_of c (Activated_Boundary d) = Some b \<and>
     c' = AList.update (Activated_Boundary d) (b\<lparr>Boundary_Status := StatusActive, Boundary_LastError := '''',
            Boundary_StatusPosition := Some p\<rparr>) c)"
  by (simp add: apply_activated_def split: if_splits option.splits)

lemma apply_failed_cases:
  "apply_failed d p c = (c', res) \<Longrightarrow> c' = c \<or> (\<exists>b. map_of c (Failed_Boundary d) = Some b \<and>
     Boundary_Status b \<noteq> StatusActive \<and> Failed_Error d \<noteq> '''' \<and>
     c' = AList.update (Failed_Boundary d) (b\<lparr>Boundary_Status := StatusFailed, Boundary_LastError := Failed_Error d,
            Boundary_StatusPosition := Some p\<rparr>) c)"
  by (simp add: apply_failed_def split: if_splits option.splits)

lemma Catalog_Apply_split:
  assumes "Catalog_Apply codec event c = (c', applied, res)"
  shows "c' = c \<or>
    (\<exists>d. Read_EventType event = EventTypeBoundaryCreated \<and> unmarshal_created codec (Read_Data event) = Inr d \<and>
       Catalog_define (Created_Boundary d) (Created_Description d) (Created_Placement d) (read_position event) c = (c', res)) \<or>
    (\<exists>d. Read_EventType event = EventTypeBoundaryActivated \<and> unmarshal_activated codec (Read_Data event) = Inr d \<and>
       apply_activated d (read_position event) c = (c', res)) \<or>
    (\<exists>d. Read_EventType event = EventTypeBoundaryFailed \<and> unmarshal_failed codec (Read_Data event) = Inr d \<and>
       apply_failed d (read_position event) c = (c', res))"
  using assms unfolding Catalog_Apply_def by (simp split: if_splits sum.splits prod.splits)

text \<open>The three ways an event changes the catalog.\<close>

lemma Catalog_Apply_cases:
  assumes "Catalog_Apply codec event c = (c', applied, res)"
  obtains (same) "c' = c"
  | (new) name b where "c' = AList.update name b c" "map_of c name = None" "boundary_ok name b"
      "Boundary_Status b = StatusProvisioning" "Boundary_DefinitionPosition b = Some (read_position event)"
      "Read_EventType event = EventTypeBoundaryCreated"
  | (activated) name b where "map_of c name = Some b" "Read_EventType event = EventTypeBoundaryActivated"
      "c' = AList.update name (b\<lparr>Boundary_Status := StatusActive, Boundary_LastError := '''',
              Boundary_StatusPosition := Some (read_position event)\<rparr>) c"
  | (failed) name b msg where "map_of c name = Some b" "Boundary_Status b \<noteq> StatusActive" "msg \<noteq> ''''"
      "Read_EventType event = EventTypeBoundaryFailed"
      "c' = AList.update name (b\<lparr>Boundary_Status := StatusFailed, Boundary_LastError := msg,
              Boundary_StatusPosition := Some (read_position event)\<rparr>) c"
  using Catalog_Apply_split [OF assms]
proof (elim disjE exE conjE)
  fix d assume created: "Read_EventType event = EventTypeBoundaryCreated"
    and "Catalog_define (Created_Boundary d) (Created_Description d) (Created_Placement d) (read_position event) c = (c', res)"
  from this(2) show ?thesis
  proof (cases rule: Catalog_define_cases)
    case (new b)
    then show ?thesis using created by (rule that(2))
  qed (rule that(1))
next
  fix d assume "Read_EventType event = EventTypeBoundaryActivated" "apply_activated d (read_position event) c = (c', res)"
  then show ?thesis using apply_activated_cases that(1,3) by metis
next
  fix d assume "Read_EventType event = EventTypeBoundaryFailed" "apply_failed d (read_position event) c = (c', res)"
  then show ?thesis using apply_failed_cases that(1,4) by metis
qed (rule that(1))

lemma Catalog_Apply_le:
  assumes "Catalog_Apply codec event c = (c', applied, res)"
  shows "catalog_le c c'"
  using assms
  by (cases rule: Catalog_Apply_cases) (auto simp: catalog_le_def boundary_le_def update_conv')

lemma catalog_ok_update:
  assumes "catalog_ok c" "boundary_ok name b"
  shows "catalog_ok (AList.update name b c)"
  using assms by (auto simp: catalog_ok_def update_conv' distinct_update)

lemma Catalog_Apply_ok:
  assumes "Catalog_Apply codec event c = (c', applied, res)" "catalog_ok c"
    and "\<And>name b p. map_of c name = Some b \<Longrightarrow> Boundary_DefinitionPosition b = Some p \<Longrightarrow> p \<le> read_position event"
  shows "catalog_ok c'"
  using assms(1)
proof (cases rule: Catalog_Apply_cases)
  case (activated name b)
  then have "boundary_ok name b" using assms(2) by (simp add: catalog_ok_def)
  then show ?thesis unfolding activated(3) using assms(3) [OF activated(1)]
    by (intro catalog_ok_update [OF assms(2)]) (auto simp: boundary_ok_def)
next
  case (failed name b msg)
  then have "boundary_ok name b" using assms(2) by (simp add: catalog_ok_def)
  then show ?thesis unfolding failed(5) using assms(3) [OF failed(1)] failed(3)
    by (intro catalog_ok_update [OF assms(2)]) (auto simp: boundary_ok_def)
qed (use assms(2) catalog_ok_update in auto)

section \<open>Folding a log\<close>

text \<open>The specification of a replay: all events of the log, applied in order.\<close>

fun apply_all :: "boundary_codec \<Rightarrow> ReadEvent list \<Rightarrow> Catalog \<Rightarrow> Catalog result" where
  "apply_all codec [] c = Inr c"
| "apply_all codec (event # events) c =
     (case Catalog_Apply codec event c of
        (c', applied, Inl err) \<Rightarrow> Inl err
      | (c', applied, Inr _) \<Rightarrow>
          if applied then apply_all codec events c' else Inl (PlainError ''unrelated event''))"

lemma apply_all_append:
  "apply_all codec (xs @ ys) c = bindR (apply_all codec xs c) (apply_all codec ys)"
  by (induction xs arbitrary: c) (auto split: prod.splits sum.splits)

lemma apply_all_le: "apply_all codec es c = Inr c' \<Longrightarrow> catalog_le c c'"
proof (induction es arbitrary: c)
  case (Cons e es)
  then obtain c1 applied res where "Catalog_Apply codec e c = (c1, applied, res)" "apply_all codec es c1 = Inr c'"
    by (auto split: prod.splits sum.splits if_splits)
  then show ?case using Cons.IH Catalog_Apply_le catalog_le_trans by blast
qed simp

text \<open>The definition positions of a catalog are positions of events it has seen.\<close>

definition defined_before :: "Position set \<Rightarrow> Catalog \<Rightarrow> bool" where
  "defined_before ps c \<longleftrightarrow> (\<forall>name b p. map_of c name = Some b \<and> Boundary_DefinitionPosition b = Some p \<longrightarrow> p \<in> ps)"

lemma Catalog_Apply_defined:
  assumes "Catalog_Apply codec e c = (c', applied, res)" "defined_before ps c"
  shows "defined_before (insert (read_position e) ps) c'"
  using assms(1)
proof (cases rule: Catalog_Apply_cases)
  case (new name b)
  then show ?thesis using assms(2) by (simp add: defined_before_def update_conv')
next
  case (activated name b)
  then show ?thesis using assms(2) by (simp add: defined_before_def update_conv')
next
  case (failed name b msg)
  then show ?thesis using assms(2) by (simp add: defined_before_def update_conv')
qed (use assms(2) in \<open>auto simp: defined_before_def\<close>)

lemma apply_all_ok:
  assumes "apply_all codec es c = Inr c'" "log_sorted es" "catalog_ok c" "defined_before ps c"
    "\<forall>p\<in>ps. \<forall>e\<in>set es. p \<le> read_position e"
  shows "catalog_ok c'"
  using assms
proof (induction es arbitrary: c ps)
  case (Cons e es)
  then obtain c1 applied res where step: "Catalog_Apply codec e c = (c1, applied, res)" "apply_all codec es c1 = Inr c'"
    by (auto split: prod.splits sum.splits if_splits)
  have ok: "catalog_ok c1"
    by (rule Catalog_Apply_ok [OF step(1) Cons.prems(3)]) (use Cons.prems(4,5) in \<open>auto simp: defined_before_def\<close>)
  show ?case
    by (rule Cons.IH [OF step(2) _ ok Catalog_Apply_defined [OF step(1) Cons.prems(4)]])
      (use Cons.prems(2,5) in \<open>auto intro: less_imp_le\<close>)
qed simp

lemma replay_ok: "apply_all codec es NewCatalog = Inr c \<Longrightarrow> log_sorted es \<Longrightarrow> catalog_ok c"
  by (rule apply_all_ok [of _ _ NewCatalog _ "{}"]) (auto simp: NewCatalog_def catalog_ok_def defined_before_def)

section \<open>Replaying page by page\<close>

lemma replay_batch_run:
  assumes "replay_batch codec batch cursor advanced c = Inr (cursor', advanced', c')" "log_sorted batch"
    "\<forall>e\<in>set batch. cursor \<le> read_position e"
  shows "apply_all codec (past_cursor cursor batch) c = Inr c' \<and>
    (advanced' \<longleftrightarrow> advanced \<or> past_cursor cursor batch \<noteq> []) \<and>
    cursor' = (if past_cursor cursor batch = [] then cursor else read_position (last (past_cursor cursor batch)))"
  using assms
proof (induction codec batch cursor advanced c rule: replay_batch.induct)
  case (2 codec event batch cursor advanced c)
  show ?case
  proof (cases "read_position event = cursor")
    case True
    then show ?thesis using 2 by (simp add: less_imp_le)
  next
    case False
    then have lt: "cursor < read_position event" using 2(5) by (simp add: less_le)
    obtain c1 where app: "Catalog_Apply codec event c = (c1, True, Inr ())"
      and rest: "replay_batch codec batch (read_position event) True c1 = Inr (cursor', advanced', c')"
      using 2(3) False by (auto split: prod.splits sum.splits if_splits)
    have later: "\<forall>e\<in>set batch. read_position event < read_position e" using 2(4) by simp
    then have all: "past_cursor (read_position event) batch = batch" "past_cursor cursor batch = batch"
      using lt by (auto simp: filter_id_conv dest: less_trans)
    have "apply_all codec batch c1 = Inr c' \<and> advanced' \<and>
        cursor' = (if batch = [] then read_position event else read_position (last batch))"
      using 2(2) [OF False app [symmetric] refl refl] rest 2(4) later all(1) by (simp add: less_imp_le)
    then show ?thesis using lt app all(2) by simp
  qed
qed simp

text \<open>
  The contract of the retriever: a log that only grows, in increasing positions, of which a read gives
  the first events from the cursor on.
\<close>

locale catalog_reader =
  fixes log :: "nat \<Rightarrow> ReadEvent list" and read :: "nat \<Rightarrow> ReadRequest \<Rightarrow> ReadEvent list result"
    and admin name :: string
  assumes reader_grows: "m \<le> n \<Longrightarrow> \<exists>es. log n = log m @ es"
    and reader_sorted: "log_sorted (log n)"
    and reader_positions: "e \<in> set (log n) \<Longrightarrow> NotExistsPosition < read_position e"
    and reader_page: "read n (catalog_request admin name cursor) = Inr batch \<Longrightarrow>
          batch = take catalogReadBatchSize (from_cursor cursor (log n))"
begin

definition at_cursor :: "boundary_codec \<Rightarrow> nat \<Rightarrow> Position \<Rightarrow> Catalog \<Rightarrow> bool" where
  "at_cursor codec n cursor c \<longleftrightarrow>
     apply_all codec (upto_cursor cursor (log n)) NewCatalog = Inr c \<and>
     (cursor = NotExistsPosition \<or> (\<exists>e\<in>set (log n). cursor = read_position e))"

lemma at_cursor_start: "at_cursor codec n NotExistsPosition NewCatalog"
proof -
  have "upto_cursor NotExistsPosition (log n) = []"
    using reader_positions [of _ n] by (fastforce simp: filter_empty_conv)
  then show ?thesis by (simp add: at_cursor_def)
qed

lemma at_cursor_later:
  assumes "at_cursor codec n cursor c"
  shows "at_cursor codec (Suc n) cursor c"
proof -
  obtain es where es: "log (Suc n) = log n @ es" using reader_grows [of n "Suc n"] by auto
  have "upto_cursor cursor (log (Suc n)) = upto_cursor cursor (log n)"
    using assms
  proof (cases "cursor = NotExistsPosition")
    case True
    then show ?thesis
      using reader_positions [of _ n] reader_positions [of _ "Suc n"] es
      by (fastforce simp: filter_empty_conv)
  next
    case False
    then obtain e where "e \<in> set (log n)" "cursor = read_position e"
      using assms by (auto simp: at_cursor_def)
    then show ?thesis using log_prefix_upto [of "log n" es cursor e] reader_sorted [of "Suc n"] es by simp
  qed
  then show ?thesis using assms es by (auto simp: at_cursor_def)
qed

lemma page_step:
  assumes "at_cursor codec n cursor c" "read n (catalog_request admin name cursor) = Inr batch"
    "replay_batch codec batch cursor False c = Inr (cursor', advanced, c')"
  shows "at_cursor codec n cursor' c'"
    and "length batch < catalogReadBatchSize \<Longrightarrow> apply_all codec (log n) NewCatalog = Inr c'"
    and "length (upto_cursor cursor' (log n)) = length (upto_cursor cursor (log n)) + length (past_cursor cursor batch)"
    and "advanced \<longleftrightarrow> past_cursor cursor batch \<noteq> []"
    and "\<not> advanced \<Longrightarrow> length batch < catalogReadBatchSize"
proof -
  note page = reader_page [OF assms(2)]
  have from_cur: "\<forall>e\<in>set batch. cursor \<le> read_position e" unfolding page by (auto dest: in_set_takeD)
  note new = page_new [OF reader_sorted page]
  note run = replay_batch_run [OF assms(3) new(3) from_cur]
  let ?new = "past_cursor cursor batch"
  from new(1) obtain j where j: "?new = take j (past_cursor cursor (log n))" "catalogReadBatchSize - 1 \<le> j" by blast
  have upto: "upto_cursor cursor' (log n) = upto_cursor cursor (log n) @ ?new"
    using run upto_last [OF reader_sorted j(1)] by (cases "?new = []") simp_all
  have mem: "last ?new \<in> set (log n)" if "?new \<noteq> []"
    using last_in_set [OF that] j(1) by (auto dest!: in_set_takeD)
  show "at_cursor codec n cursor' c'"
    using assms(1) run upto mem by (auto simp: at_cursor_def apply_all_append)
  show "length (upto_cursor cursor' (log n)) = length (upto_cursor cursor (log n)) + length ?new"
    by (simp add: upto)
  show adv: "advanced \<longleftrightarrow> ?new \<noteq> []" using run by simp
  have split: "apply_all codec (log n) NewCatalog =
      bindR (apply_all codec (upto_cursor cursor (log n)) NewCatalog) (apply_all codec (past_cursor cursor (log n)))"
    using arg_cong [OF log_split [OF reader_sorted [of n], of cursor], of "\<lambda>es. apply_all codec es NewCatalog"]
    by (simp only: apply_all_append)
  show "apply_all codec (log n) NewCatalog = Inr c'" if "length batch < catalogReadBatchSize"
    using split new(2) [OF that] assms(1) run by (simp add: at_cursor_def)
  show "length batch < catalogReadBatchSize" if "\<not> advanced"
  proof -
    have none: "?new = []" using adv that by simp
    then have "take j (past_cursor cursor (log n)) = []" using j(1) by simp
    then have "past_cursor cursor (log n) = []" using j(2) by (simp add: catalogReadBatchSize_def)
    with from_cursor_split [OF reader_sorted [of n], of cursor] have "length (from_cursor cursor (log n)) \<le> 1" by auto
    then show ?thesis unfolding page by (simp add: catalogReadBatchSize_def)
  qed
qed

lemma replay_loop_complete:
  assumes "replay_loop fuel read codec admin name n cursor c = Some (Inr c')" "at_cursor codec n cursor c"
  shows "\<exists>m. apply_all codec (log m) NewCatalog = Inr c'"
  using assms
proof (induction fuel arbitrary: n cursor c)
  case (Suc fuel)
  then obtain batch cursor1 advanced c1 where
    r: "read n (catalog_request admin name cursor) = Inr batch"
      "replay_batch codec batch cursor False c = Inr (cursor1, advanced, c1)"
    by (auto split: sum.splits)
  note step = page_step [OF Suc.prems(2) r]
  show ?case
  proof (cases "length batch < catalogReadBatchSize \<or> \<not> advanced")
    case True
    then show ?thesis using step(2,5) Suc.prems(1) r by auto
  next
    case False
    then have "replay_loop fuel read codec admin name (Suc n) cursor1 c1 = Some (Inr c')"
      using Suc.prems(1) r by simp
    then show ?thesis using Suc.IH at_cursor_later [OF step(1)] by blast
  qed
qed simp

lemma replay_loop_ends:
  assumes "\<And>n. length (log n) \<le> bound" "at_cursor codec n cursor c"
    "bound < fuel + length (upto_cursor cursor (log n))"
  shows "replay_loop fuel read codec admin name n cursor c \<noteq> None"
  using assms(2,3)
proof (induction fuel arbitrary: n cursor c)
  case 0
  have "length (upto_cursor cursor (log n)) \<le> bound" using assms(1) [of n] length_filter_le le_trans by blast
  then show ?case using 0 by simp
next
  case (Suc fuel)
  show ?case
  proof (cases "\<exists>batch cursor1 c1. read n (catalog_request admin name cursor) = Inr batch \<and>
      replay_batch codec batch cursor False c = Inr (cursor1, True, c1) \<and> \<not> length batch < catalogReadBatchSize")
    case True
    then obtain batch cursor1 c1 where r: "read n (catalog_request admin name cursor) = Inr batch"
      "replay_batch codec batch cursor False c = Inr (cursor1, True, c1)" "\<not> length batch < catalogReadBatchSize"
      by blast
    note step = page_step [OF Suc.prems(1) r(1,2)]
    have "0 < length (past_cursor cursor batch)" using step(4) by simp
    moreover have "length (upto_cursor cursor1 (log n)) \<le> length (upto_cursor cursor1 (log (Suc n)))"
      using reader_grows [of n "Suc n"] by auto
    ultimately have "bound < fuel + length (upto_cursor cursor1 (log (Suc n)))"
      using step(3) Suc.prems(2) by linarith
    then show ?thesis using Suc.IH [OF at_cursor_later [OF step(1)]] r by simp
  next
    case False
    then show ?thesis by (auto split: sum.splits)
  qed
qed

lemma replayCatalog_complete:
  "replayCatalog fuel (Some read) codec admin name = Some (Inr c) \<Longrightarrow>
     \<exists>m. apply_all codec (log m) NewCatalog = Inr c"
  using replay_loop_complete [OF _ at_cursor_start]
  by (auto simp: replayCatalog_def split: if_splits)

lemma replayCatalog_ends:
  "(\<And>n. length (log n) \<le> bound) \<Longrightarrow> bound < fuel \<Longrightarrow> replayCatalog fuel (Some read) codec admin name \<noteq> None"
  using replay_loop_ends [OF _ at_cursor_start, where n = 0 and fuel = fuel and bound = bound and codec = codec]
  by (auto simp: replayCatalog_def)

end

end
