(* ===== verification/Sqlite_Catalog.thy ===== *)
theory Sqlite_Catalog
  imports Sqlite_Subscription Boundary_Catalog
begin

text \<open>
  The boundary catalog over the SQLite store: the pages the catalog reads through the adapter are those
  of a log that grows, in the order of its positions.
\<close>

definition sqlite_catalog_read ::
    "sqlite_subscription \<Rightarrow> string \<Rightarrow> nat \<Rightarrow> ReadRequest \<Rightarrow> ReadEvent list result" where
  "sqlite_catalog_read x boundary n request =
     Adapter_Read (\<lambda>req db. GetBatch (sub_env x) (sub_read x) [boundary \<mapsto> db] (Some req)) request (sub_db x n)"

definition lifecycle_events :: "sqlite_subscription \<Rightarrow> string \<Rightarrow> nat \<Rightarrow> ReadEvent list" where
  "lifecycle_events x name n = matching_events x (storageQuery (lifecycleQuery name)) n"

lemma matching_positive:
  assumes "e \<in> set (matching_events x query n)"
  shows "NotExistsPosition < read_position e"
proof -
  obtain d where d: "d \<in> set (db_events (sub_db x n))" "read_position e = position_of d"
    using assms by (auto simp: matching_events_def row_event_position)
  obtain ns where "store_layout ns (sub_db x n)"
    using history_inv [of "sub_env x" "sub_faults x" "sub_saves x" "sub_start x + n"] by (auto simp: store_inv_def)
  then show ?thesis using d store_layout_positions(3) by metis
qed

interpretation sqlite_catalog:
  catalog_reader "lifecycle_events x name" "sqlite_catalog_read x admin" admin name for x admin name
proof
  show "\<exists>es. lifecycle_events x name n = lifecycle_events x name m @ es" if "m \<le> n" for m n
    unfolding lifecycle_events_def by (rule matching_grows [OF that])
  show "log_sorted (lifecycle_events x name n)" for n
    unfolding lifecycle_events_def by (rule matching_sorted)
  show "NotExistsPosition < read_position e" if "e \<in> set (lifecycle_events x name n)" for e n
    using that matching_positive by (simp add: lifecycle_events_def)
  show "batch = take catalogReadBatchSize (from_cursor cursor (lifecycle_events x name n))"
    if "sqlite_catalog_read x admin n (catalog_request admin name cursor) = Inr batch" for n cursor batch
    using matching_page [OF that [unfolded sqlite_catalog_read_def Adapter_Read_def],
        of "storageQuery (lifecycleQuery name)" catalogReadBatchSize]
    by (simp add: catalog_request_def lifecycle_events_def catalogReadBatchSize_def MaxReadBatchSize_def)
qed

end
