(* ===== verification/Sample_Api.thy ===== *)
theory Sample_Api
  imports Sample_Store Sqlite_Backend Sqlite_Catalog
begin

text \<open>
  The sample store behind the API: a request that saves the sample event, and subscriptions and catalog
  reads on a store with one earlier transaction.
\<close>

definition sample_backend :: "sqlite_saver backend" where
  "sample_backend = sqlite_backend sample_env sample_renv None sample_faults None"

definition sample_api_event :: EventToSave where
  "sample_api_event =
     \<lparr>EventToSave_EventId = ''e1'', EventToSave_EventType = ''Created'',
      EventToSave_Data = Json (JObj [(''user'', JStr ''7'')]), EventToSave_Metadata = Json (JObj [])\<rparr>"

definition sample_api_request :: SaveEventsV2Request where
  "sample_api_request =
     \<lparr>SaveV2_Boundary = ''orders'', SaveV2_Events = [Some sample_api_event],
      SaveV2_Consistency = [Some \<lparr>Observation_Query = sample_query, Observation_Position = Some NotExistsPosition\<rparr>]\<rparr>"

definition sample_result :: WriteResult where
  "sample_result = \<lparr>Result_WriteId = WriteID 1 1, Result_LogPosition = Position 1 1\<rparr>"

lemma sample_api_checks:
  "ConsistencyChecksFromObservations (SaveV2_Consistency sample_api_request) = Inr [sample_check]"
  by code_simp

lemma sample_api_prepared: "prepareRequestedEventsForSave (SaveV2_Events sample_api_request) = Inr [sample_event]"
  by code_simp

lemma sample_api_transaction:
  "\<not> isl (prepareSQLiteSave sample_env None [sample_event] [sample_check])"
  "executeTransaction sample_env sample_faults [projr (prepareSQLiteSave sample_env None [sample_event] [sample_check])]
     empty_db = (sample_db, Inr [sample_outcome])"
  by code_simp+

lemma sample_sqlite_save:
  "sqlite_save sample_env None sample_faults None sample_saver [sample_event] ''orders'' [sample_check] =
     (sample_saver_after, Some (Inr (''1'', 1)))"
proof -
  obtain p where p: "prepareSQLiteSave sample_env None [sample_event] [sample_check] = Inr p"
    "executeTransaction sample_env sample_faults [p] empty_db = (sample_db, Inr [sample_outcome])"
    using sample_api_transaction
    by (cases "prepareSQLiteSave sample_env None [sample_event] [sample_check]") auto
  have pool: "saver_pools sample_saver ''orders'' = Some empty_db" by (simp add: sample_saver_def)
  have "executeBatch sample_env None sample_faults ''orders'' [p] sample_saver = (sample_saver_after, Inr [sample_outcome])"
    using p(2) pool by (simp add: executeBatch_def)
      (simp add: sample_saver_def sample_saver_after_def sample_outcome_def accepted_count_def notify_def wrap64_def)
  then have "sqlite_submit sample_env None sample_faults sample_saver ''orders'' p = (sample_saver_after, Inr sample_outcome)"
    by (simp add: sqlite_submit_def flush_of_def live_results_def)
  then show ?thesis
    using p(1) pool
    by (simp add: sqlite_save_def SavePrepared_def enqueue_def enqueue_result_def sample_outcome_def Let_def)
qed

lemma sample_api_save:
  "SaveEventsV2 sample_backend ts NewEventStoreServer None (Some sample_api_request) (None, sample_saver) =
     ((None, sample_saver_after), Inr sample_result)"
proof -
  have one: "parseInt64 ''1'' = Inr 1" by code_simp
  have "SaveV2_Boundary sample_api_request = ''orders''" "SaveV2_Events sample_api_request \<noteq> []"
    by (simp_all add: sample_api_request_def)
  with one sample_sqlite_save sample_api_checks sample_api_prepared show ?thesis
    by (simp add: SaveEventsV2_def saveEventsV2Request_def authorizeRequest_def validateSaveEventsV2Request_def
        saveEvents_def savePreparedWithMetrics_def RequireBoundaryActive_def NewEventStoreServer_def
        sample_backend_def sqlite_backend_def sample_result_def)
qed

definition sample_reader :: sqlite_subscription where
  "sample_reader =
     \<lparr>sub_env = sample_env, sub_read = sample_renv, sub_faults = (\<lambda>_. sample_faults),
      sub_saves = (\<lambda>n. if n = 0 then [sample_save] else []), sub_start = 1, sub_ctx = (\<lambda>_. None),
      sub_check = (\<lambda>_. None), sub_handler = (\<lambda>_ _. None)\<rparr>"

lemma sample_reader_db: "db_events (sub_db sample_reader n) = [sample_stored_doc]"
proof -
  have "fst (executeTransaction sample_env sample_faults [sample_save] empty_db) = sample_db" by code_simp
  then have "db_events (sub_db sample_reader 0) = [sample_stored_doc]"
    by (simp add: sample_reader_def sample_wf sample_db_def)
  then show ?thesis
    using history_quiet [of "sub_start sample_reader" "sub_saves sample_reader" "sub_env sample_reader"
        "sub_faults sample_reader" n] by (simp add: sample_reader_def)
qed

lemma sample_reader_healthy: "reader_healthy sample_renv"
  by (auto simp: reader_healthy_def sample_time) (simp_all add: sample_renv_def)

section \<open>A catalog\<close>

definition sample_field :: "json_text \<Rightarrow> string \<Rightarrow> string" where
  "sample_field t k = (case t of Json (JObj ms) \<Rightarrow> (case map_of ms k of Some (JStr s) \<Rightarrow> s | _ \<Rightarrow> '''') | _ \<Rightarrow> '''')"

definition sample_codec :: boundary_codec where
  "sample_codec =
     \<lparr>unmarshal_created = (\<lambda>t. Inr \<lparr>Created_Boundary = sample_field t ''boundary'',
         Created_Description = '''', Created_Placement = \<lparr>Placement_Backend = ''sqlite'', Placement_Namespace = ''main''\<rparr>\<rparr>),
      unmarshal_activated = (\<lambda>t. Inr \<lparr>Activated_Boundary = sample_field t ''boundary''\<rparr>),
      unmarshal_failed = (\<lambda>t. Inr \<lparr>Failed_Boundary = sample_field t ''boundary'', Failed_Error = sample_field t ''error''\<rparr>),
      marshal_created = (\<lambda>d. Inr (Json (JObj [(''boundary'', JStr (Created_Boundary d))]))),
      marshal_activated = (\<lambda>d. Inr (Json (JObj [(''boundary'', JStr (Activated_Boundary d))]))),
      marshal_failed = (\<lambda>d. Inr (Json (JObj [(''boundary'', JStr (Failed_Boundary d)), (''error'', JStr (Failed_Error d))])))\<rparr>"

definition sample_lifecycle :: "string \<Rightarrow> string \<Rightarrow> preparedSQLiteSave" where
  "sample_lifecycle eid eventType =
     \<lparr>Save_ctx_err = None,
      Save_inserts = [\<lparr>Doc_eventID = eid, Doc_eventType = eventType, Doc_metadata = Json (JObj []),
                       Doc_object = \<lparr>Object_fields = Some [(''boundary'', JStr ''orders'')]\<rparr>, Doc_err = None\<rparr>],
      Save_consistencyJSON = ''[]'', Save_preparedChecks = []\<rparr>"

definition sample_admin :: sqlite_subscription where
  "sample_admin =
     sample_reader\<lparr>sub_env := sample_env\<lparr>env_where := (\<lambda>_ _. True)\<rparr>,
       sub_saves := (\<lambda>n. if n = 0 then [sample_lifecycle ''e1'' EventTypeBoundaryCreated,
                                       sample_lifecycle ''e2'' EventTypeBoundaryActivated] else [])\<rparr>"

lemma sample_lifecycle_wf: "wf_request (sample_lifecycle eid eventType)"
  by (simp add: wf_request_def sample_lifecycle_def object_ok_def)

lemma sample_admin_length: "length (lifecycle_events sample_admin name n) \<le> 2"
proof -
  have "length (db_events (fst (executeTransaction (sample_env\<lparr>env_where := (\<lambda>_ _. True)\<rparr>) sample_faults
      [sample_lifecycle ''e1'' EventTypeBoundaryCreated, sample_lifecycle ''e2'' EventTypeBoundaryActivated] empty_db))) = 2"
    by code_simp
  then have "length (db_events (sub_db sample_admin 0)) = 2"
    by (simp add: sample_admin_def sample_reader_def sample_lifecycle_wf)
  then have "length (db_events (sub_db sample_admin n)) = 2"
    using history_quiet [of "sub_start sample_admin" "sub_saves sample_admin" "sub_env sample_admin"
        "sub_faults sample_admin" n] by (simp add: sample_admin_def sample_reader_def)
  then show ?thesis
    using length_filter_le [of "row_selected (sub_env sample_admin) (storageQuery (lifecycleQuery name))"
        "db_events (sub_db sample_admin n)"]
    by (simp add: lifecycle_events_def matching_events_def)
qed

lemma sample_catalog:
  "map_option (\<lambda>res. case res of Inr c \<Rightarrow> map (\<lambda>(n, b). (n, Boundary_Status b)) c | Inl _ \<Rightarrow> [])
     (replayCatalog 3 (Some (sqlite_catalog_read sample_admin ''admin'')) sample_codec ''admin'' '''') =
   Some [(''orders'', StatusActive)]"
  by code_simp

text \<open>An active boundary, and a later failure event of another node.\<close>

definition sample_boundary :: Boundary where
  "sample_boundary =
     \<lparr>Boundary_Name = ''orders'', Boundary_Description = '''',
      Boundary_Placement = \<lparr>Placement_Backend = ''sqlite'', Placement_Namespace = ''main''\<rparr>,
      Boundary_Status = StatusActive, Boundary_LastError = '''', Boundary_DefinitionPosition = Some (Position 1 1),
      Boundary_StatusPosition = Some (Position 2 2)\<rparr>"

definition sample_events :: "ReadEvent list" where
  "sample_events =
     [\<lparr>Read_WriteId = ''3:3'', Read_EventId = ''e3'', Read_EventType = EventTypeBoundaryFailed,
       Read_Data = Json (JObj [(''boundary'', JStr ''orders''), (''error'', JStr ''no disk'')]),
       Read_Metadata = Json (JObj []), Read_CommitPosition = 3, Read_PreparePosition = 3, Read_DateCreated = 0\<rparr>]"

end
