(* ===== verification/Boundary_Commands.thy ===== *)
theory Boundary_Commands
  imports Boundary_Catalog
begin

text \<open>
  The commands of the boundary lifecycle: creation (\<^verbatim>\<open>create_boundary/command_handler.go\<close>), the bootstrap
  of the admin boundary (\<^verbatim>\<open>create_boundary/bootstrap.go\<close>), provisioning
  (\<^verbatim>\<open>boundary_provisioning/command_handler.go\<close>) and the two event handlers
  (\<^verbatim>\<open>event_handler.go\<close>, \<^verbatim>\<open>runtime_event_handler.go\<close>).

  The appender, the retriever, the identifier source and the provisioning functions act on a state
  \<open>'s\<close>, the world the handler runs in; between two of its calls other processes may have changed it,
  which is part of what the calls do to \<open>'s\<close>. A nil interface or function is None. The JSON library
  writes queries and metadata: the record \<open>metadata_codec\<close>.
\<close>

section \<open>The ports\<close>

type_synonym 's appender = "AppendRequest \<Rightarrow> 's \<Rightarrow> 's \<times> Position result"
type_synonym 's latest_retriever = "string \<Rightarrow> ReadCriterion list \<Rightarrow> 's \<Rightarrow> 's \<times> LatestByCriteriaBatch result"
type_synonym 's uuid_source = "'s \<Rightarrow> 's \<times> string result"
type_synonym metadata = "(string \<times> json) list"

record metadata_codec =
  marshal_query :: "ReadCriterion list \<Rightarrow> string result"
  marshal_metadata :: "metadata \<Rightarrow> json_text result"

definition event_criterion :: "string \<Rightarrow> string \<Rightarrow> ReadCriterion" where
  "event_criterion name eventType =
     \<lparr>ReadCriterion_Tags = [\<lparr>Tag_Key = ''boundary'', Tag_Value = name, Tag_Operator = ''''\<rparr>,
                            \<lparr>Tag_Key = ''__eventType'', Tag_Value = eventType, Tag_Operator = ''''\<rparr>]\<rparr>"

definition metadataWithQuery :: "metadata_codec \<Rightarrow> metadata \<Rightarrow> ReadCriterion list \<Rightarrow> metadata" where
  "metadataWithQuery mc meta query =
     (case marshal_query mc query of
        Inl _ \<Rightarrow> meta
      | Inr encoded \<Rightarrow> AList.update ''query'' (JStr encoded) meta)"

section \<open>Creating a boundary\<close>

record CreateBoundaryCommand =
  Command_Name :: string
  Command_Description :: string
  Command_Placement :: Placement
  Command_Metadata :: metadata

definition normalize_command :: "CreateBoundaryCommand \<Rightarrow> Definition result" where
  "normalize_command command =
     (let def =
        \<lparr>Definition_Name = TrimSpace (Command_Name command),
         Definition_Description = TrimSpace (Command_Description command),
         Definition_Placement =
           \<lparr>Placement_Backend = TrimSpace (Placement_Backend (Command_Placement command)),
            Placement_Namespace = TrimSpace (Placement_Namespace (Command_Placement command))\<rparr>\<rparr>
      in (case ValidateName (Definition_Name def) of
            Inl err \<Rightarrow> Inl (Coded InvalidArgument (''invalid boundary %q: '' @ error_text err))
          | Inr _ \<Rightarrow>
              if Placement_Backend (Definition_Placement def) = '''' \<or> Placement_Namespace (Definition_Placement def) = ''''
              then Inl (Coded InvalidArgument ''boundary placement backend and namespace are required'')
              else Inr def))"

definition definitionCriteria :: "string \<Rightarrow> ReadCriterion list" where
  "definitionCriteria name = [event_criterion name EventTypeBoundaryCreated]"

record create_context =
  Create_existing :: "ReadEvent option"
  Create_position :: Position
  Create_query :: "ReadCriterion list"

fun existing_definition :: "LatestCriterionMatch list \<Rightarrow> ReadEvent option \<Rightarrow> ReadEvent option result" where
  "existing_definition [] existing = Inr existing"
| "existing_definition (match # matches) existing =
     (case Match_Event match of
        None \<Rightarrow> existing_definition matches existing
      | Some event \<Rightarrow>
          if existing \<noteq> None then Inl (Coded Internal ''boundary %q has multiple definition events'')
          else existing_definition matches (Some event))"

definition create_loadContext ::
    "string \<Rightarrow> string \<Rightarrow> 's latest_retriever \<Rightarrow> 's \<Rightarrow> 's \<times> create_context result" where
  "create_loadContext adminBoundary name retriever =
     (let criteria = definitionCriteria name
      in bindS (retriever adminBoundary criteria) (\<lambda>latest.
           if length (Batch_Matches latest) \<noteq> length criteria
           then liftS (Inl (Coded Internal ''boundary definition query returned %d matches, expected %d''))
           else liftS (bindR (existing_definition (Batch_Matches latest) None) (\<lambda>existing.
             Inr \<lparr>Create_existing = existing,
                  Create_position = Position (Batch_ContextCommitPosition latest) (Batch_ContextPreparePosition latest),
                  Create_query = criteria\<rparr>))))"

definition single_append ::
    "string \<Rightarrow> string \<Rightarrow> string \<Rightarrow> json_text \<Rightarrow> json_text \<Rightarrow> ReadCriterion list \<Rightarrow> Position \<Rightarrow> AppendRequest" where
  "single_append boundary eventID eventType data meta query position =
     \<lparr>Append_Boundary = boundary,
      Append_Events = [\<lparr>Append_EventID = eventID, Append_EventType = eventType, Append_Data = data,
                        Append_Metadata = meta\<rparr>],
      Append_Consistency = [\<lparr>Core_Query = query, Core_Position = position\<rparr>]\<rparr>"

definition CreateBoundaryCommandHandler ::
    "boundary_codec \<Rightarrow> metadata_codec \<Rightarrow> 's uuid_source \<Rightarrow> CreateBoundaryCommand \<Rightarrow> string \<Rightarrow> 's appender option \<Rightarrow>
     's latest_retriever option \<Rightarrow> 's \<Rightarrow> 's \<times> Boundary result" where
  "CreateBoundaryCommandHandler codec mc uuid command adminBoundary appender retriever =
     bindS (liftS (normalize_command command)) (\<lambda>def.
       case (appender, retriever) of
         (Some app, Some retr) \<Rightarrow>
           if adminBoundary = '''' then liftS (Inl (Coded Internal ''create boundary handler is not configured''))
           else
             bindS (create_loadContext adminBoundary (Definition_Name def) retr) (\<lambda>model.
               if Create_existing model \<noteq> None then liftS (Inl (Coded AlreadyExists ''boundary %q already exists''))
               else
                 bindS (map_errorS (\<lambda>err. Coded Internal (''create boundary event id: '' @ error_text err)) uuid) (\<lambda>eventID.
                 bindS (liftS (map_errorR (\<lambda>err. Coded Internal (''prepare %s data: '' @ error_text err))
                    (marshal_created codec
                       \<lparr>Created_Boundary = Definition_Name def, Created_Description = Definition_Description def,
                        Created_Placement = Definition_Placement def\<rparr>))) (\<lambda>data.
                 bindS (liftS (map_errorR (\<lambda>err. Coded Internal (''prepare %s metadata: '' @ error_text err))
                    (marshal_metadata mc (metadataWithQuery mc (Command_Metadata command) (Create_query model))))) (\<lambda>meta.
                 bindS (app (single_append adminBoundary eventID EventTypeBoundaryCreated data meta
                               (Create_query model) (Create_position model))) (\<lambda>position.
                   liftS (Inr \<lparr>Boundary_Name = Definition_Name def, Boundary_Description = Definition_Description def,
                               Boundary_Placement = Definition_Placement def, Boundary_Status = StatusProvisioning,
                               Boundary_LastError = '''', Boundary_DefinitionPosition = Some position,
                               Boundary_StatusPosition = Some position\<rparr>))))))
       | _ \<Rightarrow> liftS (Inl (Coded Internal ''create boundary handler is not configured'')))"

section \<open>The bootstrap boundary\<close>

text \<open>
  \<open>strings.EqualFold\<close>: ASCII letters are folded here; \<open>folds\<close> decides strings with other characters, by
  the tables of Unicode.
\<close>

definition ascii_lower :: "char \<Rightarrow> char" where
  "ascii_lower c = (if CHR ''A'' \<le> c \<and> c \<le> CHR ''Z'' then char_of (of_char c + (32 :: nat)) else c)"

definition EqualFold :: "(string \<Rightarrow> string \<Rightarrow> bool) \<Rightarrow> string \<Rightarrow> string \<Rightarrow> bool" where
  "EqualFold folds s t =
     (if list_all (\<lambda>c. of_char c < (128 :: nat)) (s @ t) then map ascii_lower s = map ascii_lower t else folds s t)"

definition samePlacement :: "(string \<Rightarrow> string \<Rightarrow> bool) \<Rightarrow> Placement \<Rightarrow> Placement \<Rightarrow> bool" where
  "samePlacement folds left right \<longleftrightarrow>
     EqualFold folds (TrimSpace (Placement_Backend left)) (TrimSpace (Placement_Backend right)) \<and>
     TrimSpace (Placement_Namespace left) = TrimSpace (Placement_Namespace right)"

definition created_definition :: "BoundaryCreated \<Rightarrow> Definition" where
  "created_definition data =
     \<lparr>Definition_Name = Created_Boundary data, Definition_Description = Created_Description data,
      Definition_Placement = Created_Placement data\<rparr>"

definition bootstrap_definitionFromEvent :: "boundary_codec \<Rightarrow> ReadEvent \<Rightarrow> Definition result" where
  "bootstrap_definitionFromEvent codec event =
     (if Read_EventType event = EventTypeBoundaryCreated
      then bindR (unmarshal_created codec (Read_Data event)) (\<lambda>data. Inr (created_definition data))
      else Inl (PlainError ''unsupported definition event %q''))"

definition verifyBootstrapDefinition ::
    "boundary_codec \<Rightarrow> (string \<Rightarrow> string \<Rightarrow> bool) \<Rightarrow> string \<Rightarrow> Definition \<Rightarrow> 's latest_retriever \<Rightarrow> 's \<Rightarrow> 's \<times> unit result" where
  "verifyBootstrapDefinition codec folds adminBoundary expected retriever =
     bindS (map_errorS (WrapError ''load bootstrap boundary %q: '')
              (create_loadContext adminBoundary (Definition_Name expected) retriever)) (\<lambda>model.
       case Create_existing model of
         None \<Rightarrow> liftS (Inl (PlainError
           ''bootstrap boundary %q reported as existing but its definition event was not found''))
       | Some existing \<Rightarrow>
           bindS (liftS (map_errorR (WrapError ''decode bootstrap boundary %q: '')
                    (bootstrap_definitionFromEvent codec existing))) (\<lambda>actual.
             if \<not> samePlacement folds (Definition_Placement actual) (Definition_Placement expected)
             then liftS (Inl (PlainError
               ''bootstrap boundary %q placement conflicts with catalog: configured %s/%s, catalog %s/%s''))
             else liftS (Inr ())))"

text \<open>
  The handler and the check receive the same retriever; it is not nil when the definition was reported
  as existing.
\<close>

definition EnsureBootstrapBoundary ::
    "boundary_codec \<Rightarrow> metadata_codec \<Rightarrow> 's uuid_source \<Rightarrow> (string \<Rightarrow> string \<Rightarrow> bool) \<Rightarrow> Definition \<Rightarrow> string \<Rightarrow>
     's appender option \<Rightarrow> 's latest_retriever option \<Rightarrow> 's \<Rightarrow> 's \<times> bool result" where
  "EnsureBootstrapBoundary codec mc uuid folds def adminBoundary appender retriever st =
     (case CreateBoundaryCommandHandler codec mc uuid
             \<lparr>Command_Name = Definition_Name def, Command_Description = Definition_Description def,
              Command_Placement = Definition_Placement def,
              Command_Metadata = [(''source'', JStr ''startup_bootstrap''), (''operation'', JStr ''create_boundary'')]\<rparr>
             adminBoundary appender retriever st of
        (st', Inr _) \<Rightarrow> (st', Inr True)
      | (st', Inl err) \<Rightarrow>
          (case retriever of
             Some retr \<Rightarrow>
               if coded AlreadyExists err
               then bindS (verifyBootstrapDefinition codec folds adminBoundary def retr) (\<lambda>_. liftS (Inr False)) st'
               else (st', Inl (WrapError ''bootstrap boundary %q: '' err))
           | None \<Rightarrow> (st', Inl (WrapError ''bootstrap boundary %q: '' err))))"

section \<open>Provisioning a boundary\<close>

definition validateDefinition :: "Definition \<Rightarrow> unit result" where
  "validateDefinition def =
     (case ValidateName (Definition_Name def) of
        Inl err \<Rightarrow> Inl (Coded InvalidArgument (''invalid boundary %q: '' @ error_text err))
      | Inr _ \<Rightarrow>
          if Placement_Backend (Definition_Placement def) = '''' \<or> Placement_Namespace (Definition_Placement def) = ''''
          then Inl (Coded InvalidArgument ''boundary placement backend and namespace are required'')
          else Inr ())"

definition lifecycleCriteria :: "string \<Rightarrow> ReadCriterion list" where
  "lifecycleCriteria name =
     map (event_criterion name) [EventTypeBoundaryCreated, EventTypeBoundaryActivated, EventTypeBoundaryFailed]"

record provision_context =
  Context_boundary :: Boundary
  Context_position :: Position
  Context_query :: "ReadCriterion list"

definition is_created :: "ReadEvent \<Rightarrow> bool" where
  "is_created event \<longleftrightarrow> Read_EventType event = EventTypeBoundaryCreated"

text \<open>The definition event, and the outcomes after it in the order of their positions.\<close>

definition context_events :: "LatestCriterionMatch list \<Rightarrow> ReadEvent list option" where
  "context_events matches =
     (let found = List.map_filter Match_Event matches
      in map_option (\<lambda>def.
           sort_key read_position
             (def # filter (\<lambda>event. \<not> is_created event \<and> Position_After (read_position event) (read_position def)) found))
         (find is_created found))"

fun rebuild_lifecycle :: "boundary_codec \<Rightarrow> ReadEvent list \<Rightarrow> Catalog \<Rightarrow> Catalog result" where
  "rebuild_lifecycle codec [] c = Inr c"
| "rebuild_lifecycle codec (event # events) c =
     (case Catalog_Apply codec event c of
        (c', applied, Inl applyErr) \<Rightarrow> Inl (Coded Internal (''rebuild boundary %q lifecycle: '' @ error_text applyErr))
      | (c', applied, Inr _) \<Rightarrow>
          if \<not> applied then Inl (Coded Internal ''unexpected event %q in boundary lifecycle'')
          else rebuild_lifecycle codec events c')"

definition context_boundary :: "boundary_codec \<Rightarrow> string \<Rightarrow> LatestCriterionMatch list \<Rightarrow> Boundary result" where
  "context_boundary codec name matches =
     (case context_events matches of
        None \<Rightarrow> Inl (Coded FailedPrecondition ''boundary %q has no definition event'')
      | Some events \<Rightarrow>
          bindR (rebuild_lifecycle codec events NewCatalog) (\<lambda>catalog.
            case Catalog_Get name catalog of
              None \<Rightarrow> Inl (Coded Internal ''boundary definition event does not describe %q'')
            | Some boundary \<Rightarrow> Inr boundary))"

definition provision_loadContext ::
    "boundary_codec \<Rightarrow> string \<Rightarrow> string \<Rightarrow> 's latest_retriever \<Rightarrow> 's \<Rightarrow> 's \<times> provision_context result" where
  "provision_loadContext codec adminBoundary name retriever =
     (let criteria = lifecycleCriteria name
      in bindS (retriever adminBoundary criteria) (\<lambda>latest.
           if length (Batch_Matches latest) \<noteq> length criteria
           then liftS (Inl (Coded Internal ''boundary lifecycle query returned %d matches, expected %d''))
           else liftS (bindR (context_boundary codec name (Batch_Matches latest)) (\<lambda>boundary.
             Inr \<lparr>Context_boundary = boundary,
                  Context_position = Position (Batch_ContextCommitPosition latest) (Batch_ContextPreparePosition latest),
                  Context_query = criteria\<rparr>))))"

datatype outcome = Activated BoundaryActivated | ProvisioningFailed BoundaryProvisioningFailed

definition marshal_outcome :: "boundary_codec \<Rightarrow> outcome \<Rightarrow> json_text result" where
  "marshal_outcome codec data =
     (case data of Activated d \<Rightarrow> marshal_activated codec d | ProvisioningFailed d \<Rightarrow> marshal_failed codec d)"

definition outcome_boundary :: "string \<Rightarrow> outcome \<Rightarrow> Position \<Rightarrow> Boundary \<Rightarrow> Boundary" where
  "outcome_boundary eventType data position boundary =
     (let b = boundary\<lparr>Boundary_StatusPosition := Some position\<rparr>
      in if eventType = EventTypeBoundaryActivated
         then b\<lparr>Boundary_Status := StatusActive, Boundary_LastError := ''''\<rparr>
         else
           let b' = b\<lparr>Boundary_Status := StatusFailed\<rparr>
           in (case data of ProvisioningFailed failed \<Rightarrow> b'\<lparr>Boundary_LastError := Failed_Error failed\<rparr>
                          | Activated _ \<Rightarrow> b'))"

definition appendOutcome ::
    "boundary_codec \<Rightarrow> metadata_codec \<Rightarrow> 's uuid_source \<Rightarrow> string \<Rightarrow> 's appender \<Rightarrow> metadata \<Rightarrow> provision_context \<Rightarrow>
     string \<Rightarrow> outcome \<Rightarrow> 's \<Rightarrow> 's \<times> Boundary result" where
  "appendOutcome codec mc uuid adminBoundary appender meta model eventType data =
     bindS (map_errorS (\<lambda>err. Coded Internal (''create %s event id: '' @ error_text err)) uuid) (\<lambda>eventID.
     bindS (liftS (map_errorR (\<lambda>err. Coded Internal (''prepare %s data: '' @ error_text err))
        (marshal_outcome codec data))) (\<lambda>dataJSON.
     bindS (liftS (map_errorR (\<lambda>err. Coded Internal (''prepare %s metadata: '' @ error_text err))
        (marshal_metadata mc (metadataWithQuery mc meta (Context_query model))))) (\<lambda>metadataJSON.
     bindS (appender (single_append adminBoundary eventID eventType dataJSON metadataJSON
                        (Context_query model) (Context_position model))) (\<lambda>position.
       liftS (Inr (outcome_boundary eventType data position (Context_boundary model)))))))"

text \<open>
  The retry of the activation after a conflict. None is a loop that is still running when the fuel ends.
\<close>

fun activate_loop ::
    "nat \<Rightarrow> boundary_codec \<Rightarrow> metadata_codec \<Rightarrow> 's uuid_source \<Rightarrow> string \<Rightarrow> 's appender \<Rightarrow> 's latest_retriever \<Rightarrow> string \<Rightarrow>
     metadata \<Rightarrow> provision_context \<Rightarrow> 's \<Rightarrow> ('s \<times> Boundary result) option" where
  "activate_loop 0 codec mc uuid adminBoundary appender retriever name meta model st = None"
| "activate_loop (Suc fuel) codec mc uuid adminBoundary appender retriever name meta model st =
     (case appendOutcome codec mc uuid adminBoundary appender meta model EventTypeBoundaryActivated
             (Activated \<lparr>Activated_Boundary = name\<rparr>) st of
        (st1, Inr boundary) \<Rightarrow> Some (st1, Inr boundary)
      | (st1, Inl appendErr) \<Rightarrow>
          if \<not> coded AlreadyExists appendErr then Some (st1, Inl appendErr)
          else
            (case provision_loadContext codec adminBoundary name retriever st1 of
               (st2, Inl err) \<Rightarrow> Some (st2, Inl err)
             | (st2, Inr model') \<Rightarrow>
                 if Boundary_Status (Context_boundary model') = StatusActive
                 then Some (st2, Inl (Coded AlreadyExists ''boundary %q is already active''))
                 else activate_loop fuel codec mc uuid adminBoundary appender retriever name meta model' st2))"

type_synonym 's provisioner = "Definition \<Rightarrow> 's \<Rightarrow> 's \<times> unit result"

definition record_failure ::
    "boundary_codec \<Rightarrow> metadata_codec \<Rightarrow> 's uuid_source \<Rightarrow> string \<Rightarrow> 's appender \<Rightarrow> string \<Rightarrow> metadata \<Rightarrow> provision_context \<Rightarrow>
     goerror \<Rightarrow> 's \<Rightarrow> 's \<times> Boundary result" where
  "record_failure codec mc uuid adminBoundary appender name meta model provisionErr st =
     (if Boundary_Status (Context_boundary model) \<noteq> StatusFailed then
        (case appendOutcome codec mc uuid adminBoundary appender meta model EventTypeBoundaryFailed
                (ProvisioningFailed \<lparr>Failed_Boundary = name, Failed_Error = error_text provisionErr\<rparr>) st of
           (st', Inl appendErr) \<Rightarrow>
             if \<not> coded AlreadyExists appendErr
             then (st', Inl (WrapError (''provision boundary %q: '' @ error_text provisionErr @ ''; record failure: '') appendErr))
             else (st', Inl provisionErr)
         | (st', Inr _) \<Rightarrow> (st', Inl provisionErr))
      else (st, Inl provisionErr))"

definition ProvisionBoundaryCommandHandler ::
    "nat \<Rightarrow> boundary_codec \<Rightarrow> metadata_codec \<Rightarrow> 's uuid_source \<Rightarrow> Definition \<Rightarrow> metadata \<Rightarrow> string \<Rightarrow> 's appender option \<Rightarrow>
     's latest_retriever option \<Rightarrow> 's provisioner option \<Rightarrow> 's \<Rightarrow> ('s \<times> Boundary result) option" where
  "ProvisionBoundaryCommandHandler fuel codec mc uuid def meta adminBoundary appender retriever provision st =
     (case validateDefinition def of
        Inl err \<Rightarrow> Some (st, Inl err)
      | Inr _ \<Rightarrow>
          (case (appender, retriever, provision) of
             (Some app, Some retr, Some prov) \<Rightarrow>
               if adminBoundary = ''''
               then Some (st, Inl (Coded Internal ''provision boundary handler is not configured''))
               else
                 (case provision_loadContext codec adminBoundary (Definition_Name def) retr st of
                    (st1, Inl err) \<Rightarrow> Some (st1, Inl err)
                  | (st1, Inr model) \<Rightarrow>
                      if Boundary_Status (Context_boundary model) = StatusActive
                      then Some (st1, Inl (Coded AlreadyExists ''boundary %q is already active''))
                      else
                        (case prov def st1 of
                           (st2, Inr _) \<Rightarrow>
                             activate_loop fuel codec mc uuid adminBoundary app retr (Definition_Name def) meta model st2
                         | (st2, Inl provisionErr) \<Rightarrow>
                             Some (record_failure codec mc uuid adminBoundary app (Definition_Name def) meta model
                                     provisionErr st2)))
           | _ \<Rightarrow> Some (st, Inl (Coded Internal ''provision boundary handler is not configured''))))"

section \<open>The event handlers\<close>

record 's BoundaryProvisioningEventHandler =
  Handler_adminBoundary :: string
  Handler_appender :: "'s appender option"
  Handler_retriever :: "'s latest_retriever option"
  Handler_provision :: "'s provisioner option"
  Handler_ensureGlobal :: "(string \<Rightarrow> 's \<Rightarrow> 's \<times> unit result) option"

definition definitionFromEvent :: "boundary_codec \<Rightarrow> ReadEvent \<Rightarrow> Definition result" where
  "definitionFromEvent codec event =
     (if Read_EventType event \<noteq> EventTypeBoundaryCreated
      then Inl (Coded InvalidArgument ''unsupported boundary provisioning event %q'')
      else
        bindR (map_errorR (\<lambda>err. Coded Internal (''decode %s: '' @ error_text err))
                 (unmarshal_created codec (Read_Data event)))
          (\<lambda>data. Inr (created_definition data)))"

definition reaction_metadata :: "string \<Rightarrow> ReadEvent \<Rightarrow> metadata" where
  "reaction_metadata now event =
     [(''source'', JStr ''event_handler''), (''handler'', JStr ''boundary_provisioning''), (''capturedAt'', JStr now),
      (''reactedTo'',
       JObj [(''eventId'', JStr (Read_EventId event)), (''eventType'', JStr (Read_EventType event)),
             (''position'', JObj [(''commit'', JNum (FormatInt (Read_CommitPosition event))),
                                  (''prepare'', JNum (FormatInt (Read_PreparePosition event)))])])]"

text \<open>\<open>now\<close> is the formatted time of the call.\<close>

definition Provisioning_Handle ::
    "nat \<Rightarrow> boundary_codec \<Rightarrow> metadata_codec \<Rightarrow> 's uuid_source \<Rightarrow> string \<Rightarrow> 's BoundaryProvisioningEventHandler option \<Rightarrow>
     ReadEvent \<Rightarrow> 's \<Rightarrow> ('s \<times> unit result) option" where
  "Provisioning_Handle fuel codec mc uuid now handler event st =
     (case map_option (\<lambda>h. (h, Handler_provision h, Handler_ensureGlobal h)) handler of
        Some (h, Some provision, Some ensureGlobal) \<Rightarrow>
          (case definitionFromEvent codec event of
             Inl err \<Rightarrow> Some (st, Inl err)
           | Inr def \<Rightarrow>
               map_option (\<lambda>(st', res).
                   case res of
                     Inr _ \<Rightarrow> (st', Inr ())
                   | Inl err \<Rightarrow>
                       if coded AlreadyExists err then ensureGlobal (Definition_Name def) st' else (st', Inl err))
                 (ProvisionBoundaryCommandHandler fuel codec mc uuid def (reaction_metadata now event)
                    (Handler_adminBoundary h) (Handler_appender h) (Handler_retriever h)
                    (Some (\<lambda>d. bindS (provision d) (\<lambda>_. ensureGlobal (Definition_Name d)))) st))
      | _ \<Rightarrow> Some (st, Inl (Coded Internal ''boundary provisioning event handler is not configured'')))"

record 's BoundaryRuntimeEventHandler =
  Runtime_adminBoundary :: string
  Runtime_retriever :: "(nat \<Rightarrow> ReadRequest \<Rightarrow> ReadEvent list result) option"
  Runtime_install :: "'s provisioner option"
  Runtime_activate :: "(string \<Rightarrow> 's \<Rightarrow> 's \<times> unit result) option"

definition install_active ::
    "'s provisioner \<Rightarrow> (string \<Rightarrow> 's \<Rightarrow> 's \<times> unit result) \<Rightarrow> ReadEvent \<Rightarrow> Boundary \<Rightarrow> 's \<Rightarrow> 's \<times> unit result" where
  "install_active install activate event boundary =
     (if (case Boundary_DefinitionPosition boundary of
            None \<Rightarrow> False | Some p \<Rightarrow> \<not> Position_After (read_position event) p)
      then liftS (Inr ())
      else if Boundary_Status boundary \<noteq> StatusActive
      then liftS (Inl (Coded FailedPrecondition ''boundary %q is not active''))
      else
        bindS (install \<lparr>Definition_Name = Boundary_Name boundary, Definition_Description = Boundary_Description boundary,
                        Definition_Placement = Boundary_Placement boundary\<rparr>)
          (\<lambda>_. activate (Boundary_Name boundary)))"

definition Runtime_Handle ::
    "nat \<Rightarrow> boundary_codec \<Rightarrow> 's BoundaryRuntimeEventHandler option \<Rightarrow> ReadEvent \<Rightarrow> 's \<Rightarrow> ('s \<times> unit result) option" where
  "Runtime_Handle fuel codec handler event st =
     (case map_option (\<lambda>h. (h, Runtime_retriever h, Runtime_install h, Runtime_activate h)) handler of
        Some (h, Some retriever, Some install, Some activate) \<Rightarrow>
          if Runtime_adminBoundary h = ''''
          then Some (st, Inl (Coded Internal ''boundary runtime event handler is not configured''))
          else if Read_EventType event \<noteq> EventTypeBoundaryActivated
          then Some (st, Inl (Coded InvalidArgument ''unsupported boundary runtime event %q''))
          else
            (case unmarshal_activated codec (Read_Data event) of
               Inl err \<Rightarrow> Some (st, Inl (Coded Internal (''decode %s: '' @ error_text err)))
             | Inr activated \<Rightarrow>
                 map_option (\<lambda>res.
                     case res of
                       Inl err \<Rightarrow> if coded NotFound err then (st, Inr ()) else (st, Inl err)
                     | Inr boundary \<Rightarrow> install_active install activate event boundary st)
                   (GetBoundaryQueryHandler fuel (Some retriever) codec (Runtime_adminBoundary h)
                      (Activated_Boundary activated)))
      | _ \<Rightarrow> Some (st, Inl (Coded Internal ''boundary runtime event handler is not configured'')))"

end
