(* ===== verification/Boundary_Context.thy ===== *)
theory Boundary_Context
  imports Boundary_Commands
begin

text \<open>
  The context of the provisioning command is loaded from the latest event of each kind only. It is the
  boundary that a replay of the whole lifecycle gives.
\<close>

lemma lifecycle_types [simp]:
  "EventTypeBoundaryCreated \<noteq> EventTypeBoundaryActivated" "EventTypeBoundaryActivated \<noteq> EventTypeBoundaryCreated"
  "EventTypeBoundaryCreated \<noteq> EventTypeBoundaryFailed" "EventTypeBoundaryFailed \<noteq> EventTypeBoundaryCreated"
  "EventTypeBoundaryActivated \<noteq> EventTypeBoundaryFailed" "EventTypeBoundaryFailed \<noteq> EventTypeBoundaryActivated"
  by (simp_all add: EventTypeBoundaryCreated_def EventTypeBoundaryActivated_def EventTypeBoundaryFailed_def)

definition last_of :: "string \<Rightarrow> ReadEvent list \<Rightarrow> ReadEvent option" where
  "last_of eventType es =
     find (\<lambda>e. Read_EventType e = eventType) (rev es)"

text \<open>What the retriever returns for the lifecycle criteria of a boundary with the events \<open>es\<close>.\<close>

definition lifecycle_matches :: "ReadEvent list \<Rightarrow> LatestCriterionMatch list" where
  "lifecycle_matches es =
     map (\<lambda>eventType. \<lparr>Match_Event = last_of eventType es\<rparr>)
       [EventTypeBoundaryCreated, EventTypeBoundaryActivated, EventTypeBoundaryFailed]"

text \<open>An event of the boundary: its data, when it can be decoded, names it.\<close>

definition lifecycle_event :: "boundary_codec \<Rightarrow> string \<Rightarrow> ReadEvent \<Rightarrow> bool" where
  "lifecycle_event codec name e \<longleftrightarrow>
     (Read_EventType e = EventTypeBoundaryCreated \<and> (\<forall>d. unmarshal_created codec (Read_Data e) = Inr d \<longrightarrow> Created_Boundary d = name)) \<or>
     (Read_EventType e = EventTypeBoundaryActivated \<and> (\<forall>d. unmarshal_activated codec (Read_Data e) = Inr d \<longrightarrow> Activated_Boundary d = name)) \<or>
     (Read_EventType e = EventTypeBoundaryFailed \<and> (\<forall>d. unmarshal_failed codec (Read_Data e) = Inr d \<longrightarrow> Failed_Boundary d = name))"

section \<open>The outcomes after the definition\<close>

definition failure_text :: "boundary_codec \<Rightarrow> ReadEvent \<Rightarrow> string" where
  "failure_text codec e = (case unmarshal_failed codec (Read_Data e) of Inr d \<Rightarrow> Failed_Error d | Inl _ \<Rightarrow> '''')"

text \<open>The boundary after its outcomes: active from the first activation on, else failed with the last error.\<close>

definition outcome_of :: "boundary_codec \<Rightarrow> ReadEvent list \<Rightarrow> Boundary \<Rightarrow> Boundary" where
  "outcome_of codec es b =
     (case last_of EventTypeBoundaryActivated es of
        Some a \<Rightarrow> b\<lparr>Boundary_Status := StatusActive, Boundary_LastError := '''', Boundary_StatusPosition := Some (read_position a)\<rparr>
      | None \<Rightarrow>
          (case last_of EventTypeBoundaryFailed es of
             Some f \<Rightarrow> b\<lparr>Boundary_Status := StatusFailed, Boundary_LastError := failure_text codec f,
                         Boundary_StatusPosition := Some (read_position f)\<rparr>
           | None \<Rightarrow> b))"

text \<open>The outcome can be applied to a defined boundary.\<close>

definition good_outcome :: "boundary_codec \<Rightarrow> string \<Rightarrow> ReadEvent \<Rightarrow> bool" where
  "good_outcome codec name e \<longleftrightarrow> name \<noteq> '''' \<and>
     ((Read_EventType e = EventTypeBoundaryActivated \<and> (\<exists>d. unmarshal_activated codec (Read_Data e) = Inr d \<and> Activated_Boundary d = name)) \<or>
      (Read_EventType e = EventTypeBoundaryFailed \<and> failure_text codec e \<noteq> '''' \<and>
        (\<exists>d. unmarshal_failed codec (Read_Data e) = Inr d \<and> Failed_Boundary d = name)))"

lemma last_of_snoc [simp]:
  "last_of t (es @ [e]) = (if Read_EventType e = t then Some e else last_of t es)"
  by (simp add: last_of_def)

lemma last_of_Nil [simp]: "last_of t [] = None"
  by (simp add: last_of_def)

lemma apply_outcome:
  assumes "good_outcome codec name e" "Boundary_Status b = StatusProvisioning"
  shows "Catalog_Apply codec e [(name, outcome_of codec es b)] = ([(name, outcome_of codec (es @ [e]) b)], True, Inr ())"
proof -
  have new: "apply_activated d p [(Activated_Boundary d, x)] =
      ([(Activated_Boundary d, x\<lparr>Boundary_Status := StatusActive, Boundary_LastError := '''', Boundary_StatusPosition := Some p\<rparr>)], Inr ())"
    if "Activated_Boundary d \<noteq> ''''" for d p x
    using that by (simp add: apply_activated_def)
  have failed: "apply_failed d p [(Failed_Boundary d, x)] = ([(Failed_Boundary d, if Boundary_Status x = StatusActive then x
      else x\<lparr>Boundary_Status := StatusFailed, Boundary_LastError := Failed_Error d, Boundary_StatusPosition := Some p\<rparr>)], Inr ())"
    if "Failed_Boundary d \<noteq> ''''" "Failed_Error d \<noteq> ''''" for d p x
    using that by (simp add: apply_failed_def)
  show ?thesis
    using assms unfolding good_outcome_def
    by (auto simp: Catalog_Apply_def new failed outcome_of_def failure_text_def split: option.splits)
qed

lemma apply_outcomes:
  assumes "\<forall>e\<in>set es. good_outcome codec name e" "Boundary_Status b = StatusProvisioning"
  shows "apply_all codec es [(name, b)] = Inr [(name, outcome_of codec es b)]"
  using assms
proof (induction es rule: rev_induct)
  case Nil
  then show ?case by (simp add: outcome_of_def)
next
  case (snoc e es)
  then show ?case using apply_outcome [of codec name e b es] by (simp add: apply_all_append)
qed

text \<open>If the whole log can be replayed, every outcome after the definition is good.\<close>

lemma apply_outcomes_good:
  assumes "apply_all codec es [(name, b)] = Inr c" "\<forall>e\<in>set es. lifecycle_event codec name e"
    "Boundary_Status b = StatusProvisioning" "name \<noteq> ''''"
  shows "\<forall>e\<in>set es. good_outcome codec name e"
  using assms
proof (induction es arbitrary: c rule: rev_induct)
  case (snoc e es)
  from snoc.prems(1) obtain c1 where c1: "apply_all codec es [(name, b)] = Inr c1" "apply_all codec [e] c1 = Inr c"
    by (auto simp: apply_all_append bindR_Inr_iff)
  then have good: "\<forall>e\<in>set es. good_outcome codec name e" using snoc by auto
  have "c1 = [(name, outcome_of codec es b)]" using apply_outcomes [OF good snoc.prems(3)] c1(1) by simp
  then have "good_outcome codec name e"
    using c1(2) snoc.prems(2,4)
    by (auto simp: lifecycle_event_def good_outcome_def Catalog_Apply_def Catalog_define_def apply_activated_def
        apply_failed_def failure_text_def split: sum.splits if_splits prod.splits)
  then show ?case using good by simp
qed simp

section \<open>The loaded context\<close>

lemma rebuild_lifecycle_all: "apply_all codec es c = Inr c' \<Longrightarrow> rebuild_lifecycle codec es c = Inr c'"
  by (induction es arbitrary: c) (auto split: prod.splits sum.splits if_splits)

lemma apply_orphans:
  assumes "apply_all codec es [] = Inr c" "\<forall>e\<in>set es. \<not> is_created e"
  shows "c = []"
  using assms
  by (induction es)
    (auto simp: Catalog_Apply_def is_created_def apply_activated_def apply_failed_def
      split: prod.splits sum.splits if_splits)

lemma last_of_append: "last_of t (xs @ ys) = (case last_of t ys of None \<Rightarrow> last_of t xs | Some e \<Rightarrow> Some e)"
  by (induction ys rule: rev_induct) (auto simp: last_of_def)

lemma last_of_Some: "last_of t es = Some e \<Longrightarrow> e \<in> set es \<and> Read_EventType e = t"
  by (auto simp: last_of_def find_Some_iff) (metis nth_mem set_rev length_rev)

lemma last_of_None: "last_of t es = None \<longleftrightarrow> (\<forall>e\<in>set es. Read_EventType e \<noteq> t)"
  by (auto simp: last_of_def find_None_iff)

lemma last_of_parts:
  "last_of t (pre @ def # post) = (case last_of t post of None \<Rightarrow> if Read_EventType def = t then Some def else last_of t pre
     | Some e \<Rightarrow> Some e)"
  using last_of_append [of t "pre @ [def]" post] by (simp split: option.splits)

lemma replay_parts:
  assumes "apply_all codec (pre @ def # post) NewCatalog = Inr c" "\<forall>e\<in>set (pre @ def # post). lifecycle_event codec name e"
    "\<forall>e\<in>set pre. \<not> is_created e" "is_created def"
  obtains b where "Catalog_Apply codec def NewCatalog = ([(name, b)], True, Inr ())" "name \<noteq> ''''"
    "Boundary_Status b = StatusProvisioning" "\<forall>e\<in>set post. good_outcome codec name e"
    "c = [(name, outcome_of codec post b)]"
proof -
  from assms(1) obtain c0 where c0: "apply_all codec pre [] = Inr c0" "apply_all codec (def # post) c0 = Inr c"
    by (auto simp: apply_all_append bindR_Inr_iff NewCatalog_def)
  have "c0 = []" using apply_orphans [OF c0(1) assms(3)] .
  with c0(2) assms(2,4) obtain b where b: "Catalog_Apply codec def [] = ([(name, b)], True, Inr ())" "name \<noteq> ''''"
    "Boundary_Status b = StatusProvisioning"
    by (auto simp: Catalog_Apply_def is_created_def lifecycle_event_def Catalog_define_def
        split: sum.splits if_splits prod.splits)
  then have rest: "apply_all codec post [(name, b)] = Inr c" using c0(2) \<open>c0 = []\<close> by simp
  have "\<forall>e\<in>set post. lifecycle_event codec name e" using assms(2) by simp
  from apply_outcomes_good [OF rest this b(3,2)] have good: "\<forall>e\<in>set post. good_outcome codec name e" .
  show ?thesis
    using that [of b] b good apply_outcomes [OF good b(3)] rest by (simp add: NewCatalog_def)
qed

text \<open>The events the context is rebuilt from: the definition and the last outcomes after it.\<close>

lemma context_events_parts:
  assumes "log_sorted (pre @ def # post)" "is_created def" "\<forall>e\<in>set post. \<not> is_created e"
  shows "context_events (lifecycle_matches (pre @ def # post)) =
    Some (def # sort_key read_position
      (List.map_filter (\<lambda>t. last_of t post) [EventTypeBoundaryActivated, EventTypeBoundaryFailed]))"
proof -
  let ?es = "pre @ def # post"
  let ?later = "\<lambda>e. \<not> is_created e \<and> Position_After (read_position e) (read_position def)"
  have created: "last_of EventTypeBoundaryCreated post = None"
    using assms(3) by (simp add: last_of_None is_created_def)
  then have def: "last_of EventTypeBoundaryCreated ?es = Some def"
    using assms(2) by (simp add: last_of_parts is_created_def)
  have before: "\<not> Position_After (read_position e) (read_position def)" if "e \<in> set pre" for e
    using that assms(1) by (auto simp: sorted_wrt_append Position_After_less)
  have after: "read_position def < read_position e" if "e \<in> set post" for e
    using that assms(1) by (auto simp: sorted_wrt_append)
  have part: "(case last_of t ?es of None \<Rightarrow> [] | Some e \<Rightarrow> if ?later e then [e] else []) =
      (case last_of t post of None \<Rightarrow> [] | Some e \<Rightarrow> [e])"
    if "t \<noteq> EventTypeBoundaryCreated" for t
    using that before after assms(2)
    by (auto simp: last_of_parts is_created_def Position_After_less split: option.splits dest!: last_of_Some)
  let ?os = "List.map_filter (\<lambda>t. last_of t post) [EventTypeBoundaryActivated, EventTypeBoundaryFailed]"
  have os: "?os = (case last_of EventTypeBoundaryActivated post of None \<Rightarrow> [] | Some e \<Rightarrow> [e]) @
      (case last_of EventTypeBoundaryFailed post of None \<Rightarrow> [] | Some e \<Rightarrow> [e])"
    by (simp add: map_filter_simps split: option.splits)
  have found: "List.map_filter Match_Event (lifecycle_matches ?es) =
      def # (case last_of EventTypeBoundaryActivated ?es of None \<Rightarrow> [] | Some e \<Rightarrow> [e]) @
      (case last_of EventTypeBoundaryFailed ?es of None \<Rightarrow> [] | Some e \<Rightarrow> [e])"
    by (simp add: lifecycle_matches_def map_filter_simps def split: option.splits)
  have filt: "filter ?later (List.map_filter Match_Event (lifecycle_matches ?es)) = ?os"
  proof -
    have "filter ?later (case x of None \<Rightarrow> [] | Some e \<Rightarrow> [e]) =
        (case x of None \<Rightarrow> [] | Some e \<Rightarrow> if ?later e then [e] else [])" for x by (simp split: option.splits)
    then show ?thesis unfolding found os using assms(2) part by simp
  qed
  have "set ?os \<subseteq> set post" by (auto simp: os dest: last_of_Some split: option.splits)
  then have "sort_key read_position (def # ?os) = def # sort_key read_position ?os"
    using after by (auto simp: less_imp_le intro!: insort_is_Cons)
  then show ?thesis using assms(2) filt unfolding context_events_def Let_def by (simp add: found del: sort_key_simps)
qed

lemma outcome_of_last:
  assumes "last_of EventTypeBoundaryActivated xs = last_of EventTypeBoundaryActivated ys"
    "last_of EventTypeBoundaryFailed xs = last_of EventTypeBoundaryFailed ys"
  shows "outcome_of codec xs b = outcome_of codec ys b"
  unfolding outcome_of_def assms ..

lemma last_of_one: "last_of t [e] = (if Read_EventType e = t then Some e else None)"
  using last_of_snoc [of t "[]" e] by simp

lemma last_outcomes:
  fixes post :: "ReadEvent list"
  defines "os \<equiv> sort_key read_position
    (List.map_filter (\<lambda>t. last_of t post) [EventTypeBoundaryActivated, EventTypeBoundaryFailed])"
  shows "outcome_of codec os b = outcome_of codec post b" "set os \<subseteq> set post"
proof -
  have two: "last_of t [e, f] = (if Read_EventType f = t then Some f else if Read_EventType e = t then Some e else None)" for t e f
    using last_of_snoc [of t "[e]" f] by (simp add: last_of_one)
  show "outcome_of codec os b = outcome_of codec post b"
    by (rule outcome_of_last)
      (auto simp: os_def map_filter_simps two last_of_one split: option.splits dest!: last_of_Some)
  show "set os \<subseteq> set post"
    by (auto simp: os_def map_filter_simps split: option.splits dest!: last_of_Some)
qed

lemma context_is_replay:
  assumes "apply_all codec es NewCatalog = Inr c" "log_sorted es" "\<forall>e\<in>set es. lifecycle_event codec name e"
  shows "context_boundary codec name (lifecycle_matches es) =
    (case Catalog_Get name c of
       None \<Rightarrow> Inl (Coded FailedPrecondition ''boundary %q has no definition event'') | Some b \<Rightarrow> Inr b)"
proof (cases "\<exists>e\<in>set es. is_created e")
  case True
  then obtain pre def post where es: "es = pre @ def # post" "is_created def" "\<forall>e\<in>set pre. \<not> is_created e"
    by (metis split_list_first_prop)
  obtain b where b: "Catalog_Apply codec def NewCatalog = ([(name, b)], True, Inr ())" "name \<noteq> ''''"
    "Boundary_Status b = StatusProvisioning" "\<forall>e\<in>set post. good_outcome codec name e"
    "c = [(name, outcome_of codec post b)]"
    by (rule replay_parts [OF assms(1)[unfolded es(1)] assms(3)[unfolded es(1)] es(3,2)])
  have "\<forall>e\<in>set post. \<not> is_created e" using b(4) by (auto simp: good_outcome_def is_created_def)
  note ctx = context_events_parts [OF assms(2)[unfolded es(1)] es(2) this]
  let ?os = "sort_key read_position
    (List.map_filter (\<lambda>t. last_of t post) [EventTypeBoundaryActivated, EventTypeBoundaryFailed])"
  have "\<forall>e\<in>set ?os. good_outcome codec name e" using b(4) last_outcomes(2) by blast
  then have "apply_all codec (def # ?os) NewCatalog = Inr [(name, outcome_of codec post b)]"
    using apply_outcomes [of ?os codec name b] b(1,3) last_outcomes(1) [of codec post b] by simp
  note rebuild_lifecycle_all [OF this]
  then show ?thesis
    unfolding context_boundary_def es(1) ctx option.case bindR_simps b(5) by (simp add: Catalog_Get_def)
next
  case False
  then have "c = []" using apply_orphans assms(1) by (metis NewCatalog_def)
  moreover have "last_of EventTypeBoundaryCreated es = None"
    using False by (simp add: last_of_None is_created_def)
  moreover have "find is_created (List.map_filter Match_Event (lifecycle_matches es)) = None"
    using False by (auto simp: lifecycle_matches_def map_filter_simps find_None_iff split: option.splits dest!: last_of_Some)
  ultimately show ?thesis by (simp add: context_boundary_def context_events_def Catalog_Get_def)
qed

end
