(* ===== verification/Command_Store.thy ===== *)
theory Command_Store
  imports Boundary_Context
begin

text \<open>
  The contract the command handlers rely on: a log that only grows, a read of the latest event of each
  criterion with the context position, and an append that is accepted only if the context position is
  still the latest position of the criteria. From it follow what every command relies on: the events
  that matched the criteria when the command read its context are those at the moment of its commit.
\<close>

text \<open>The greatest position of a document with the property, or \<open>NotExistsPosition\<close>.\<close>

definition newest :: "('d \<Rightarrow> Position) \<Rightarrow> ('d \<Rightarrow> bool) \<Rightarrow> 'd list \<Rightarrow> Position" where
  "newest pos P ds = Max (insert NotExistsPosition (pos ` {d \<in> set ds. P d}))"

lemma newest_absent:
  assumes "newest pos P ds = NotExistsPosition" "\<forall>d\<in>set ds. NotExistsPosition < pos d" "d \<in> set ds"
  shows "\<not> P d"
proof
  assume "P d"
  then have "pos d \<le> newest pos P ds" using assms(3) by (auto simp: newest_def intro!: Max_ge)
  then show False using assms by auto
qed

lemma newest_append:
  "newest pos P (xs @ ys) = max (newest pos P xs) (newest pos P ys)"
proof -
  have "insert NotExistsPosition (pos ` {d \<in> set (xs @ ys). P d}) =
      insert NotExistsPosition (pos ` {d \<in> set xs. P d}) \<union> insert NotExistsPosition (pos ` {d \<in> set ys. P d})" by auto
  then show ?thesis by (simp add: newest_def Max_Un del: Un_insert_left Un_insert_right)
qed

lemma newest_bound:
  assumes "\<forall>d\<in>set ds. pos d < p" "NotExistsPosition < p"
  shows "newest pos P ds < p"
  using assms by (auto simp: newest_def)

text \<open>On an extension of the log the greatest position is the same only if nothing was added.\<close>

lemma newest_extension:
  assumes "sorted_wrt (<) (map pos (xs @ ys))" "\<forall>d\<in>set ys. NotExistsPosition < pos d"
    "newest pos P (xs @ ys) = newest pos P xs"
  shows "filter P (xs @ ys) = filter P xs"
proof -
  have "\<not> P d" if "d \<in> set ys" for d
  proof
    assume "P d"
    have "newest pos P xs < pos d" using that assms(1,2) by (intro newest_bound) (auto simp: sorted_wrt_append)
    moreover have "pos d \<le> newest pos P ys" using that \<open>P d\<close> by (auto simp: newest_def intro!: Max_ge)
    ultimately show False using assms(3) by (simp add: newest_append)
  qed
  then show ?thesis by (simp add: filter_empty_conv)
qed

lemma outcome_boundary_active:
  "Boundary_Status (outcome_boundary EventTypeBoundaryActivated data p b) = StatusActive"
  "Boundary_StatusPosition (outcome_boundary EventTypeBoundaryActivated data p b) = Some p"
  by (simp_all add: outcome_boundary_def Let_def)

section \<open>The contract\<close>

locale command_store =
  fixes append :: "'s appender" and latest :: "'s latest_retriever" and uuid :: "'s uuid_source"
    and boundary :: string and criteria :: "ReadCriterion list"
    and good :: "'s \<Rightarrow> bool" and log :: "'s \<Rightarrow> 'd list" and pos :: "'d \<Rightarrow> Position"
    and hit :: "ReadCriterion \<Rightarrow> 'd \<Rightarrow> bool" and event :: "'d \<Rightarrow> ReadEvent \<Rightarrow> bool"
  assumes log_order: "good s \<Longrightarrow> sorted_wrt (<) (map pos (log s)) \<and> (\<forall>d\<in>set (log s). NotExistsPosition < pos d)"
    and latest_grows: "good s \<Longrightarrow> latest boundary criteria s = (s', res) \<Longrightarrow> good s' \<and> prefix (log s) (log s')"
    and append_grows: "good s \<Longrightarrow> append (single_append boundary eid ty data meta criteria p) s = (s', out) \<Longrightarrow>
          good s' \<and> prefix (log s) (log s')"
    and uuid_grows: "good s \<Longrightarrow> uuid s = (s', eid') \<Longrightarrow> good s' \<and> prefix (log s) (log s')"
    and latest_events: "good s \<Longrightarrow> latest boundary criteria s = (s', Inr batch) \<Longrightarrow>
          list_all2 (\<lambda>c m. case Match_Event m of
              None \<Rightarrow> filter (hit c) (log s') = []
            | Some e \<Rightarrow> filter (hit c) (log s') \<noteq> [] \<and> event (last (filter (hit c) (log s'))) e)
            criteria (Batch_Matches batch)"
    and latest_position: "good s \<Longrightarrow> latest boundary criteria s = (s', Inr batch) \<Longrightarrow>
          Position (Batch_ContextCommitPosition batch) (Batch_ContextPreparePosition batch) =
          newest pos (\<lambda>d. \<exists>c\<in>set criteria. hit c d) (log s')"
    and append_checked: "good s \<Longrightarrow> append (single_append boundary eid ty data meta criteria p) s = (s', Inr q) \<Longrightarrow>
          \<exists>before new later. log s' = before @ new # later \<and> pos new = q \<and>
            newest pos (\<lambda>d. \<exists>c\<in>set criteria. hit c d) before = p"
begin

abbreviation relevant :: "'d \<Rightarrow> bool" where
  "relevant d \<equiv> \<exists>c\<in>set criteria. hit c d"

text \<open>What a read found is what the log holds for the criterion.\<close>

definition found_in :: "'d list \<Rightarrow> LatestCriterionMatch list \<Rightarrow> bool" where
  "found_in ds ms \<longleftrightarrow>
     list_all2 (\<lambda>c m. case Match_Event m of
         None \<Rightarrow> filter (hit c) ds = []
       | Some e \<Rightarrow> filter (hit c) ds \<noteq> [] \<and> event (last (filter (hit c) ds)) e) criteria ms"

lemma found_in_relevant:
  assumes "filter relevant xs = filter relevant ys"
  shows "found_in xs ms \<longleftrightarrow> found_in ys ms"
proof -
  have "filter (hit c) xs = filter (hit c) ys" if "c \<in> set criteria" for c
  proof -
    have eq: "filter (hit c) zs = filter (hit c) (filter relevant zs)" for zs
      using that by (auto intro!: filter_cong)
    show ?thesis by (simp only: eq [of xs] eq [of ys] assms)
  qed
  then show ?thesis unfolding found_in_def by (intro list.rel_cong refl) (simp split: option.splits)
qed

text \<open>The commands: a context read in a state whose log \<open>s'\<close> extends, and an append against it.\<close>

lemma commit_context:
  assumes "good s1" "good s" "prefix (log s1) (log s)" "good s'"
    and "append (single_append boundary eid ty data meta criteria (newest pos relevant (log s1))) s = (s', Inr q)"
  obtains before new later where "log s' = before @ new # later" "pos new = q"
    "filter relevant before = filter relevant (log s1)"
proof -
  from append_checked [OF assms(2,5)] obtain before new later where
    b: "log s' = before @ new # later" "pos new = q" "newest pos relevant before = newest pos relevant (log s1)" by blast
  note order = log_order [OF assms(4)]
  have pre: "prefix (log s1) (log s')" using assms(3) append_grows [OF assms(2,5)] by (meson prefix_order.trans)
  have "prefix before (log s')" using b(1) by simp
  then consider "prefix (log s1) before" | "prefix before (log s1)" using pre prefix_same_cases by blast
  then have "filter relevant before = filter relevant (log s1)"
  proof cases
    case 1
    then obtain zs where zs: "before = log s1 @ zs" by (auto simp: prefix_def)
    show ?thesis unfolding zs
      by (rule newest_extension [of pos]) (use order b in \<open>auto simp: zs sorted_wrt_append\<close>)
  next
    case 2
    then obtain zs where zs: "log s1 = before @ zs" by (auto simp: prefix_def)
    have "filter relevant (before @ zs) = filter relevant before"
      by (rule newest_extension [of pos]) (use log_order [OF assms(1)] b in \<open>auto simp: zs sorted_wrt_append\<close>)
    then show ?thesis by (simp only: zs)
  qed
  then show ?thesis using that b by blast
qed

section \<open>Creation\<close>

lemma create_fresh:
  assumes "CreateBoundaryCommandHandler codec mc uuid command boundary (Some append) (Some latest) s = (s', Inr b)"
    "good s" "normalize_command command = Inr def" "criteria = definitionCriteria (Definition_Name def)"
  obtains before new later where "log s' = before @ new # later" "\<forall>d\<in>set before. \<not> relevant d"
    "Boundary_DefinitionPosition b = Some (pos new)" "Boundary_Name b = Definition_Name def"
proof -
  from assms(1,3,4) obtain s1 model s2 eid data meta q where
    load: "create_loadContext boundary (Definition_Name def) latest s = (s1, Inr model)"
    and fresh: "Create_existing model = None"
    and id: "uuid s1 = (s2, Inr eid)"
    and app1: "append (single_append boundary eid EventTypeBoundaryCreated data meta (Create_query model)
        (Create_position model)) s2 = (s', Inr q)"
    and b: "Boundary_DefinitionPosition b = Some q" "Boundary_Name b = Definition_Name def"
    by (auto simp: CreateBoundaryCommandHandler_def bindS_Inr_iff split: if_splits)
  from load assms(4) obtain batch where
    read: "latest boundary criteria s = (s1, Inr batch)"
    and none: "length (Batch_Matches batch) = 1" "existing_definition (Batch_Matches batch) None = Inr (Create_existing model)"
    and q: "Create_query model = criteria"
      "Create_position model = Position (Batch_ContextCommitPosition batch) (Batch_ContextPreparePosition batch)"
    by (auto simp: create_loadContext_def bindS_Inr_iff bindR_Inr_iff Let_def definitionCriteria_def split: if_splits)
  note app = app1 [unfolded q]
  note s1 = latest_grows [OF assms(2) read]
  note s2 = uuid_grows [OF conjunct1 [OF s1] id]
  obtain m where m: "Batch_Matches batch = [m]" using none(1) by (auto simp: length_Suc_conv)
  have "Match_Event m = None" using none(2) fresh by (simp add: m split: option.splits)
  then have "filter relevant (log s1) = []"
    using latest_events [OF assms(2) read] by (auto simp: m assms(4) definitionCriteria_def filter_empty_conv)
  moreover obtain before new later where
    c: "log s' = before @ new # later" "pos new = q" "filter relevant before = filter relevant (log s1)"
    by (rule commit_context [of s1 s2 s' eid EventTypeBoundaryCreated data meta q])
      (use s1 s2 app append_grows latest_position [OF assms(2) read] in auto)
  ultimately show ?thesis using that c b by (auto simp: filter_empty_conv)
qed

section \<open>Activation\<close>

text \<open>The context is what some earlier log held, and the boundary was not active in it.\<close>

definition context_of :: "boundary_codec \<Rightarrow> string \<Rightarrow> 's \<Rightarrow> provision_context \<Rightarrow> bool" where
  "context_of codec name s model \<longleftrightarrow>
     Context_query model = criteria \<and> Boundary_Status (Context_boundary model) \<noteq> StatusActive \<and>
     (\<exists>s1 ms. good s1 \<and> prefix (log s1) (log s) \<and> Context_position model = newest pos relevant (log s1) \<and>
        found_in (log s1) ms \<and> context_boundary codec name ms = Inr (Context_boundary model))"

lemma load_context:
  assumes "provision_loadContext codec boundary name latest s = (s', Inr model)" "good s"
    "criteria = lifecycleCriteria name" "Boundary_Status (Context_boundary model) \<noteq> StatusActive"
  shows "good s' \<and> prefix (log s) (log s') \<and> context_of codec name s' model"
proof -
  from assms(1,3) obtain batch where
    read: "latest boundary criteria s = (s', Inr batch)"
    and ctx: "context_boundary codec name (Batch_Matches batch) = Inr (Context_boundary model)"
      "Context_query model = criteria"
      "Context_position model = Position (Batch_ContextCommitPosition batch) (Batch_ContextPreparePosition batch)"
    by (auto simp: provision_loadContext_def bindS_Inr_iff bindR_Inr_iff Let_def split: if_splits)
  note grow = latest_grows [OF assms(2) read]
  have "found_in (log s') (Batch_Matches batch)" using latest_events [OF assms(2) read] by (simp add: found_in_def)
  then show ?thesis
    using grow ctx assms(4) latest_position [OF assms(2) read] unfolding context_of_def by auto
qed

lemma context_of_later: "context_of codec name s model \<Longrightarrow> prefix (log s) (log s') \<Longrightarrow> context_of codec name s' model"
  unfolding context_of_def by (meson prefix_order.trans)

lemma appendOutcome_grows:
  assumes "appendOutcome codec mc uuid boundary append meta model ty data s = (s', res)" "good s"
    "Context_query model = criteria"
  shows "good s' \<and> prefix (log s) (log s')"
proof -
  obtain s1 r1 where id: "uuid s = (s1, r1)" by fastforce
  note g = uuid_grows [OF assms(2) id]
  show ?thesis
    using assms(1,3) id g append_grows [of s1] prefix_order.trans
    by (auto simp: appendOutcome_def bindS_def map_errorS_def liftS_def split: sum.splits prod.splits) blast+
qed

lemma append_outcome_commit:
  assumes "appendOutcome codec mc uuid boundary append meta model ty data s = (s', Inr b)" "good s"
    "context_of codec name s model"
  obtains before new later ms where "log s' = before @ new # later" "found_in before ms"
    "context_boundary codec name ms = Inr (Context_boundary model)"
    "b = outcome_boundary ty data (pos new) (Context_boundary model)"
proof -
  from assms(3) obtain s0 ms where s0: "good s0" "prefix (log s0) (log s)" "Context_query model = criteria"
    "Context_position model = newest pos relevant (log s0)" "found_in (log s0) ms"
    "context_boundary codec name ms = Inr (Context_boundary model)" by (auto simp: context_of_def)
  from assms(1) s0(3) obtain s1 eid dataJSON metaJSON q where
    id: "uuid s = (s1, Inr eid)"
    and app: "append (single_append boundary eid ty dataJSON metaJSON criteria (Context_position model)) s1 = (s', Inr q)"
    and b: "b = outcome_boundary ty data q (Context_boundary model)"
    by (auto simp: appendOutcome_def bindS_Inr_iff)
  note g = uuid_grows [OF assms(2) id]
  obtain before new later where c: "log s' = before @ new # later" "pos new = q"
    "filter relevant before = filter relevant (log s0)"
    by (rule commit_context [of s0 s1 s' eid ty dataJSON metaJSON q])
      (use s0 g app append_grows prefix_order.trans in auto)
  show ?thesis using that [OF c(1) _ s0(6)] found_in_relevant [OF c(3)] s0(5) b c(2) by auto
qed

lemma activate_loop_commit:
  assumes "activate_loop fuel codec mc uuid boundary append latest name meta model s = Some (s', Inr b)" "good s"
    "context_of codec name s model" "criteria = lifecycleCriteria name"
  shows "\<exists>before new later ms b0. log s' = before @ new # later \<and> found_in before ms \<and>
    context_boundary codec name ms = Inr b0 \<and> Boundary_Status b0 \<noteq> StatusActive \<and>
    Boundary_Status b = StatusActive \<and> Boundary_StatusPosition b = Some (pos new)"
  using assms(1-3)
proof (induction fuel arbitrary: model s)
  case (Suc fuel)
  let ?data = "Activated \<lparr>Activated_Boundary = name\<rparr>"
  obtain s1 res where app: "appendOutcome codec mc uuid boundary append meta model EventTypeBoundaryActivated ?data s = (s1, res)"
    by fastforce
  have q: "Context_query model = criteria" "Boundary_Status (Context_boundary model) \<noteq> StatusActive"
    using Suc.prems(3) by (simp_all add: context_of_def)
  note g1 = appendOutcome_grows [OF app Suc.prems(2) q(1)]
  show ?case
  proof (cases res)
    case (Inr b')
    with Suc.prems(1) app have "s' = s1" "b = b'" by simp_all
    with app Inr append_outcome_commit [of codec mc meta model _ ?data s s' b name] Suc.prems(2,3) q(2)
    show ?thesis by (metis outcome_boundary_active)
  next
    case (Inl err)
    with Suc.prems(1) app obtain s2 model' where
      load: "provision_loadContext codec boundary name latest s1 = (s2, Inr model')"
      and na: "Boundary_Status (Context_boundary model') \<noteq> StatusActive"
      and rec: "activate_loop fuel codec mc uuid boundary append latest name meta model' s2 = Some (s', Inr b)"
      by (auto split: if_splits prod.splits sum.splits)
    from load_context [OF load _ assms(4) na] g1 have "good s2" "context_of codec name s2 model'" by auto
    from Suc.IH [OF rec this] show ?thesis .
  qed
qed simp

lemma provision_commit:
  assumes "ProvisionBoundaryCommandHandler fuel codec mc uuid def meta boundary (Some append) (Some latest)
      (Some provision) s = Some (s', Inr b)" "good s" "criteria = lifecycleCriteria (Definition_Name def)"
    and keeps: "\<And>d v. good v \<Longrightarrow> good (fst (provision d v)) \<and> prefix (log v) (log (fst (provision d v)))"
  shows "\<exists>before new later ms b0. log s' = before @ new # later \<and> found_in before ms \<and>
    context_boundary codec (Definition_Name def) ms = Inr b0 \<and> Boundary_Status b0 \<noteq> StatusActive \<and>
    Boundary_Status b = StatusActive \<and> Boundary_StatusPosition b = Some (pos new)"
proof -
  from assms(1) obtain s1 model s2 where
    load: "provision_loadContext codec boundary (Definition_Name def) latest s = (s1, Inr model)"
    and na: "Boundary_Status (Context_boundary model) \<noteq> StatusActive" and prov: "provision def s1 = (s2, Inr ())"
    and loop: "activate_loop fuel codec mc uuid boundary append latest (Definition_Name def) meta model s2 = Some (s', Inr b)"
    by (auto simp: ProvisionBoundaryCommandHandler_def record_failure_def split: sum.splits prod.splits if_splits)
  note g = load_context [OF load assms(2,3) na]
  from g keeps [of s1 def] prov have "good s2" "context_of codec (Definition_Name def) s2 model"
    using context_of_later by auto
  from activate_loop_commit [OF loop this assms(3)] show ?thesis .
qed

end

end
