(* ===== verification/Sqlite_Commands.thy ===== *)
theory Sqlite_Commands
  imports Command_Store Sqlite_Backend
begin

text \<open>
  The command handlers over the SQLite store, through the adapter of
  \<^verbatim>\<open>internal/eventstoreadapter/adapter.go\<close>. Other processes write to the same boundary: before every call
  of the handler the next of their batches is committed.
\<close>

section \<open>The shared store\<close>

record sqlite_world =
  world_saver :: sqlite_saver
  world_others :: "preparedSQLiteSave list list"
  world_calls :: nat

definition others_write :: "sqlite_env \<Rightarrow> tx_faults \<Rightarrow> string \<Rightarrow> sqlite_world \<Rightarrow> sqlite_world" where
  "others_write env fx admin w =
     (case world_others w of
        [] \<Rightarrow> w
      | batch # rest \<Rightarrow>
          w\<lparr>world_saver := (if list_all wf_request batch then fst (executeBatch env None fx admin batch (world_saver w))
                            else world_saver w),
            world_others := rest\<rparr>)"

definition world_append :: "sqlite_env \<Rightarrow> tx_faults \<Rightarrow> string \<Rightarrow> sqlite_world appender" where
  "world_append env fx admin request w =
     (let w1 = others_write env fx admin w
      in (case Adapter_Append (\<lambda>events boundary checks st. apsnd the (sqlite_save env None fx None st events boundary checks))
                 request (world_saver w1) of
            (st, res) \<Rightarrow> (w1\<lparr>world_saver := st\<rparr>, res)))"

definition world_latest :: "sqlite_env \<Rightarrow> read_env \<Rightarrow> tx_faults \<Rightarrow> string \<Rightarrow> sqlite_world latest_retriever" where
  "world_latest env renv fx admin boundary criteria w =
     (let w1 = others_write env fx admin w
      in (w1, Adapter_LatestByCriteria (\<lambda>query st. SqliteGetLatestByCriteria env renv (saver_pools st) query)
                boundary criteria (world_saver w1)))"

definition world_uuid :: "(nat \<Rightarrow> string result) \<Rightarrow> sqlite_world uuid_source" where
  "world_uuid new_id w = (w\<lparr>world_calls := world_calls w + 1\<rparr>, new_id (world_calls w))"

text \<open>The log of the admin boundary and what a criterion selects of it.\<close>

definition world_log :: "string \<Rightarrow> sqlite_world \<Rightarrow> document list" where
  "world_log admin w = (case saver_pools (world_saver w) admin of None \<Rightarrow> [] | Some db \<Rightarrow> db_events db)"

definition criterion_hit :: "sqlite_env \<Rightarrow> ReadCriterion \<Rightarrow> document \<Rightarrow> bool" where
  "criterion_hit env c d \<longleftrightarrow> criterion_matches (ext_sprint (env_json env)) d (ReadCriterion_Tags c)"

definition row_reads :: "read_env \<Rightarrow> document \<Rightarrow> ReadEvent \<Rightarrow> bool" where
  "row_reads renv d e \<longleftrightarrow> scanReadEventRow renv d = Inr e"

text \<open>
  What is relied on of SQLite: the rendered text of the criteria and of their normal form selects the
  matching documents.
\<close>

definition criteria_meaning :: "ReadCriterion list \<Rightarrow> ReadTag set set" where
  "criteria_meaning criteria = (\<lambda>c. canonical_tag ` set (ReadCriterion_Tags c)) ` set criteria"

definition sql_supports :: "sqlite_env \<Rightarrow> ReadCriterion list \<Rightarrow> bool" where
  "sql_supports env criteria \<longleftrightarrow>
     sql_agrees env criteria UNIV \<and>
     (\<forall>rs. normal_criteria rs \<and> crit_set ` set rs = criteria_meaning criteria \<longrightarrow> sql_agrees env rs UNIV)"

definition world_good :: "sqlite_env \<Rightarrow> string \<Rightarrow> ReadCriterion list \<Rightarrow> sqlite_world \<Rightarrow> bool" where
  "world_good env admin criteria w \<longleftrightarrow>
     saver_inv (world_saver w) \<and> saver_pools (world_saver w) admin \<noteq> None \<and> sql_supports env criteria"

section \<open>The log grows\<close>

lemma with_ctx_same: "with_ctx live (\<lambda>i. Save_ctx_err (live ! i)) = live"
  by (rule nth_equalityI) (simp_all add: with_ctx_def)

lemma executeBatch_exec:
  assumes "executeBatch env takeErr fx b live st = (st', out)"
  shows "sqlite_exec env b live st st' (flush_of out)"
  unfolding sqlite_exec_def using assms with_ctx_same [of live] by metis

lemma executeBatch_grows:
  assumes "saver_inv st" "list_all wf_request live" "executeBatch env takeErr fx b live st = (st', out)"
    "saver_pools st a = Some db"
  shows "saver_inv st' \<and> (\<exists>db'. saver_pools st' a = Some db' \<and> prefix (db_events db) (db_events db'))"
  using sqlite_exec_inv [OF assms(1,2) executeBatch_exec [OF assms(3)]]
    sqlite_exec_extends [OF assms(1,2) executeBatch_exec [OF assms(3)] assms(4)]
  by (auto simp: db_extends_def prefix_def)

lemma sqlite_save_grows:
  assumes "sqlite_save env takeErr fx ctxErr st events b checks = (st', res)" "saver_inv st" "saver_pools st a = Some db"
  shows "saver_inv st' \<and> (\<exists>db'. saver_pools st' a = Some db' \<and> prefix (db_events db) (db_events db'))"
proof (cases "length events = 0 \<or> saver_pools st b = None")
  case False
  show ?thesis
  proof (cases "prepareSQLiteSave env None events checks")
    case (Inr p)
    obtain st1 out where run: "executeBatch env takeErr fx b [p] st = (st1, out)" by fastforce
    then have "st' = st1" using assms(1) False Inr by (auto simp: sqlite_save_def Let_def sqlite_submit_def)
    moreover have "list_all wf_request [p]" using prepareSQLiteSave_wf [OF Inr] by simp
    ultimately show ?thesis using executeBatch_grows [OF assms(2) _ run assms(3)] by simp
  qed (use assms False in \<open>auto simp: sqlite_save_def Let_def\<close>)
qed (use assms in \<open>auto simp: sqlite_save_def Let_def\<close>)

lemma world_log_prefix:
  assumes "world_good env admin criteria w"
    and "\<And>db. saver_pools (world_saver w) admin = Some db \<Longrightarrow> saver_inv (world_saver w') \<and>
      (\<exists>db'. saver_pools (world_saver w') admin = Some db' \<and> prefix (db_events db) (db_events db'))"
  shows "world_good env admin criteria w' \<and> prefix (world_log admin w) (world_log admin w')"
  using assms(1) assms(2) by (fastforce simp: world_good_def world_log_def)

lemma others_write_grows:
  assumes "world_good env admin criteria w"
  shows "world_good env admin criteria (others_write env fx admin w) \<and>
    prefix (world_log admin w) (world_log admin (others_write env fx admin w))"
proof (rule world_log_prefix [OF assms])
  fix db assume db: "saver_pools (world_saver w) admin = Some db"
  have inv: "saver_inv (world_saver w)" using assms by (simp add: world_good_def)
  show "saver_inv (world_saver (others_write env fx admin w)) \<and>
      (\<exists>db'. saver_pools (world_saver (others_write env fx admin w)) admin = Some db' \<and> prefix (db_events db) (db_events db'))"
  proof (cases "\<exists>batch rest. world_others w = batch # rest \<and> list_all wf_request batch")
    case True
    then obtain batch rest where b: "world_others w = batch # rest" "list_all wf_request batch" by blast
    obtain st' out where run: "executeBatch env None fx admin batch (world_saver w) = (st', out)" by fastforce
    show ?thesis using executeBatch_grows [OF inv b(2) run db] b run by (simp add: others_write_def)
  next
    case False
    then show ?thesis using inv db by (auto simp: others_write_def split: list.splits)
  qed
qed

lemma Adapter_Append_state:
  assumes "Adapter_Append save request st = (st', res)"
  obtains (same) "st' = st"
  | (saved) events checks where "st' = fst (save events (Append_Boundary request) checks st)"
  using assms by (auto simp: Adapter_Append_def split: prod.splits sum.splits option.splits) (metis fst_conv)+

lemma world_append_grows:
  assumes "world_good env admin criteria w" "world_append env fx admin request w = (w', res)"
  shows "world_good env admin criteria w' \<and> prefix (world_log admin w) (world_log admin w')"
proof -
  let ?w1 = "others_write env fx admin w"
  let ?save = "\<lambda>events boundary checks st. apsnd the (sqlite_save env None fx None st events boundary checks)"
  note g1 = others_write_grows [OF assms(1)]
  obtain st where run: "Adapter_Append ?save request (world_saver ?w1) = (st, res)" "w' = ?w1\<lparr>world_saver := st\<rparr>"
    using assms(2) by (auto simp: world_append_def Let_def split: prod.splits)
  have "world_good env admin criteria w' \<and> prefix (world_log admin ?w1) (world_log admin w')"
  proof (rule world_log_prefix [OF conjunct1 [OF g1]])
    fix db assume db: "saver_pools (world_saver ?w1) admin = Some db"
    have inv: "saver_inv (world_saver ?w1)" using g1 by (simp add: world_good_def)
    from run(1) have "saver_inv st \<and> (\<exists>db'. saver_pools st admin = Some db' \<and> prefix (db_events db) (db_events db'))"
    proof (cases rule: Adapter_Append_state)
      case (saved events checks)
      then show ?thesis using sqlite_save_grows [OF prod.collapse [symmetric] inv db] by (simp add: apsnd_def)
    qed (use inv db in auto)
    then show "saver_inv (world_saver w') \<and>
        (\<exists>db'. saver_pools (world_saver w') admin = Some db' \<and> prefix (db_events db) (db_events db'))"
      by (simp add: run(2))
  qed
  then show ?thesis using g1 by (meson prefix_order.trans)
qed

section \<open>What a read finds\<close>

lemma run_latest_last:
  assumes "store_layout ns db"
  shows "run_latest env db (Some cond) =
    (let rows = filter (env_where env cond) (db_events db) in if rows = [] then [] else [last rows])"
proof -
  have "sort_key position_of (filter (env_where env cond) (db_events db)) = filter (env_where env cond) (db_events db)"
    by (intro sort_key_sorted_rows sorted_filter_rows store_layout_sorted [OF assms])
  moreover have "take 1 (rev xs) = (if xs = [] then [] else [last xs])" for xs :: "document list"
    by (cases xs rule: rev_cases) simp_all
  ultimately show ?thesis by (simp add: run_latest_def Let_def)
qed

abbreviation row_found :: "sqlite_env \<Rightarrow> read_env \<Rightarrow> sqlite_db \<Rightarrow> (document \<Rightarrow> bool) \<Rightarrow> LatestCriterionMatch \<Rightarrow> bool" where
  "row_found env renv db P m \<equiv>
     (case Match_Event m of
        None \<Rightarrow> filter P (db_events db) = []
      | Some e \<Rightarrow> filter P (db_events db) \<noteq> [] \<and> row_reads renv (last (filter P (db_events db))) e)"

lemma latest_update_matches: "Batch_Matches (fst (latest_update e x)) = Batch_Matches (fst x)"
  by (simp add: latest_update_def Let_def split: prod.splits)

lemma latest_criteria_loop_events:
  assumes "store_layout ns db" "latest_criteria_loop env renv db criteria i x = Inr res"
  shows "\<exists>ms. Batch_Matches res = Batch_Matches (fst x) @ ms \<and>
    list_all2 (\<lambda>c m. \<exists>cond. criterion_sql env c = Inr cond \<and> row_found env renv db (env_where env cond) m) criteria ms"
  using assms(2)
proof (induction criteria arbitrary: i x)
  case (Cons c criteria)
  obtain cond where cond: "criterion_sql env c = Inr cond"
    using Cons.prems by (auto simp: criterion_sql_def Let_def split: if_splits sum.splits)
  let ?rows = "filter (env_where env cond) (db_events db)"
  have "\<exists>x' m i'. latest_criteria_loop env renv db criteria i' x' = Inr res \<and>
      Batch_Matches (fst x') = Batch_Matches (fst x) @ [m] \<and> row_found env renv db (env_where env cond) m"
  proof (cases "?rows = []")
    case True
    then have run: "latest_criteria_loop env renv db criteria (i + 1)
        (apfst (\<lambda>b. b\<lparr>Batch_Matches := Batch_Matches b @ [\<lparr>Match_Event = None\<rparr>]\<rparr>) x) = Inr res"
      using Cons.prems cond run_latest_last [OF assms(1), of env cond]
      by (auto simp: criterion_sql_def Let_def split: if_splits option.splits)
    show ?thesis
      by (rule exI, rule exI [of _ "\<lparr>Match_Event = None\<rparr>"], rule exI, rule conjI [OF run]) (use True in simp)
  next
    case False
    then obtain e where e: "scanReadEventRow renv (last ?rows) = Inr e"
      and run: "latest_criteria_loop env renv db criteria (i + 1)
        (latest_update e (apfst (\<lambda>b. b\<lparr>Batch_Matches := Batch_Matches b @ [\<lparr>Match_Event = Some e\<rparr>]\<rparr>) x)) = Inr res"
      using Cons.prems cond run_latest_last [OF assms(1), of env cond]
      by (auto simp: criterion_sql_def Let_def split: if_splits option.splits sum.splits)
    show ?thesis
      by (rule exI, rule exI [of _ "\<lparr>Match_Event = Some e\<rparr>"], rule exI, rule conjI [OF run])
        (use False e in \<open>simp add: latest_update_matches row_reads_def\<close>)
  qed
  then obtain x' m i' where nxt: "latest_criteria_loop env renv db criteria i' x' = Inr res"
    "Batch_Matches (fst x') = Batch_Matches (fst x) @ [m]" "row_found env renv db (env_where env cond) m" by blast
  from Cons.IH [OF nxt(1)] obtain ms where "Batch_Matches res = Batch_Matches (fst x') @ ms"
    "list_all2 (\<lambda>c m. \<exists>cond. criterion_sql env c = Inr cond \<and> row_found env renv db (env_where env cond) m) criteria ms"
    by blast
  then show ?case using nxt(2,3) cond by (intro exI [of _ "m # ms"]) simp
qed simp

lemma world_latest_read:
  assumes "world_good env admin criteria w" "world_latest env renv fx admin admin criteria w = (w', Inr batch)"
  obtains db where "saver_pools (world_saver w') admin = Some db" "store_inv db" "world_log admin w' = db_events db"
    "SqliteGetLatestByCriteria env renv (saver_pools (world_saver w'))
       \<lparr>Latest_Boundary = admin, Latest_Criteria = criteria\<rparr> = Inr batch"
    "sql_agrees env criteria (set (db_events db))"
proof -
  have w': "w' = others_write env fx admin w"
    and read: "SqliteGetLatestByCriteria env renv (saver_pools (world_saver w'))
       \<lparr>Latest_Boundary = admin, Latest_Criteria = criteria\<rparr> = Inr batch"
    using assms(2) by (auto simp: world_latest_def Let_def Adapter_LatestByCriteria_def)
  note g = conjunct1 [OF others_write_grows [OF assms(1), of fx]]
  then obtain db where "saver_pools (world_saver w') admin = Some db" by (auto simp: world_good_def w')
  then show ?thesis using g read that by (auto simp: world_good_def w' saver_inv_def world_log_def sql_supports_def sql_agrees_def)
qed

lemma world_latest_events:
  assumes "world_good env admin criteria w" "world_latest env renv fx admin admin criteria w = (w', Inr batch)"
  shows "list_all2 (\<lambda>c m. case Match_Event m of
      None \<Rightarrow> filter (criterion_hit env c) (world_log admin w') = []
    | Some e \<Rightarrow> filter (criterion_hit env c) (world_log admin w') \<noteq> [] \<and>
        row_reads renv (last (filter (criterion_hit env c) (world_log admin w'))) e) criteria (Batch_Matches batch)"
proof -
  obtain db where db: "saver_pools (world_saver w') admin = Some db" "store_inv db" "world_log admin w' = db_events db"
    "SqliteGetLatestByCriteria env renv (saver_pools (world_saver w'))
       \<lparr>Latest_Boundary = admin, Latest_Criteria = criteria\<rparr> = Inr batch"
    "sql_agrees env criteria (set (db_events db))" by (rule world_latest_read [OF assms])
  from db(2) obtain ns where lay: "store_layout ns db" by (auto simp: store_inv_def)
  from db(4) db(1) obtain x where "latest_criteria_loop env renv db criteria 0 x = Inr batch" "Batch_Matches (fst x) = []"
    by (elim SqliteGetLatest_run) auto
  with latest_criteria_loop_events [OF lay] have
    "list_all2 (\<lambda>c m. \<exists>cond. criterion_sql env c = Inr cond \<and> row_found env renv db (env_where env cond) m)
       criteria (Batch_Matches batch)" by fastforce
  then show ?thesis unfolding db(3)
  proof (rule list.rel_mono_strong)
    fix c m assume c: "c \<in> set criteria"
      and "\<exists>cond. criterion_sql env c = Inr cond \<and> row_found env renv db (env_where env cond) m"
    then obtain cond where cond: "criterion_sql env c = Inr cond" "row_found env renv db (env_where env cond) m" by blast
    have "filter (env_where env cond) (db_events db) = filter (criterion_hit env c) (db_events db)"
      using db(5) c cond(1) by (intro filter_cong refl) (auto simp: sql_agrees_def criterion_sql_def criterion_hit_def)
    then show "row_found env renv db (criterion_hit env c) m" using cond(2) by (simp only:)
  qed
qed

lemma world_latest_position:
  assumes "world_good env admin criteria w" "world_latest env renv fx admin admin criteria w = (w', Inr batch)"
  shows "context_position batch = newest position_of (\<lambda>d. \<exists>c\<in>set criteria. criterion_hit env c d) (world_log admin w')"
proof -
  obtain db where db: "saver_pools (world_saver w') admin = Some db" "store_inv db" "world_log admin w' = db_events db"
    "SqliteGetLatestByCriteria env renv (saver_pools (world_saver w'))
       \<lparr>Latest_Boundary = admin, Latest_Criteria = criteria\<rparr> = Inr batch"
    "sql_agrees env criteria (set (db_events db))" by (rule world_latest_read [OF assms])
  show ?thesis
    using latest_context(1) [OF db(4) _ db(2)] db(1,3,5) by (simp add: latest_position_def newest_def criterion_hit_def)
qed

section \<open>What an append checked\<close>

lemma canonical_tag_valid: "ValidTag t \<Longrightarrow> ValidTag (canonical_tag t)"
  by (auto simp: ValidateTag_ok canonical_tag_def operators_def)

lemma storageQuery_meaning:
  "criteria \<noteq> [] \<Longrightarrow> query_meaning (the (storageQuery criteria)) = criteria_meaning criteria"
  by (auto simp: storageQuery_def query_meaning_def criteria_meaning_def criterion_meaning_def image_image)

text \<open>Criteria with the same meaning match the same documents.\<close>

lemma meaning_matches:
  assumes "crit_set ` set rs = criteria_meaning criteria"
  shows "(\<exists>r\<in>set rs. criterion_matches sp d (ReadCriterion_Tags r)) \<longleftrightarrow>
    (\<exists>c\<in>set criteria. criterion_matches sp d (ReadCriterion_Tags c))"
proof -
  have "(\<exists>r\<in>set rs. criterion_matches sp d (ReadCriterion_Tags r)) \<longleftrightarrow>
      (\<exists>S\<in>crit_set ` set rs. \<forall>t\<in>S. tag_matches sp d t)"
    by (simp add: criterion_matches_def list_all_iff)
  also have "\<dots> \<longleftrightarrow> (\<exists>c\<in>set criteria. criterion_matches sp d (ReadCriterion_Tags c))"
    unfolding assms criteria_meaning_def by (simp add: criterion_matches_set)
  finally show ?thesis .
qed

lemma current_check_newest:
  assumes "check_current env db c" "prepareConsistencyChecks (env_json env) [chk] = [c]"
    "crit_set ` set (Check_Criteria chk) = criteria_meaning criteria"
    "\<forall>c\<in>set criteria. ReadCriterion_Tags c \<noteq> [] \<and> list_all ValidTag (ReadCriterion_Tags c)" "criteria \<noteq> []"
    "sql_agrees env (Check_Criteria chk) (set (db_events db))"
  shows "newest position_of (\<lambda>d. \<exists>c\<in>set criteria. criterion_hit env c d) (db_events db) = Check_Position chk"
proof -
  let ?rs = "Check_Criteria chk" and ?sp = "ext_sprint (env_json env)"
  have valid: "list_all ValidTag (ReadCriterion_Tags r) \<and> ReadCriterion_Tags r \<noteq> []" if "r \<in> set ?rs" for r
  proof -
    from that assms(3) obtain c where c: "c \<in> set criteria" "crit_set r = canonical_tag ` crit_set c"
      unfolding criteria_meaning_def by (metis (no_types, lifting) imageE imageI)
    have "crit_set r \<noteq> {}" using c assms(4) by simp
    moreover have "ValidTag t" if "t \<in> crit_set r" for t
      using that c assms(4) canonical_tag_valid by (auto simp: list_all_iff)
    ultimately show ?thesis by (auto simp: list_all_iff)
  qed
  moreover have "?rs \<noteq> []" using assms(3,5) by (auto simp: criteria_meaning_def)
  ultimately have "\<forall>r\<in>set ?rs. list_all ValidTag (ReadCriterion_Tags r)" "\<exists>r\<in>set ?rs. ReadCriterion_Tags r \<noteq> []"
    by (auto simp: neq_Nil_conv)
  from latestCriteriaQueries_ok [OF this assms(6)] obtain queries where
    q: "latestCriteriaQueries (env_json env) ?rs = Inr queries"
    "\<forall>d\<in>set (db_events db). (\<exists>q\<in>set queries. query_matches env q d) \<longleftrightarrow>
       (\<exists>r\<in>set ?rs. ReadCriterion_Tags r \<noteq> [] \<and> criterion_matches ?sp d (ReadCriterion_Tags r))" by blast
  have "latest_position (\<lambda>d. \<exists>q\<in>set queries. query_matches env q d) db =
      latest_position (\<lambda>d. \<exists>c\<in>set criteria. criterion_matches ?sp d (ReadCriterion_Tags c)) db"
    using q(2) valid meaning_matches [OF assms(3)] by (intro latest_position_cong) blast
  then show ?thesis
    using assms(1,2) q(1)
    by (auto simp: prepareConsistencyChecks_def check_current_def newest_def latest_position_def criterion_hit_def)
qed

text \<open>The event of a save of one event, at the reported position.\<close>

lemma committed_single:
  assumes "committed_save env now db p gid" "store_inv db" "length (Save_inserts p) = 1"
  obtains new later where "db_events db = db_events (log_prefix db (gid - 1)) @ new # later" "position_of new = Position gid gid"
proof -
  from committed_event [OF assms(1,2)] obtain d where d: "d \<in> set (db_events db)" "position_of d = Position gid gid" by blast
  then obtain k where k: "k < length (db_events db)" "db_events db ! k = d" by (auto simp: in_set_conv_nth)
  from assms(2) obtain ns where "store_layout ns db" by (auto simp: store_inv_def)
  from store_layout_ids [OF this] have "map global_id (db_events db) ! k = [1..int (length (db_events db))] ! k" by simp
  then have "gid = int k + 1" using k d(2) by (simp add: position_of_def)
  then have "nat (gid - 1) = k" by simp
  then have "db_events db = db_events (log_prefix db (gid - 1)) @ d # drop (Suc k) (db_events db)"
    using k id_take_nth_drop [OF k(1)] by (simp add: log_prefix_def)
  then show ?thesis using that d(2) by blast
qed

lemma Adapter_Append_success:
  assumes "Adapter_Append save request st = (st', Inr q)"
  obtains prepared checks tx gid commit where
    "PrepareEventsForSave (map append_input (Append_Events request)) = Inr prepared"
    "ConsistencyChecksFromObservations (map storage_observation (Append_Consistency request)) = Inr checks"
    "save prepared (Append_Boundary request) checks st = (st', Inr (tx, gid))"
    "ParseInt tx = Some commit" "q = Position commit gid"
  using assms by (auto simp: Adapter_Append_def split: prod.splits sum.splits option.splits)

lemma single_observation:
  assumes "ConsistencyChecksFromObservations [storage_observation \<lparr>Core_Query = criteria, Core_Position = p\<rparr>] = Inr checks"
  obtains chk where "checks = [chk]" "normal_criteria (Check_Criteria chk)"
    "crit_set ` set (Check_Criteria chk) = criteria_meaning criteria" "Check_Position chk = p" "criteria \<noteq> []"
    "\<forall>c\<in>set criteria. ReadCriterion_Tags c \<noteq> [] \<and> list_all ValidTag (ReadCriterion_Tags c)"
proof -
  let ?ob = "storage_observation \<lparr>Core_Query = criteria, Core_Position = p\<rparr>"
  have "observation_ok ?ob" using ConsistencyChecks_accepts [of "[?ob]"] assms by auto
  then have acc: "acceptable_query (storageQuery criteria)"
    by (auto simp: observation_ok_def storage_observation_def)
  then have ne: "criteria \<noteq> []" by (auto simp: acceptable_query_def storageQuery_def)
  have valid: "\<forall>c\<in>set criteria. ReadCriterion_Tags c \<noteq> [] \<and> list_all ValidTag (ReadCriterion_Tags c)"
    using acc ne by (auto simp: acceptable_query_def storageQuery_def acceptable_criterion_def list_all_iff)
  note res = ConsistencyChecks_result [OF assms]
  have pair: "check_pair ` set checks = {(criteria_meaning criteria, p)}"
    using res(1) storageQuery_meaning [OF ne] by (simp add: observation_pair_def storage_observation_def)
  have "chk1 = chk2" if "chk1 \<in> set checks" "chk2 \<in> set checks" for chk1 chk2
  proof -
    have "check_pair chk1 = check_pair chk2" using that pair by (metis image_eqI singletonD)
    then have "Check_Criteria chk1 = Check_Criteria chk2"
      using res(3) that normal_criteria_unique by (simp add: check_pair_def)
    then show ?thesis using res(2) that by (meson distinct_map inj_onD)
  qed
  moreover have "checks \<noteq> []" using pair by auto
  moreover have "distinct checks" using res(2) distinct_map by blast
  ultimately obtain chk where chk: "checks = [chk]"
    by (metis distinct_length_2_or_more list.set_intros(1) list.set_intros(2) neq_Nil_conv)
  then show ?thesis using that res(3) pair ne valid by (auto simp: check_pair_def)
qed

lemma world_append_checked:
  assumes "world_good env admin criteria w"
    "world_append env fx admin (single_append admin eid ty data meta criteria p) w = (w', Inr q)"
  shows "\<exists>before new later. world_log admin w' = before @ new # later \<and> position_of new = q \<and>
    newest position_of (\<lambda>d. \<exists>c\<in>set criteria. criterion_hit env c d) before = p"
proof -
  let ?w1 = "others_write env fx admin w"
  let ?save = "\<lambda>events boundary checks st. apsnd the (sqlite_save env None fx None st events boundary checks)"
  let ?req = "single_append admin eid ty data meta criteria p"
  obtain st where run: "Adapter_Append ?save ?req (world_saver ?w1) = (st, Inr q)" "w' = ?w1\<lparr>world_saver := st\<rparr>"
    using assms(2) by (auto simp: world_append_def Let_def split: prod.splits)
  from run(1) obtain prepared checks tx gid commit where
    prep: "PrepareEventsForSave (map append_input (Append_Events ?req)) = Inr prepared"
    and obs: "ConsistencyChecksFromObservations (map storage_observation (Append_Consistency ?req)) = Inr checks"
    and save1: "?save prepared (Append_Boundary ?req) checks (world_saver ?w1) = (st, Inr (tx, gid))"
    and q: "ParseInt tx = Some commit" "q = Position commit gid" by (rule Adapter_Append_success)
  have save: "sqlite_save env None fx None (world_saver ?w1) prepared admin checks = (st, Some (Inr (tx, gid)))"
    using save1 by (auto simp: sqlite_save_def Let_def single_append_def)
  have inv: "saver_inv (world_saver ?w1)" using others_write_grows [OF assms(1)] by (simp add: world_good_def)
  obtain pr db now where c: "prepareSQLiteSave env None prepared checks = Inr pr" "saver_pools st admin = Some db"
    "committed_save env now db pr gid" "tx = FormatInt gid" "saver_inv st"
    by (rule sqlite_save_committed [OF save inv])
  have dbinv: "store_inv db" using c(2,5) by (auto simp: saver_inv_def)
  have "commit = gid" using q(1) c(4) committed_bounds [OF c(3) dbinv] by simp
  have one: "length (Save_inserts pr) = 1"
    using c(1) prep mapR_length
    by (fastforce simp: prepareSQLiteSave_def prepareEventDocuments_def PrepareEventsForSave_def single_append_def)
  obtain new later where new: "db_events db = db_events (log_prefix db (gid - 1)) @ new # later" "position_of new = Position gid gid"
    by (rule committed_single [OF c(3) dbinv one])
  obtain chk where chk: "checks = [chk]" "normal_criteria (Check_Criteria chk)"
    "crit_set ` set (Check_Criteria chk) = criteria_meaning criteria" "Check_Position chk = p" "criteria \<noteq> []"
    "\<forall>c\<in>set criteria. ReadCriterion_Tags c \<noteq> [] \<and> list_all ValidTag (ReadCriterion_Tags c)"
    by (rule single_observation [of criteria p checks]) (use obs in \<open>simp_all add: single_append_def\<close>)
  have prepared: "Save_preparedChecks pr = prepareConsistencyChecks (env_json env) [chk]"
    using c(1) chk(1) by (auto simp: prepareSQLiteSave_def)
  then obtain pc where pc: "Save_preparedChecks pr = [pc]" by (auto simp: prepareConsistencyChecks_def)
  have "check_current env (log_prefix db (gid - 1)) pc" using c(3) one pc by (simp add: committed_save_def Let_def)
  moreover have "sql_agrees env (Check_Criteria chk) (set (db_events (log_prefix db (gid - 1))))"
    using assms(1) chk(2,3) by (auto simp: world_good_def sql_supports_def sql_agrees_def)
  ultimately have "newest position_of (\<lambda>d. \<exists>c\<in>set criteria. criterion_hit env c d) (db_events (log_prefix db (gid - 1))) = p"
    using current_check_newest [of env _ pc chk criteria] prepared pc chk by simp
  moreover have "world_log admin w' = db_events db" using run(2) c(2) by (simp add: world_log_def)
  ultimately show ?thesis using new q(2) \<open>commit = gid\<close>
    by (intro exI [of _ "db_events (log_prefix db (gid - 1))"] exI [of _ new] exI [of _ later]) simp
qed

section \<open>The SQLite store meets the contract\<close>

interpretation sqlite_commands:
  command_store "world_append env fx admin" "world_latest env renv fx admin" "world_uuid new_id" admin criteria
    "world_good env admin criteria" "world_log admin" position_of "criterion_hit env" "row_reads renv"
  for env fx admin renv new_id criteria
proof
  show "sorted_wrt (<) (map position_of (world_log admin w)) \<and> (\<forall>d\<in>set (world_log admin w). NotExistsPosition < position_of d)"
    if "world_good env admin criteria w" for w
  proof -
    from that obtain db where db: "saver_pools (world_saver w) admin = Some db" "store_inv db"
      by (auto simp: world_good_def saver_inv_def)
    then obtain ns where "store_layout ns db" by (auto simp: store_inv_def)
    with db(1) show ?thesis
      using store_layout_sorted store_layout_positions(3) by (simp add: world_log_def)
  qed
  show "world_good env admin criteria w' \<and> prefix (world_log admin w) (world_log admin w')"
    if "world_good env admin criteria w" "world_latest env renv fx admin admin criteria w = (w', res)" for w w' res
    using that others_write_grows [OF that(1)] by (auto simp: world_latest_def Let_def)
  show "world_good env admin criteria w' \<and> prefix (world_log admin w) (world_log admin w')"
    if "world_good env admin criteria w" "world_uuid new_id w = (w', eid')" for w w' eid'
    using that by (auto simp: world_uuid_def world_good_def world_log_def)
qed (fact world_append_grows world_latest_events world_latest_position world_append_checked)+

end
