(* ===== verification/Sample_Commands.thy ===== *)
theory Sample_Commands
  imports Sample_Api Sqlite_Commands
begin

text \<open>
  A sample admin boundary for the commands: the boundary \<open>orders\<close> is defined and activated in it.
\<close>

text \<open>SQLite on the conditions of the lifecycle of \<open>orders\<close>: their texts differ in length.\<close>

definition command_type :: "string \<Rightarrow> string" where
  "command_type cond =
     (if length cond = 333 then EventTypeBoundaryCreated
      else if length cond = 335 then EventTypeBoundaryActivated else EventTypeBoundaryFailed)"

definition command_env :: sqlite_env where
  "command_env =
     sample_env\<lparr>env_where := (\<lambda>cond d. criterion_matches sample_sprint d
                  (ReadCriterion_Tags (event_criterion ''orders'' (command_type cond)))),
               env_marshal := (\<lambda>_. Inr ''[]'')\<rparr>"

definition command_world :: "sqlite_db \<Rightarrow> sqlite_world" where
  "command_world db =
     \<lparr>world_saver = sample_saver\<lparr>saver_pools := [''admin'' \<mapsto> db]\<rparr>, world_others = [], world_calls = 0\<rparr>"

definition command_codec :: boundary_codec where
  "command_codec = sample_codec\<lparr>unmarshal_created := (\<lambda>t. Inr
     \<lparr>Created_Boundary = sample_field t ''boundary'', Created_Description = '''',
      Created_Placement = \<lparr>Placement_Backend = ''sqlite'', Placement_Namespace = ''main''\<rparr>\<rparr>)\<rparr>"

definition command_metadata :: metadata_codec where
  "command_metadata = \<lparr>marshal_query = (\<lambda>_. Inr ''q''), marshal_metadata = (\<lambda>m. Inr (Json (JObj m)))\<rparr>"

definition command_ids :: "nat \<Rightarrow> string result" where
  "command_ids n = Inr (''id'' @ FormatInt (int n))"

definition command_create :: CreateBoundaryCommand where
  "command_create =
     \<lparr>Command_Name = ''orders'', Command_Description = '''',
      Command_Placement = \<lparr>Placement_Backend = ''sqlite'', Placement_Namespace = ''main''\<rparr>, Command_Metadata = []\<rparr>"

definition command_definition :: Definition where
  "command_definition =
     \<lparr>Definition_Name = ''orders'', Definition_Description = '''',
      Definition_Placement = \<lparr>Placement_Backend = ''sqlite'', Placement_Namespace = ''main''\<rparr>\<rparr>"

definition lifecycle_types_list :: "string list" where
  "lifecycle_types_list = [EventTypeBoundaryCreated, EventTypeBoundaryActivated, EventTypeBoundaryFailed]"

definition normal_lifecycle :: "string \<Rightarrow> ReadTag list" where
  "normal_lifecycle t =
     [\<lparr>Tag_Key = ''__eventType'', Tag_Value = t, Tag_Operator = ''''\<rparr>,
      \<lparr>Tag_Key = ''boundary'', Tag_Value = ''orders'', Tag_Operator = ''''\<rparr>]"

text \<open>A lifecycle with an orphaned activation and two failures.\<close>

definition lifecycle_sample :: "ReadEvent list" where
  "lifecycle_sample =
     map (\<lambda>(n, ty). \<lparr>Read_WriteId = [], Read_EventId = [], Read_EventType = ty,
            Read_Data = Json (JObj [(''boundary'', JStr ''orders''), (''error'', JStr ''x'')]),
            Read_Metadata = Json JNull, Read_CommitPosition = n, Read_PreparePosition = n, Read_DateCreated = 0\<rparr>)
       [(1, EventTypeBoundaryActivated), (2, EventTypeBoundaryCreated), (3, EventTypeBoundaryFailed),
        (4, EventTypeBoundaryFailed)]"

lemma command_conditions:
  "list_all (\<lambda>t. list_all (\<lambda>tags. case buildCriteriaSQL (env_json command_env) [EncodeCriterion tags] of
       Inr cond \<Rightarrow> command_type cond = t | Inl _ \<Rightarrow> False)
     [ReadCriterion_Tags (event_criterion ''orders'' t), normal_lifecycle t]) lifecycle_types_list"
  by code_simp

lemma normal_lifecycle_sorted: "list_all (\<lambda>t. sorted_tags (normal_lifecycle t)) lifecycle_types_list"
  by code_simp

lemma command_condition:
  assumes "t \<in> set lifecycle_types_list" "tags \<in> {ReadCriterion_Tags (event_criterion ''orders'' t), normal_lifecycle t}"
    "buildCriteriaSQL (env_json command_env) [EncodeCriterion tags] = Inr cond"
  shows "env_where command_env cond d \<longleftrightarrow> criterion_matches (ext_sprint (env_json command_env)) d tags"
proof -
  have "command_type cond = t"
    using bspec [OF command_conditions [unfolded list_all_iff] assms(1)] assms(2,3) by auto
  moreover have "criterion_matches sp d (ReadCriterion_Tags (event_criterion ''orders'' t)) = criterion_matches sp d tags" for sp
    using assms(2) by (auto simp: event_criterion_def normal_lifecycle_def criterion_matches_def)
  ultimately show ?thesis by (simp add: command_env_def sample_env_def)
qed

lemma command_supports:
  assumes "set ts \<subseteq> set lifecycle_types_list"
  shows "sql_supports command_env (map (event_criterion ''orders'') ts)"
  unfolding sql_supports_def
proof (intro conjI allI impI)
  show "sql_agrees command_env (map (event_criterion ''orders'') ts) UNIV"
    unfolding sql_agrees_def
  proof (intro ballI allI impI)
    fix c d cond assume "c \<in> set (map (event_criterion ''orders'') ts)"
      and cond: "buildCriteriaSQL (env_json command_env) [EncodeCriterion (ReadCriterion_Tags c)] = Inr cond"
    then obtain t where "t \<in> set lifecycle_types_list" "c = event_criterion ''orders'' t" using assms by auto
    then show "env_where command_env cond d \<longleftrightarrow> criterion_matches (ext_sprint (env_json command_env)) d (ReadCriterion_Tags c)"
      using cond command_condition by blast
  qed
next
  fix rs assume rs: "normal_criteria rs \<and> crit_set ` set rs = criteria_meaning (map (event_criterion ''orders'') ts)"
  have normal: "\<exists>t\<in>set ts. ReadCriterion_Tags r = normal_lifecycle t" if "r \<in> set rs" for r
  proof -
    have meaning: "canonical_tag ` crit_set (event_criterion ''orders'' t) = set (normal_lifecycle t)" for t
      by (auto simp: event_criterion_def normal_lifecycle_def canonical_tag_def)
    have "crit_set r \<in> criteria_meaning (map (event_criterion ''orders'') ts)" using that rs by (metis imageI)
    then obtain t where t: "t \<in> set ts" "crit_set r = set (normal_lifecycle t)"
      by (auto simp: criteria_meaning_def meaning)
    moreover have "sorted_tags (normal_lifecycle t)"
      using t(1) assms normal_lifecycle_sorted by (auto simp: list_all_iff)
    moreover have "sorted_tags (ReadCriterion_Tags r)" using rs that by (simp add: normal_criteria_def)
    ultimately show ?thesis using sorted_tags_unique by metis
  qed
  show "sql_agrees command_env rs UNIV"
    unfolding sql_agrees_def
  proof (intro ballI allI impI)
    fix r d cond assume "r \<in> set rs"
      and cond: "buildCriteriaSQL (env_json command_env) [EncodeCriterion (ReadCriterion_Tags r)] = Inr cond"
    then obtain t where "t \<in> set lifecycle_types_list" "ReadCriterion_Tags r = normal_lifecycle t"
      using normal assms by blast
    then show "env_where command_env cond d \<longleftrightarrow> criterion_matches (ext_sprint (env_json command_env)) d (ReadCriterion_Tags r)"
      using cond command_condition by (metis insertCI)
  qed
qed

lemma command_world_good:
  assumes "set ts \<subseteq> set lifecycle_types_list" "store_inv db"
  shows "world_good command_env ''admin'' (map (event_criterion ''orders'') ts) (command_world db)"
  using command_supports [OF assms(1)] assms(2)
  by (auto simp: world_good_def command_world_def sample_saver_def saver_inv_def)

section \<open>A run of the commands\<close>

definition command_event :: "string \<Rightarrow> string \<Rightarrow> PreparedEvent" where
  "command_event eid ty =
     \<lparr>PreparedEvent_EventId = eid, PreparedEvent_EventType = ty,
      PreparedEvent_DataJSON = Json (JObj [(''boundary'', JStr ''orders'')]),
      PreparedEvent_MetadataJSON = Json (JObj [(''query'', JStr ''q'')])\<rparr>"

definition command_checks :: "string list \<Rightarrow> Position \<Rightarrow> ConsistencyCheck list" where
  "command_checks ts p =
     [\<lparr>Check_Criteria = map (\<lambda>t. \<lparr>ReadCriterion_Tags = normal_lifecycle t\<rparr>) ts, Check_Position = p\<rparr>]"

definition command_doc :: "string \<Rightarrow> string \<Rightarrow> document" where
  "command_doc n ty =
     [(''__commitPosition'', JNum n), (''__dateCreated'', JStr ''2026-01-01T00:00:00Z''),
      (''__eventId'', JStr ''id0''), (''__eventType'', JStr ty), (''__metadata'', JObj [(''query'', JStr ''q'')]),
      (''__preparePosition'', JNum n), (''__writeId'', JStr (n @ '':'' @ n)), (''boundary'', JStr ''orders'')]"

definition command_db1 :: sqlite_db where
  "command_db1 = \<lparr>db_events = [command_doc ''1'' EventTypeBoundaryCreated], db_writes = [(1, ''[]'')], db_next_id = 2\<rparr>"

definition command_db2 :: sqlite_db where
  "command_db2 =
     \<lparr>db_events = [command_doc ''1'' EventTypeBoundaryCreated, command_doc ''2'' EventTypeBoundaryActivated],
      db_writes = [(1, ''[]''), (2, ''[]'')], db_next_id = 3\<rparr>"

definition command_outcome :: "int64 \<Rightarrow> sqliteSaveResult" where
  "command_outcome gid = \<lparr>Result_transactionID = FormatInt gid, Result_globalID = gid, Result_err = None\<rparr>"

definition command_save :: "string \<Rightarrow> string list \<Rightarrow> Position \<Rightarrow> preparedSQLiteSave" where
  "command_save ty ts p = projr (prepareSQLiteSave command_env None [command_event ''id0'' ty] (command_checks ts p))"

lemma command_saves:
  "executeTransaction command_env sample_faults [command_save EventTypeBoundaryCreated [EventTypeBoundaryCreated] NotExistsPosition]
     empty_db = (command_db1, Inr [command_outcome 1])"
  "executeTransaction command_env sample_faults [command_save EventTypeBoundaryActivated lifecycle_types_list (Position 1 1)]
     command_db1 = (command_db2, Inr [command_outcome 2])"
  by code_simp+

lemma command_tags_valid:
  "t \<in> set lifecycle_types_list \<Longrightarrow> ValidTag \<lparr>Tag_Key = ''__eventType'', Tag_Value = t, Tag_Operator = ''''\<rparr>"
  "ValidTag \<lparr>Tag_Key = ''boundary'', Tag_Value = ''orders'', Tag_Operator = ''''\<rparr>"
proof -
  have "list_all (\<lambda>t. ValidTag \<lparr>Tag_Key = ''__eventType'', Tag_Value = t, Tag_Operator = ''''\<rparr>) lifecycle_types_list"
    by code_simp
  then show "t \<in> set lifecycle_types_list \<Longrightarrow> ValidTag \<lparr>Tag_Key = ''__eventType'', Tag_Value = t, Tag_Operator = ''''\<rparr>"
    by (simp add: list_all_iff)
qed code_simp

lemma command_save_prepared:
  assumes "set ts \<subseteq> set lifecycle_types_list"
  shows "prepareSQLiteSave command_env None [command_event ''id0'' ty] (command_checks ts p) = Inr (command_save ty ts p)"
proof -
  have "ValidateReadCriteria (map (\<lambda>t. \<lparr>ReadCriterion_Tags = normal_lifecycle t\<rparr>) ts) = Inr ()"
    using assms command_tags_valid unfolding ValidateReadCriteria_ok by (auto simp: normal_lifecycle_def)
  then have "\<exists>s. prepareSQLiteSave command_env None [command_event ''id0'' ty] (command_checks ts p) = Inr s"
    by (simp add: prepareSQLiteSave_def MarshalConsistency_def command_checks_def) (simp add: command_env_def)
  then show ?thesis by (auto simp: command_save_def)
qed

lemma command_db1_inv: "store_inv command_db1"
  by (rule executeTransaction_inv [OF command_saves(1) empty_db_inv])
    (simp add: prepareSQLiteSave_wf [OF command_save_prepared] lifecycle_types_list_def)

lemma command_prepared_events:
  "PrepareEventsForSave (map append_input [\<lparr>Append_EventID = eid, Append_EventType = ty,
      Append_Data = Json (JObj [(''boundary'', JStr ''orders'')]), Append_Metadata = Json (JObj [(''query'', JStr ''q'')])\<rparr>]) =
   Inr [command_event eid ty]"
  by code_simp

lemma command_normal: "normal_criteria (map (\<lambda>t. \<lparr>ReadCriterion_Tags = normal_lifecycle t\<rparr>) lifecycle_types_list)"
  by code_simp

lemma command_acceptable:
  assumes "t \<in> set lifecycle_types_list"
  shows "acceptable_criterion (Some \<lparr>Criterion_Tags = map Some (ReadCriterion_Tags (event_criterion ''orders'' t))\<rparr>)"
  using command_tags_valid(1) [OF assms] command_tags_valid(2)
  by (auto simp: acceptable_criterion_def event_criterion_def criterion_meaning_def equality_consistent_def canonical_tag_def)

lemma command_observation:
  assumes "ts = [EventTypeBoundaryCreated] \<or> ts = lifecycle_types_list" "validateConsistencyPosition p = Inr ()"
  shows "ConsistencyChecksFromObservations
    [storage_observation \<lparr>Core_Query = map (event_criterion ''orders'') ts, Core_Position = p\<rparr>] = Inr (command_checks ts p)"
proof -
  let ?cs = "map (event_criterion ''orders'') ts"
  let ?ob = "storage_observation \<lparr>Core_Query = ?cs, Core_Position = p\<rparr>"
  have types: "set ts \<subseteq> set lifecycle_types_list" "ts \<noteq> []" using assms(1) by (auto simp: lifecycle_types_list_def)
  have "observation_ok ?ob"
    using types assms(2) command_acceptable
    by (auto simp: observation_ok_def storage_observation_def storageQuery_def acceptable_query_def list_all_iff)
  moreover have "criteria_total [?ob] \<le> maxConsistencyCriteria" "tags_total [?ob] \<le> maxConsistencyTags"
    using assms(1) by (auto simp: storage_observation_def storageQuery_def lifecycle_types_list_def event_criterion_def
        maxConsistencyCriteria_def maxConsistencyTags_def)
  moreover have "functional (observation_pair ` set [?ob])" by (simp add: functional_def) (metis snd_conv)
  ultimately obtain checks where checks: "ConsistencyChecksFromObservations [?ob] = Inr checks"
    using ConsistencyChecks_accepts [of "[?ob]"] by (auto simp: maxConsistencyObservations_def)
  obtain chk where chk: "checks = [chk]" "normal_criteria (Check_Criteria chk)"
    "crit_set ` set (Check_Criteria chk) = criteria_meaning ?cs" "Check_Position chk = p"
    by (rule single_observation [OF checks])
  let ?ns = "map (\<lambda>t. \<lparr>ReadCriterion_Tags = normal_lifecycle t\<rparr>) ts"
  have "normal_criteria ?ns"
    using assms(1) command_normal by (auto simp: normal_criteria_def lifecycle_types_list_def)
  moreover have "crit_set ` set ?ns = criteria_meaning ?cs"
    by (simp add: criteria_meaning_def image_image normal_lifecycle_def event_criterion_def canonical_tag_def insert_commute)
  ultimately have "Check_Criteria chk = ?ns" using chk normal_criteria_unique by metis
  then show ?thesis using checks chk by (simp add: command_checks_def)
qed

text \<open>An append of one event to the sample store that the transaction accepts.\<close>

lemma command_append:
  assumes "ts = [EventTypeBoundaryCreated] \<or> ts = lifecycle_types_list" "validateConsistencyPosition p = Inr ()"
    "executeTransaction command_env sample_faults [command_save ty ts p] db = (db', Inr [command_outcome gid])"
    "saver_pools (world_saver w) ''admin'' = Some db" "world_others w = []" "in_int64 gid"
  shows "snd (world_append command_env sample_faults ''admin''
    (single_append ''admin'' ''id0'' ty (Json (JObj [(''boundary'', JStr ''orders'')])) (Json (JObj [(''query'', JStr ''q'')]))
       (map (event_criterion ''orders'') ts) p) w) = Inr (Position gid gid)"
proof -
  have types: "set ts \<subseteq> set lifecycle_types_list" using assms(1) by (auto simp: lifecycle_types_list_def)
  obtain st' where "executeBatch command_env None sample_faults ''admin'' [command_save ty ts p] (world_saver w) =
      (st', Inr [command_outcome gid])"
    using assms(3,4) by (simp add: executeBatch_def Let_def)
  then have "sqlite_submit command_env None sample_faults (world_saver w) ''admin'' (command_save ty ts p) =
      (st', Inr (command_outcome gid))"
    by (simp add: sqlite_submit_def flush_of_def live_results_def)
  then have "sqlite_save command_env None sample_faults None (world_saver w) [command_event ''id0'' ty] ''admin''
      (command_checks ts p) = (st', Some (Inr (FormatInt gid, gid)))"
    using command_save_prepared [OF types, of ty p] assms(4)
    by (simp add: sqlite_save_def SavePrepared_def enqueue_def enqueue_result_def command_outcome_def Let_def)
  then show ?thesis
    using command_prepared_events [of "''id0''" ty] command_observation [OF assms(1,2)] assms(5,6)
    by (simp add: world_append_def others_write_def Adapter_Append_def single_append_def)
qed

lemma command_latest:
  "map_sum id (\<lambda>b. (map (map_option Read_EventType \<circ> Match_Event) (Batch_Matches b), context_position b))
     (SqliteGetLatestByCriteria command_env sample_renv [''admin'' \<mapsto> empty_db]
        \<lparr>Latest_Boundary = ''admin'', Latest_Criteria = definitionCriteria ''orders''\<rparr>) = Inr ([None], NotExistsPosition)"
  "map_sum id (\<lambda>b. (map_sum id Boundary_Status (context_boundary command_codec ''orders'' (Batch_Matches b)),
      length (Batch_Matches b), context_position b))
     (SqliteGetLatestByCriteria command_env sample_renv [''admin'' \<mapsto> command_db1]
        \<lparr>Latest_Boundary = ''admin'', Latest_Criteria = lifecycleCriteria ''orders''\<rparr>) =
   Inr (Inr StatusProvisioning, 3, Position 1 1)"
  by code_simp+

lemma snd_pair: "snd p = x \<Longrightarrow> \<exists>a. p = (a, x)"
  by (cases p) simp

abbreviation command_appender :: "sqlite_world appender" where
  "command_appender \<equiv> world_append command_env sample_faults ''admin''"

abbreviation command_retriever :: "sqlite_world latest_retriever" where
  "command_retriever \<equiv> world_latest command_env sample_renv sample_faults ''admin''"

definition small_letter :: "char \<Rightarrow> bool" where
  "small_letter c \<longleftrightarrow> 97 \<le> (of_char c :: nat) \<and> of_char c \<le> (122 :: nat)"

lemma spaces_ends: "\<forall>w\<in>set spaces. w \<noteq> [] \<and> \<not> small_letter (hd w) \<and> \<not> small_letter (last w)"
  by (simp add: spaces_def small_letter_def)

text \<open>A word that begins and ends with a small letter has nothing to trim.\<close>

lemma TrimSpace_word:
  assumes "small_letter c" "small_letter (last (c # cs))"
  shows "TrimSpace (c # cs) = c # cs"
proof -
  obtain ds d where snoc: "c # cs = ds @ [d]" by (metis rev_exhaust list.distinct(1))
  have left: "\<not> prefix w (c # cs)" "\<not> prefix (rev w) (d # rev ds)" if "w \<in> set spaces" for w
  proof -
    from spaces_ends that have w: "w \<noteq> []" "\<not> small_letter (hd w)" "\<not> small_letter (last w)" by auto
    then show "\<not> prefix w (c # cs)" using assms(1) by (cases w) auto
    show "\<not> prefix (rev w) (d # rev ds)" using w(1,3) assms(2) snoc by (cases w rule: rev_cases) auto
  qed
  have "trim_left spaces (c # cs) = c # cs" by (rule trim_left_none) (use left in \<open>simp add: list_all_iff\<close>)
  moreover have "trim_left (map rev spaces) (rev (c # cs)) = rev (c # cs)"
    unfolding snoc by (rule trim_left_none) (use left in \<open>simp add: list_all_iff\<close>)
  ultimately show ?thesis unfolding TrimSpace_def by simp
qed

lemma TrimSpace_Nil: "TrimSpace [] = []"
proof -
  have "trim_left ws [] = []" if "\<forall>w\<in>set ws. w \<noteq> []" for ws
    by (rule trim_left_none) (use that in \<open>auto simp: list_all_iff\<close>)
  then show ?thesis using spaces_ends by (auto simp: TrimSpace_def)
qed

lemma command_normalized: "normalize_command command_create = Inr command_definition"
proof -
  have "TrimSpace ''orders'' = ''orders''" "TrimSpace ''sqlite'' = ''sqlite''" "TrimSpace ''main'' = ''main''"
    by (rule TrimSpace_word; simp add: small_letter_def)+
  moreover have "ValidateName ''orders'' = Inr ()" by code_simp
  ultimately show ?thesis
    by (simp add: normalize_command_def command_create_def command_definition_def TrimSpace_Nil)
qed

lemma command_creates:
  "\<exists>w' b. CreateBoundaryCommandHandler command_codec command_metadata (world_uuid command_ids) command_create ''admin''
     (Some command_appender) (Some command_retriever) (command_world empty_db) = (w', Inr b)"
proof -
  let ?w = "command_world empty_db"
  have w: "others_write command_env sample_faults ''admin'' ?w = ?w" "saver_pools (world_saver ?w) = [''admin'' \<mapsto> empty_db]"
    by (simp_all add: others_write_def command_world_def)
  obtain batch where batch: "SqliteGetLatestByCriteria command_env sample_renv [''admin'' \<mapsto> empty_db]
      \<lparr>Latest_Boundary = ''admin'', Latest_Criteria = definitionCriteria ''orders''\<rparr> = Inr batch"
    "map (map_option Read_EventType \<circ> Match_Event) (Batch_Matches batch) = [None]" "context_position batch = NotExistsPosition"
    using command_latest(1) by (cases "SqliteGetLatestByCriteria command_env sample_renv [''admin'' \<mapsto> empty_db]
      \<lparr>Latest_Boundary = ''admin'', Latest_Criteria = definitionCriteria ''orders''\<rparr>") auto
  then obtain m where m: "Batch_Matches batch = [m]" "Match_Event m = None" by auto
  have load: "create_loadContext ''admin'' ''orders'' command_retriever ?w =
      (?w, Inr \<lparr>Create_existing = None, Create_position = NotExistsPosition, Create_query = definitionCriteria ''orders''\<rparr>)"
    using batch(1,3) m w by (simp add: create_loadContext_def Let_def bindS_def world_latest_def Adapter_LatestByCriteria_def
        liftS_def definitionCriteria_def)
  have crit: "definitionCriteria ''orders'' = map (event_criterion ''orders'') [EventTypeBoundaryCreated]"
    by (simp add: definitionCriteria_def)
  have "snd (command_appender (single_append ''admin'' ''id0'' EventTypeBoundaryCreated (Json (JObj [(''boundary'', JStr ''orders'')]))
      (Json (JObj [(''query'', JStr ''q'')])) (definitionCriteria ''orders'') NotExistsPosition)
      (?w\<lparr>world_calls := 1\<rparr>)) = Inr (Position 1 1)"
    unfolding crit by (rule command_append [OF _ _ command_saves(1)])
      (simp_all add: validateConsistencyPosition_def command_world_def in_int64_def min_int64_def max_int64_def)
  from snd_pair [OF this] obtain w' where app: "command_appender (single_append ''admin'' ''id0'' EventTypeBoundaryCreated
      (Json (JObj [(''boundary'', JStr ''orders'')])) (Json (JObj [(''query'', JStr ''q'')])) (definitionCriteria ''orders'')
      NotExistsPosition) (?w\<lparr>world_calls := 1\<rparr>) = (w', Inr (Position 1 1))" by (rule exE)
  have uuid: "world_uuid command_ids ?w = (?w\<lparr>world_calls := 1\<rparr>, Inr ''id0'')"
    by (simp add: world_uuid_def command_world_def command_ids_def) code_simp
  have name: "Definition_Name command_definition = ''orders''" by (simp add: command_definition_def)
  have data: "marshal_created command_codec d = Inr (Json (JObj [(''boundary'', JStr (Created_Boundary d))]))" for d
    by (simp add: command_codec_def sample_codec_def)
  have meta: "marshal_metadata command_metadata (metadataWithQuery command_metadata (Command_Metadata command_create) q) =
      Inr (Json (JObj [(''query'', JStr ''q'')]))" for q
    by (simp add: command_metadata_def metadataWithQuery_def command_create_def)
  show ?thesis
    unfolding CreateBoundaryCommandHandler_def command_normalized bindS_lift
    by (simp add: bindS_def map_errorS_def load name uuid data meta app liftS_def del: One_nat_def)
qed

lemma command_activates:
  "\<exists>w' b. ProvisionBoundaryCommandHandler (Suc 0) command_codec command_metadata (world_uuid command_ids) command_definition [] ''admin''
     (Some command_appender) (Some command_retriever) (Some (\<lambda>_ st. (st, Inr ()))) (command_world command_db1) = Some (w', Inr b)"
proof -
  let ?w = "command_world command_db1"
  have w: "others_write command_env sample_faults ''admin'' ?w = ?w" "saver_pools (world_saver ?w) = [''admin'' \<mapsto> command_db1]"
    by (simp_all add: others_write_def command_world_def)
  have crit: "lifecycleCriteria ''orders'' = map (event_criterion ''orders'') lifecycle_types_list"
    by (simp add: lifecycleCriteria_def lifecycle_types_list_def)
  let ?read = "SqliteGetLatestByCriteria command_env sample_renv [''admin'' \<mapsto> command_db1]
      \<lparr>Latest_Boundary = ''admin'', Latest_Criteria = lifecycleCriteria ''orders''\<rparr>"
  obtain batch b where batch: "?read = Inr batch" "context_boundary command_codec ''orders'' (Batch_Matches batch) = Inr b"
    "Boundary_Status b = StatusProvisioning" "length (Batch_Matches batch) = 3" "context_position batch = Position 1 1"
    using command_latest(2) by (cases ?read; cases "context_boundary command_codec ''orders'' (Batch_Matches (projr ?read))") auto
  let ?model = "\<lparr>Context_boundary = b, Context_position = Position 1 1, Context_query = lifecycleCriteria ''orders''\<rparr>"
  have load: "provision_loadContext command_codec ''admin'' ''orders'' command_retriever ?w = (?w, Inr ?model)"
    using batch w by (simp add: provision_loadContext_def Let_def bindS_def world_latest_def Adapter_LatestByCriteria_def
        liftS_def) (simp add: crit lifecycle_types_list_def)
  have "snd (command_appender (single_append ''admin'' ''id0'' EventTypeBoundaryActivated (Json (JObj [(''boundary'', JStr ''orders'')]))
      (Json (JObj [(''query'', JStr ''q'')])) (lifecycleCriteria ''orders'') (Position 1 1))
      (?w\<lparr>world_calls := 1\<rparr>)) = Inr (Position 2 2)"
    unfolding crit by (rule command_append [OF _ _ command_saves(2)])
      (simp_all add: validateConsistencyPosition_def command_world_def in_int64_def min_int64_def max_int64_def)
  from snd_pair [OF this] obtain w' where app: "command_appender (single_append ''admin'' ''id0'' EventTypeBoundaryActivated
      (Json (JObj [(''boundary'', JStr ''orders'')])) (Json (JObj [(''query'', JStr ''q'')])) (lifecycleCriteria ''orders'')
      (Position 1 1)) (?w\<lparr>world_calls := 1\<rparr>) = (w', Inr (Position 2 2))" by (rule exE)
  have uuid: "world_uuid command_ids ?w = (?w\<lparr>world_calls := 1\<rparr>, Inr ''id0'')"
    by (simp add: world_uuid_def command_world_def command_ids_def) code_simp
  have name: "Definition_Name command_definition = ''orders''" by (simp add: command_definition_def)
  have valid: "validateDefinition command_definition = Inr ()" by code_simp
  have data: "marshal_activated command_codec d = Inr (Json (JObj [(''boundary'', JStr (Activated_Boundary d))]))" for d
    by (simp add: command_codec_def sample_codec_def)
  have meta: "marshal_metadata command_metadata (metadataWithQuery command_metadata [] q) =
      Inr (Json (JObj [(''query'', JStr ''q'')]))" for q
    by (simp add: command_metadata_def metadataWithQuery_def)
  have "activate_loop (Suc 0) command_codec command_metadata (world_uuid command_ids) ''admin'' command_appender command_retriever
      ''orders'' [] ?model ?w = Some (w', Inr (outcome_boundary EventTypeBoundaryActivated
        (Activated \<lparr>Activated_Boundary = ''orders''\<rparr>) (Position 2 2) b))"
    by (simp add: appendOutcome_def bindS_def map_errorS_def uuid marshal_outcome_def data meta app liftS_def del: One_nat_def)
  then show ?thesis
    unfolding ProvisionBoundaryCommandHandler_def valid sum.case name option.case prod.case load
    by (simp add: batch(3))
qed

end
