(* ===== verification/Spec2Isabelle.thy ===== *)
theory Spec2Isabelle
  imports Sample_Commands Json_Number
begin

text \<open>HEADER\<close>

section \<open>Saving through the group commit\<close>

text \<open>
  C1. One transaction of the group commit refines the abstract conditional log: without faults, on
  any store that satisfies the invariant, the requests of the batch behave as conditional appends
  run one after the other. The log afterwards is the abstract one, and a request succeeds exactly
  when its abstract append does.
\<close>

theorem transaction_refines_log:
  assumes "no_faults fx" "store_inv db" "list_all wf_request live"
  shows "\<exists>db' outs. executeTransaction env fx live db = (db', Inr outs) \<and>
    log_run (save_ops env (tx_clock fx) 0 live) (db_events db) =
      (db_events db', map (\<lambda>res. Result_err res = None) outs)"
proof -
  from assms(2) obtain ns where ns: "store_layout ns db" "db_next_id db = log_end db + 1"
    using store_layout_end by (auto simp: store_inv_def)
  obtain db1 next' acc outs where loop: "request_loop env fx 0 live (db_next_id db) 0 db = (db1, next', acc, outs)"
    by (metis prod.exhaust)
  have pos: "\<not> db_next_id db < 1" using ns by (simp add: log_end_def)
  have "executeTransaction env fx live db =
      (if acc > 0 then db1\<lparr>db_next_id := next'\<rparr> else db1, Inr outs)"
    using assms(1) loop pos by (simp add: executeTransaction_def no_faults_def Let_def)
  then show ?thesis
    using request_loop_refines [OF assms(1) ns(1) assms(3) ns(2) loop] by (cases "acc > 0") simp_all
qed

theorem transaction_refines_log_witness:
  "\<exists>db' outs. executeTransaction sample_env sample_faults [sample_save, sample_save] empty_db = (db', Inr outs) \<and>
    log_run (save_ops sample_env (tx_clock sample_faults) 0 [sample_save, sample_save]) (db_events empty_db) =
      (db_events db', map (\<lambda>res. Result_err res = None) outs) \<and>
    map (\<lambda>res. Result_err res = None) outs = [True, False]"
  using transaction_refines_log [of sample_faults empty_db "[sample_save, sample_save]" sample_env]
    sample_transaction sample_wf empty_db_inv
  by (auto simp: no_faults_def sample_faults_def failed_result_def)

text \<open>
  C2. What a caller is told is durable and valid: in every reachable state of the coordinator over
  the SQLite saver, under any interleaving, cancellation and fault, a save that was delivered as
  accepted is in the log at the reported position, was validated on exactly the log before its own
  block, and has its write record; and the accepted saves of a boundary are numbered in the order
  in which they were admitted.
\<close>

theorem delivered_saves_committed:
  assumes "gc_reachable (sqlite_exec env) wf_request st0 (c, st)" "saver_inv st0" "co_lanes c b = Some l"
  shows "(\<forall>req res. (req, Inr res) \<in> set (lane_done l) \<and> Result_err res = None \<longrightarrow>
      (\<exists>db now. saver_pools st b = Some db \<and>
         committed_save env now db (Req_prepared req) (Result_globalID res))) \<and>
    sorted_wrt (<) (done_positions save_position (lane_done l))"
  using sqlite_executor.system_reachable [OF assms(1,2)] assms(3)
  by (fastforce simp: sqlite_executor.system_good_def sqlite_executor.lane_good_def save_holds_def)

theorem delivered_saves_committed_witness:
  "gc_reachable (sqlite_exec sample_env) wf_request sample_saver (sample_coordinator, sample_saver_after) \<and>
   (\<exists>db now. saver_pools sample_saver_after ''orders'' = Some db \<and> committed_save sample_env now db sample_save 1)"
  using delivered_saves_committed [OF sample_reachable sample_saver_inv, of "''orders''" sample_lane]
    sample_reachable
  by (auto simp: sample_coordinator_def sample_lane_def sample_outcome_def)

text \<open>
  C5. The event log of every boundary stays dense under every interleaving and fault: the global
  positions are exactly 1, 2, up to the number of events, in insertion order, the positions are
  strictly increasing, and the sequence counter is the next free position.
\<close>

theorem reachable_log_dense:
  assumes "gc_reachable (sqlite_exec env) wf_request st0 (c, st)" "saver_inv st0" "saver_pools st b = Some db"
  shows "map global_id (db_events db) = [1..int (length (db_events db))] \<and>
    sorted_wrt (<) (map position_of (db_events db)) \<and> db_next_id db = int (length (db_events db)) + 1"
proof -
  have "store_inv db"
    using sqlite_executor.system_reachable [OF assms(1,2)] assms(3)
    by (auto simp: sqlite_executor.system_good_def saver_inv_def)
  then obtain ns where "store_layout ns db" "db_next_id db = int (sum_list ns) + 1"
    by (auto simp: store_inv_def)
  then show ?thesis
    using store_layout_ids store_layout_sorted store_layout_end [of ns db] by (auto simp: log_end_def)
qed

theorem reachable_log_dense_witness:
  "map global_id (db_events sample_db) = [1..int (length (db_events sample_db))] \<and> db_next_id sample_db = 2"
  using reachable_log_dense [OF sample_reachable sample_saver_inv, of "''orders''" sample_db]
  by (simp add: sample_saver_after_def sample_db_def)

text \<open>
  C6. The coordinator neither loses, duplicates nor reorders requests, and respects its bounds: in
  every reachable state the requests a boundary has admitted are, in order, the completed ones, the
  ones its worker holds and the queued ones; all are different; the queue is within \<open>MaxPending\<close>; and
  a batch in hand is within the request bound, and within the event bound unless it is one request.
\<close>

theorem coordinator_conserves_requests:
  assumes "gc_reachable exec ok s0 (c, s)" "co_lanes c b = Some l"
  shows "lane_admitted l = map fst (lane_done l) @ held (lane_phase l) @ lane_queue l \<and>
    distinct (map Req_id (lane_admitted l)) \<and> int (length (lane_queue l)) \<le> MaxPending (co_config c) \<and>
    (\<forall>batch carry. lane_phase l = WBatch batch carry \<longrightarrow> batch_ok (co_config c) batch)"
  using gc_reachable_inv [OF assms(1)] assms(2)
  by (fastforce simp: gc_inv_def lane_inv_def ids_inv_def ids_lane_def)

theorem coordinator_conserves_requests_witness:
  "lane_admitted sample_lane =
     map fst (lane_done sample_lane) @ held (lane_phase sample_lane) @ lane_queue sample_lane"
  using coordinator_conserves_requests [OF sample_reachable, of "''orders''" sample_lane]
  by (simp add: sample_coordinator_def)

text \<open>
  C7. Shutdown terminates and answers everyone: once the queues are closed no worker can run for ever,
  and a worker that can do no more has ended and has completed every request its boundary admitted.
\<close>

theorem shutdown_answers_everyone:
  fixes c :: "('p, 'r) Coordinator"
  assumes "gc_reachable exec ok s0 (c, s)" "co_closed c" "co_lanes c b = Some l" "lane_queue_closed l"
  shows "wfp (\<lambda>(l' :: ('p, 'r) lane) l. worker_step (co_config c) True l l') \<and>
    (\<forall>l'. (worker_step (co_config c) True)\<^sup>*\<^sup>* l l' \<and> (\<nexists>l''. worker_step (co_config c) True l' l'') \<longrightarrow>
       lane_phase l' = WDone \<and> map fst (lane_done l') = lane_admitted l)"
proof (intro conjI allI impI; (elim conjE)?)
  fix l' assume run: "(worker_step (co_config c) True)\<^sup>*\<^sup>* l l'" and final: "\<nexists>l''. worker_step (co_config c) True l' l''"
  have "lane_inv (co_config c) True l" "valid_config (co_config c)"
    using gc_reachable_inv [OF assms(1)] assms(2,3) by (auto simp: gc_inv_def)
  note inv = shutdown_run [OF run this]
  then have "lane_phase l' = WDone" using final shutdown_progress assms(4) by metis
  then show "lane_phase l' = WDone" "map fst (lane_done l') = lane_admitted l"
    using inv by (auto simp: lane_inv_def)
qed (rule shutdown_wf)

theorem shutdown_answers_everyone_witness:
  "\<exists>l'. (worker_step sample_config True)\<^sup>*\<^sup>* sample_closed_lane l' \<and>
     lane_phase l' = WDone \<and> map fst (lane_done l') = [sample_request]"
proof -
  have "co_closed sample_closed" "co_lanes sample_closed ''orders'' = Some sample_closed_lane"
    "lane_queue_closed sample_closed_lane" "co_config sample_closed = sample_config"
    "lane_admitted sample_closed_lane = [sample_request]"
    by (simp_all add: sample_closed_def sample_closed_lane_def sample_coordinator_def sample_lane_def)
  note facts = this
  note answers = shutdown_answers_everyone [OF sample_closed_reachable facts(1,2,3), unfolded facts(4,5)]
  obtain l' where run: "(worker_step sample_config True)\<^sup>*\<^sup>* sample_closed_lane l'"
    and final: "\<nexists>l''. worker_step sample_config True l' l''"
    using wfp_final [OF answers [THEN conjunct1], of sample_closed_lane] by (elim exE conjE)
  have "lane_phase l' = WDone \<and> map fst (lane_done l') = [sample_request]"
    by (rule answers [THEN conjunct2, rule_format]) (rule conjI [OF run final])
  with run show ?thesis by (intro exI [of _ l'] conjI) simp_all
qed



text \<open>
  C27. The bounds of the group commit are always usable: a configuration that is accepted, with its zero
  fields replaced by the defaults, is one the coordinator can be created with, and its bounds on
  requests, events and pending requests are at least 1.
\<close>

theorem accepted_config_usable:
  assumes "normalizeGroupCommitConfig cfg = Inr cfg'"
  shows "(\<exists>c. New cfg' = Some c \<and> co_config c = cfg') \<and>
    1 \<le> MaxBatchRequests cfg' \<and> 1 \<le> MaxBatchEvents cfg' \<and> 1 \<le> MaxPending cfg' \<and> 0 \<le> MaxDelay cfg' \<and>
    (MaxBatchRequests cfg \<noteq> 0 \<longrightarrow> MaxBatchRequests cfg' = MaxBatchRequests cfg)"
  using assms normalizeGroupCommitConfig_valid [OF assms]
  by (auto simp: New_def normalizeGroupCommitConfig_def Let_def split: if_splits)

theorem accepted_config_usable_witness:
  "\<exists>cfg'. normalizeGroupCommitConfig \<lparr>MaxBatchRequests = 0, MaxBatchEvents = 5, MaxPending = 0, MaxDelay = 0,
       FlushTimeout = 0\<rparr> = Inr cfg' \<and> MaxBatchRequests cfg' = 128 \<and> (\<exists>c. New cfg' = Some c \<and> co_config c = cfg')"
proof -
  let ?cfg = "\<lparr>MaxBatchRequests = 0, MaxBatchEvents = 5, MaxPending = 0, MaxDelay = 0, FlushTimeout = 0\<rparr> :: Config"
  let ?cfg' = "\<lparr>MaxBatchRequests = 128, MaxBatchEvents = 5, MaxPending = 4096, MaxDelay = 0,
    FlushTimeout = 30 * 1000000000\<rparr> :: Config"
  have "normalizeGroupCommitConfig ?cfg = Inr ?cfg'" by (simp add: normalizeGroupCommitConfig_def)
  then show ?thesis using accepted_config_usable [of ?cfg ?cfg'] by auto
qed

section \<open>Reading\<close>



text \<open>
  C8. Observe, then save: the context position a latest-by-criteria read returns is the one the
  consistency check of a save compares with, so that a save that observes it on an unchanged store is
  not a conflict.
\<close>

theorem latest_read_is_current:
  assumes "SqliteGetLatestByCriteria env renv pools query = Inr res" "pools (Latest_Boundary query) = Some db"
    "store_inv db" "sql_agrees env (Latest_Criteria query) (set (db_events db))"
  shows "list_all (check_current env db) (prepareConsistencyChecks (env_json env)
    [\<lparr>Check_Criteria = Latest_Criteria query, Check_Position = context_position res\<rparr>])"
  using latest_read_current [of env renv pools query res db] assms by blast

theorem latest_read_is_current_witness:
  "\<exists>res. SqliteGetLatestByCriteria sample_env sample_renv [''orders'' \<mapsto> sample_db]
       \<lparr>Latest_Boundary = ''orders'', Latest_Criteria = [sample_criterion]\<rparr> = Inr res \<and>
     list_all (check_current sample_env sample_db) (prepareConsistencyChecks (env_json sample_env)
       [\<lparr>Check_Criteria = [sample_criterion], Check_Position = context_position res\<rparr>])"
proof -
  let ?q = "\<lparr>Latest_Boundary = ''orders'', Latest_Criteria = [sample_criterion]\<rparr> :: LatestByCriteriaQuery"
  let ?r = "SqliteGetLatestByCriteria sample_env sample_renv [''orders'' \<mapsto> sample_db] ?q"
  have "\<not> isl ?r" by code_simp
  then obtain res where "?r = Inr res" by (cases ?r) auto
  then show ?thesis using latest_read_is_current [of sample_env sample_renv _ ?q res sample_db] sample_db_inv sample_sql
    by auto
qed

section \<open>The API over the SQLite store\<close>







text \<open>
  C21. Callers always get a classified error: whatever error or panic the backend produces, an error of
  \<open>SaveEventsV2\<close> carries a status code other than \<open>Unknown\<close>, and a coded error of the backend keeps its
  code.
\<close>

theorem save_errors_classified:
  assumes "SaveEventsV2 be ts s user req st = (st', Inl err)"
  shows "\<exists>c. error_class err = Some c \<and> c \<noteq> Unknown"
proof -
  have chk: "\<exists>c. error_class e = Some c \<and> c \<noteq> Unknown" if "ConsistencyChecksFromObservations obs = Inl e" for e obs
    using ConsistencyChecks_error_code [OF that] by (auto simp: error_class_def CodeOf_def FromError_def split: option.splits)
  have gate: "\<exists>c. error_class e = Some c \<and> c \<noteq> Unknown" if "RequireBoundaryActive s b = Inl e" for e b
    using RequireBoundaryActive_class [OF that] by auto
  have coded: "\<exists>c. error_class (Coded k m) = Some c \<and> c \<noteq> Unknown" if "k \<noteq> Unknown" for k m
    using that by (simp add: error_class_def)
  show ?thesis using assms chk gate coded wrap_backend_error_class
    by (auto simp: SaveEventsV2_def saveEventsV2Request_def authorizeRequest_def validateSaveEventsV2Request_def
        saveEvents_def Let_def split: option.splits sum.splits if_splits prod.splits)
qed

theorem save_errors_classified_witness:
  "\<exists>err c. SaveEventsV2 (sample_backend\<lparr>be_save := (\<lambda>st _ _ _. (st, None))\<rparr>) (\<lambda>_. 0) NewEventStoreServer None
     (Some sample_api_request) (None, sample_saver) = ((None, sample_saver), Inl err) \<and>
     error_class err = Some c \<and> c \<noteq> Unknown"
proof -
  let ?be = "sample_backend\<lparr>be_save := (\<lambda>st _ _ _. (st, None))\<rparr>"
  have "SaveV2_Events sample_api_request \<noteq> []" by (simp add: sample_api_request_def)
  then have "SaveEventsV2 ?be (\<lambda>_. 0) NewEventStoreServer None (Some sample_api_request) (None, sample_saver) =
      ((None, sample_saver), Inl (Coded Internal ''Internal server error''))"
    using sample_api_checks sample_api_prepared
    by (simp add: SaveEventsV2_def saveEventsV2Request_def authorizeRequest_def validateSaveEventsV2Request_def
        saveEvents_def savePreparedWithMetrics_def RequireBoundaryActive_def NewEventStoreServer_def)
  then show ?thesis using save_errors_classified by blast
qed

text \<open>
  C26. Writing and index management need a role: an authenticated user without the ADMIN and OPERATIONS
  roles can neither save nor see indexes, and only an ADMIN can create or drop one; the request is
  rejected before the backend is called.
\<close>

theorem roles_required:
  assumes "RoleAdmin \<notin> set (User_Roles u)"
  shows "\<exists>msg. CreateIndex im s (Some u) cr st = (st, Inl (Coded PermissionDenied msg)) \<and>
      DropIndex im s (Some u) dr st = (st, Inl (Coded PermissionDenied msg)) \<and>
      (RoleOperations \<notin> set (User_Roles u) \<longrightarrow>
         SaveEventsV2 be ts s (Some u) req sst = (sst, Inl (Coded PermissionDenied msg)) \<and>
         ListIndexes im s (Some u) lr st = Inl (Coded PermissionDenied msg) \<and>
         GetIndex im s (Some u) gr st = Inl (Coded PermissionDenied msg))"
  using assms
  by (auto simp: CreateIndex_def DropIndex_def SaveEventsV2_def ListIndexes_def GetIndex_def authorizeRequest_def)

theorem roles_required_witness:
  "\<exists>msg. SaveEventsV2 sample_backend (\<lambda>_. 0) NewEventStoreServer
      (Some \<lparr>User_Id = ''1'', User_Name = ''n'', User_Username = ''u'', User_HashedPassword = '''', User_Roles = []\<rparr>)
      (Some sample_api_request) (None, sample_saver) = ((None, sample_saver), Inl (Coded PermissionDenied msg))"
  using roles_required [of "\<lparr>User_Id = ''1'', User_Name = ''n'', User_Username = ''u'', User_HashedPassword = '''',
      User_Roles = []\<rparr>" None NewEventStoreServer None "()" None sample_backend "\<lambda>_. 0" "Some sample_api_request"
      "(None, sample_saver)" None None] by auto

section \<open>Subscriptions\<close>

text \<open>
  C4. A subscription delivers exactly once and in order: however the store grows while the drain runs,
  and whenever it stops, the events handed to the handler are exactly the matching events after the start
  position up to the cursor, in log order, none twice and none skipped; and a drain that ends without
  error has reached the end of the log it last read.
\<close>

theorem subscription_exactly_once:
  assumes "drain fuel (sqlite_world x boundary) (newSubscriptionDrain boundary query (Some p)) = Some (d', err)"
  shows "drain_delivered d' = between_events (Some p) (drain_cursor d') (matching_events x query (drain_tick d')) \<and>
    sorted_wrt (<) (map read_position (drain_delivered d')) \<and>
    (err = None \<longrightarrow> (\<exists>n\<le>drain_tick d'. pending_events (drain_cursor d') (matching_events x query n) = []))"
proof -
  have start: "sqlite_pages.drained x query boundary (Some p) [] (newSubscriptionDrain boundary query (Some p))"
    by (auto simp: sqlite_pages.drained_def newSubscriptionDrain_def filter_empty_conv after_def)
  from sqlite_pages.drain_safe [OF assms start]
  have del: "drain_delivered d' = between_events (Some p) (drain_cursor d') (matching_events x query (drain_tick d'))"
    and rest: "err = None \<longrightarrow> (\<exists>n\<le>drain_tick d'. pending_events (drain_cursor d') (matching_events x query n) = [])"
    by (auto simp: sqlite_pages.drained_def)
  have "sorted_wrt (<) (map read_position (drain_delivered d'))"
    unfolding del by (rule log_sorted_filter [OF matching_sorted])
  with del rest show ?thesis by blast
qed

theorem subscription_exactly_once_witness:
  "\<exists>d'. drain 2 (sqlite_world sample_reader ''orders'') (newSubscriptionDrain ''orders'' None (Some NotExistsPosition)) =
       Some (d', None) \<and>
     drain_delivered d' = between_events (Some NotExistsPosition) (drain_cursor d')
       (matching_events sample_reader None (drain_tick d'))"
proof -
  let ?r = "drain 2 (sqlite_world sample_reader ''orders'') (newSubscriptionDrain ''orders'' None (Some NotExistsPosition))"
  have "map_option snd ?r = Some None" by code_simp
  then obtain d' where "?r = Some (d', None)" by (cases ?r) auto
  then show ?thesis using subscription_exactly_once by blast
qed



section \<open>The boundary catalog\<close>

text \<open>
  C12. The catalog query sees the whole log: whatever the paging and however the log grows meanwhile, a
  catalog rebuilt page by page through the adapter from the SQLite store is the one obtained by applying
  all lifecycle events of some state of the log in order, and it is well formed.
\<close>

theorem catalog_replay_exact:
  assumes "replayCatalog fuel (Some (sqlite_catalog_read x admin)) codec admin name = Some (Inr c)"
  shows "\<exists>n. apply_all codec (lifecycle_events x name n) NewCatalog = Inr c \<and> catalog_ok c"
  using sqlite_catalog.replayCatalog_complete [OF assms] replay_ok [OF _ sqlite_catalog.reader_sorted] by blast

theorem catalog_replay_exact_witness:
  "\<exists>c n. replayCatalog 3 (Some (sqlite_catalog_read sample_admin ''admin'')) sample_codec ''admin'' '''' = Some (Inr c) \<and>
     c \<noteq> [] \<and> apply_all sample_codec (lifecycle_events sample_admin '''' n) NewCatalog = Inr c \<and> catalog_ok c"
proof -
  let ?r = "replayCatalog 3 (Some (sqlite_catalog_read sample_admin ''admin'')) sample_codec ''admin'' []"
  obtain res where r: "?r = Some res" using sample_catalog by (cases ?r) auto
  obtain c where "?r = Some (Inr c)" "c \<noteq> []" using sample_catalog unfolding r by (cases res) auto
  then show ?thesis using catalog_replay_exact by blast
qed

text \<open>
  C20. The catalog query ends: if the log does not grow beyond some number of lifecycle events, that many
  page reads plus one are enough for it to return, with a catalog or with an error.
\<close>

theorem catalog_replay_ends:
  assumes "\<And>n. length (lifecycle_events x name n) \<le> bound" "bound < fuel"
  shows "\<exists>res. replayCatalog fuel (Some (sqlite_catalog_read x admin)) codec admin name = Some res"
  using sqlite_catalog.replayCatalog_ends [OF assms] by blast

theorem catalog_replay_ends_witness:
  "\<exists>res. replayCatalog 3 (Some (sqlite_catalog_read sample_admin ''admin'')) sample_codec ''admin'' '''' = Some res"
  by (rule catalog_replay_ends [OF sample_admin_length]) simp

text \<open>
  C17. The lifecycle of a boundary is monotone: applying events never removes a boundary, never changes its
  name, description, placement or definition position, never leaves ACTIVE, and never returns to
  PROVISIONING.
\<close>

theorem boundary_lifecycle_monotone:
  assumes "apply_all codec es c = Inr c'" "map_of c name = Some b"
  shows "\<exists>b'. map_of c' name = Some b' \<and> boundary_le b b'"
  using apply_all_le [OF assms(1)] assms(2) by (simp add: catalog_le_def)

theorem boundary_lifecycle_monotone_witness:
  "\<exists>c' b'. apply_all sample_codec sample_events [(''orders'', sample_boundary)] = Inr c' \<and>
     map_of c' ''orders'' = Some b' \<and> Boundary_Status b' = StatusActive"
proof -
  have "\<not> isl (apply_all sample_codec sample_events [(''orders'', sample_boundary)])" by code_simp
  then obtain c' where "apply_all sample_codec sample_events [(''orders'', sample_boundary)] = Inr c'"
    by (cases "apply_all sample_codec sample_events [(''orders'', sample_boundary)]") auto
  from this boundary_lifecycle_monotone [OF this, of "''orders''" sample_boundary] show ?thesis
    by (auto simp: boundary_le_def) (auto simp: sample_boundary_def)
qed

section \<open>Commands on the lifecycle of boundaries\<close>

text \<open>
  C99. A boundary is created at most once: when \<open>CreateBoundaryCommandHandler\<close> on the SQLite store succeeds,
  then at the moment its event was committed the log held no definition of that name, whatever other
  processes wrote between its read and its append, and the event is in the log at the reported position.
\<close>

theorem boundary_created_once:
  assumes "CreateBoundaryCommandHandler codec mc (world_uuid new_id) command admin
      (Some (world_append env fx admin)) (Some (world_latest env renv fx admin)) w = (w', Inr b)"
    "normalize_command command = Inr def" "world_good env admin (definitionCriteria (Definition_Name def)) w"
  shows "\<exists>before new later. world_log admin w' = before @ new # later \<and>
    (\<forall>d\<in>set before. \<not> criterion_hit env (event_criterion (Definition_Name def) EventTypeBoundaryCreated) d) \<and>
    Boundary_DefinitionPosition b = Some (position_of new) \<and> Boundary_Name b = Definition_Name def"
  using sqlite_commands.create_fresh [OF assms(1,3,2) refl] by (metis definitionCriteria_def list.set_intros(1))

theorem boundary_created_once_witness:
  "\<exists>w' b before new later. CreateBoundaryCommandHandler command_codec command_metadata (world_uuid command_ids) command_create ''admin''
     (Some command_appender) (Some command_retriever) (command_world empty_db) = (w', Inr b) \<and>
   world_log ''admin'' w' = before @ new # later \<and> Boundary_DefinitionPosition b = Some (position_of new)"
proof -
  have "world_good command_env ''admin'' (definitionCriteria (Definition_Name command_definition)) (command_world empty_db)"
    using command_world_good [of "[EventTypeBoundaryCreated]" empty_db] empty_db_inv
    by (simp add: definitionCriteria_def command_definition_def lifecycle_types_list_def)
  with command_creates command_normalized boundary_created_once show ?thesis by metis
qed

text \<open>
  C99. An activation is recorded only for a boundary that is not active: when the provisioning command on
  the SQLite store succeeds, then in the log before its BoundaryActivated event the latest events of the
  boundary still rebuild to a boundary that is not active, whatever outcomes other processes recorded
  while the storage was provisioned and however often the append was retried.
\<close>

theorem activation_not_repeated:
  assumes "ProvisionBoundaryCommandHandler fuel codec mc (world_uuid new_id) def meta admin
      (Some (world_append env fx admin)) (Some (world_latest env renv fx admin)) (Some provision) w = Some (w', Inr b)"
    "world_good env admin (lifecycleCriteria (Definition_Name def)) w"
    "\<forall>d v. world_good env admin (lifecycleCriteria (Definition_Name def)) v \<longrightarrow>
       world_good env admin (lifecycleCriteria (Definition_Name def)) (fst (provision d v)) \<and>
       prefix (world_log admin v) (world_log admin (fst (provision d v)))"
  shows "\<exists>before new later ms b0. world_log admin w' = before @ new # later \<and>
    list_all2 (\<lambda>c m. case Match_Event m of
        None \<Rightarrow> filter (criterion_hit env c) before = []
      | Some e \<Rightarrow> filter (criterion_hit env c) before \<noteq> [] \<and> row_reads renv (last (filter (criterion_hit env c) before)) e)
      (lifecycleCriteria (Definition_Name def)) ms \<and>
    context_boundary codec (Definition_Name def) ms = Inr b0 \<and> Boundary_Status b0 \<noteq> StatusActive \<and>
    Boundary_Status b = StatusActive \<and> Boundary_StatusPosition b = Some (position_of new)"
  by (rule sqlite_commands.provision_commit [OF assms(1,2) refl, unfolded sqlite_commands.found_in_def])
    (use assms(3) in blast)

theorem activation_not_repeated_witness:
  "\<exists>w' b before new later. ProvisionBoundaryCommandHandler (Suc 0) command_codec command_metadata (world_uuid command_ids)
     command_definition [] ''admin'' (Some command_appender) (Some command_retriever) (Some (\<lambda>_ st. (st, Inr ())))
     (command_world command_db1) = Some (w', Inr b) \<and>
   world_log ''admin'' w' = before @ new # later \<and> Boundary_StatusPosition b = Some (position_of new)"
proof -
  have good: "world_good command_env ''admin'' (lifecycleCriteria (Definition_Name command_definition)) (command_world command_db1)"
    using command_world_good [of lifecycle_types_list command_db1] command_db1_inv
    by (simp add: lifecycleCriteria_def command_definition_def lifecycle_types_list_def)
  obtain w' b where run: "ProvisionBoundaryCommandHandler (Suc 0) command_codec command_metadata (world_uuid command_ids)
     command_definition [] ''admin'' (Some command_appender) (Some command_retriever) (Some (\<lambda>_ st. (st, Inr ())))
     (command_world command_db1) = Some (w', Inr b)" using command_activates by blast
  from activation_not_repeated [OF run good] run show ?thesis by (simp) blast
qed

text \<open>
  C99. The context of the provisioning command is exact: rebuilding the boundary from the latest event of
  each kind, with the outcomes before the definition left out, gives the same boundary as replaying its
  whole lifecycle, and reports a missing definition exactly when the replay has none.
\<close>

theorem provisioning_context_exact:
  assumes "apply_all codec es NewCatalog = Inr c" "log_sorted es" "\<forall>e\<in>set es. lifecycle_event codec name e"
  shows "context_boundary codec name (lifecycle_matches es) =
    (case Catalog_Get name c of
       None \<Rightarrow> Inl (Coded FailedPrecondition ''boundary %q has no definition event'') | Some b \<Rightarrow> Inr b)"
  using context_is_replay [of codec es c name] assms by blast

theorem provisioning_context_exact_witness:
  "map_sum id Boundary_Status (context_boundary command_codec ''orders'' (lifecycle_matches lifecycle_sample)) = Inr StatusFailed"
proof -
  let ?es = lifecycle_sample
  have st: "map_sum id (\<lambda>c. map_option Boundary_Status (Catalog_Get ''orders'' c)) (apply_all command_codec ?es NewCatalog) =
      Inr (Some StatusFailed)" by code_simp
  then obtain c b where c: "apply_all command_codec ?es NewCatalog = Inr c" "Catalog_Get ''orders'' c = Some b"
    "Boundary_Status b = StatusFailed" by (cases "apply_all command_codec ?es NewCatalog") auto
  have "log_sorted ?es" by code_simp
  moreover have "\<forall>e\<in>set ?es. lifecycle_event command_codec ''orders'' e"
    by (simp add: lifecycle_sample_def lifecycle_event_def command_codec_def sample_codec_def sample_field_def)
  ultimately show ?thesis using provisioning_context_exact [OF c(1)] c(2,3) by simp
qed

end
